theory Spec2Isabelle
  imports Main "HOL-Library.Sublist" "HOL-Library.Word"
begin

unbundle bit_operations_syntax

section \<open>Go values used by the program\<close>

text \<open>
  A Go \<^verbatim>\<open>string\<close> is a sequence of bytes; it is modelled by \<^typ>\<open>string\<close>, whose
  characters are bytes. The literals of \<^verbatim>\<open>main.go\<close> that hold Japanese text are written
  here as the bytes of their UTF-8 encoding, which is what the Go compiler stores.

  A slice is either \<^verbatim>\<open>nil\<close> or holds a sequence of elements; \<^verbatim>\<open>encoding/json\<close> tells the
  two apart, so the model does too. Reading an index outside \<^verbatim>\<open>0 .. len-1\<close> panics with
  a run-time error; that panic is a value of the model.
\<close>

datatype 'a slice = nil | Slice "'a list"

fun elems :: "'a slice \<Rightarrow> 'a list" where
  "elems nil = []"
| "elems (Slice xs) = xs"

definition len :: "'a slice \<Rightarrow> nat" where
  "len s = length (elems s)"

datatype runtime_error = IndexOutOfRange int nat

definition index :: "'a slice \<Rightarrow> int \<Rightarrow> runtime_error + 'a" where
  "index s i =
     (if 0 \<le> i \<and> i < int (len s) then Inr (elems s ! nat i)
      else Inl (IndexOutOfRange i (len s)))"

text \<open>
  A value of the interface \<^verbatim>\<open>error\<close> is observed by this program only through its
  method \<^verbatim>\<open>Error()\<close>, so an error is modelled by the string that method returns.
\<close>

datatype error = Err (Error: string)

section \<open>Package strings\<close>

text \<open>
  \<^verbatim>\<open>strings.Index(s, substr)\<close> is the index of the first occurrence of \<^verbatim>\<open>substr\<close> in
  \<^verbatim>\<open>s\<close>, or \<^verbatim>\<open>-1\<close>; \<^verbatim>\<open>strings.Contains(s, substr)\<close> is \<^verbatim>\<open>Index(s, substr) >= 0\<close>.
  \<^verbatim>\<open>HasPrefix\<close> is \<^const>\<open>prefix\<close>.
\<close>

fun IndexFrom :: "nat \<Rightarrow> string \<Rightarrow> string \<Rightarrow> int" where
  "IndexFrom i [] substr = (if substr = [] then int i else - 1)"
| "IndexFrom i (c # s) substr =
     (if prefix substr (c # s) then int i else IndexFrom (Suc i) s substr)"

definition Index :: "string \<Rightarrow> string \<Rightarrow> int" where
  "Index s substr = IndexFrom 0 s substr"

definition Contains :: "string \<Rightarrow> string \<Rightarrow> bool" where
  "Contains s substr \<longleftrightarrow> Index s substr \<ge> 0"

section \<open>Package fmt and the process's output streams\<close>

text \<open>
  The program writes to standard output through \<^verbatim>\<open>fmt\<close> and to standard error through
  \<^verbatim>\<open>log\<close>. A process is the pair of what has been written to each so far.
\<close>

record process =
  stdout :: string
  stderr :: string

definition start :: process where
  "start = \<lparr>stdout = [], stderr = []\<rparr>"

text \<open>
  \<^verbatim>\<open>fmt.Sprintf\<close> for the verbs this program uses: \<^verbatim>\<open>%s\<close> and \<^verbatim>\<open>%v\<close>, without
  flags, applied to a string or to an error, both of which print as their text
  (for an error, the result of \<^verbatim>\<open>Error()\<close>), and \<^verbatim>\<open>%%\<close>. An operand is passed as that
  text. A verb with no operand left prints \<^verbatim>\<open>%!v(MISSING)\<close>, a lone \<^verbatim>\<open>%\<close> at the end
  prints \<^verbatim>\<open>%!(NOVERB)\<close>. Other verbs and surplus operands are outside this model:
  \<^const>\<open>None\<close>.
\<close>

fun Sprintf :: "string \<Rightarrow> string list \<Rightarrow> string option" where
  "Sprintf [] [] = Some []"
| "Sprintf [] (a # args) = None"
| "Sprintf (c # format) args =
     (if c \<noteq> CHR ''%'' then map_option ((#) c) (Sprintf format args)
      else case format of
        [] \<Rightarrow> (if args = [] then Some ''%!(NOVERB)'' else None)
      | verb # format' \<Rightarrow>
          if verb = CHR ''%'' then map_option ((#) CHR ''%'') (Sprintf format' args)
          else if verb = CHR ''s'' \<or> verb = CHR ''v'' then
            (case args of
               [] \<Rightarrow> map_option ((@) (''%!'' @ [verb] @ ''(MISSING)'')) (Sprintf format' [])
             | a # args' \<Rightarrow> map_option ((@) a) (Sprintf format' args'))
          else None)"

text \<open>
  \<^verbatim>\<open>fmt.Printf\<close> writes the formatted text to standard output, \<^verbatim>\<open>fmt.Println\<close> of one
  string writes the string and a newline. (A format outside the model of
  \<^const>\<open>Sprintf\<close> writes nothing here; the formats of this program are inside it, see
  \<open>Sprintf_formats\<close>.)
\<close>

definition Printf :: "string \<Rightarrow> string list \<Rightarrow> process \<Rightarrow> process" where
  "Printf format args p =
     (case Sprintf format args of
        None \<Rightarrow> p
      | Some text \<Rightarrow> p\<lparr>stdout := stdout p @ text\<rparr>)"

definition Println :: "string \<Rightarrow> process \<Rightarrow> process" where
  "Println a p = p\<lparr>stdout := stdout p @ a @ [CHR 0x0A]\<rparr>"

section \<open>The error classifier\<close>

text \<open>The three format strings of \<^verbatim>\<open>handleInvokeError\<close> (lines 119, 121 and 123).\<close>

definition format_region :: string where
  "format_region =
     [CHR 0xE3, CHR 0x82, CHR 0xA8, CHR 0xE3, CHR 0x83, CHR 0xA9, CHR 0xE3, CHR 0x83, CHR 0xBC] @
     '': '' @
     [CHR 0xE9, CHR 0x81, CHR 0xB8, CHR 0xE6, CHR 0x8A, CHR 0x9E, CHR 0xE3, CHR 0x81, CHR 0x95] @
     [CHR 0xE3, CHR 0x82, CHR 0x8C, CHR 0xE3, CHR 0x81, CHR 0x9F, CHR 0xE3, CHR 0x83, CHR 0xAA] @
     [CHR 0xE3, CHR 0x83, CHR 0xBC, CHR 0xE3, CHR 0x82, CHR 0xB8, CHR 0xE3, CHR 0x83, CHR 0xA7] @
     [CHR 0xE3, CHR 0x83, CHR 0xB3, CHR 0xE3, CHR 0x81, CHR 0xA7] @
     ''Bedrock'' @
     [CHR 0xE3, CHR 0x82, CHR 0xB5, CHR 0xE3, CHR 0x83, CHR 0xBC, CHR 0xE3, CHR 0x83, CHR 0x93] @
     [CHR 0xE3, CHR 0x82, CHR 0xB9, CHR 0xE3, CHR 0x81, CHR 0x8C, CHR 0xE5, CHR 0x88, CHR 0xA9] @
     [CHR 0xE7, CHR 0x94, CHR 0xA8, CHR 0xE3, CHR 0x81, CHR 0xA7, CHR 0xE3, CHR 0x81, CHR 0x8D] @
     [CHR 0xE3, CHR 0x81, CHR 0xBE, CHR 0xE3, CHR 0x81, CHR 0x9B, CHR 0xE3, CHR 0x82, CHR 0x93] @
     [CHR 0xE3, CHR 0x80, CHR 0x82, CHR 0xE3, CHR 0x83, CHR 0xAA, CHR 0xE3, CHR 0x83, CHR 0xBC] @
     [CHR 0xE3, CHR 0x82, CHR 0xB8, CHR 0xE3, CHR 0x83, CHR 0xA7, CHR 0xE3, CHR 0x83, CHR 0xB3] @
     [CHR 0xE3, CHR 0x81, CHR 0x94, CHR 0xE3, CHR 0x81, CHR 0xA8, CHR 0xE3, CHR 0x81, CHR 0xAE] @
     [CHR 0xE3, CHR 0x82, CHR 0xB5, CHR 0xE3, CHR 0x83, CHR 0xBC, CHR 0xE3, CHR 0x83, CHR 0x93] @
     [CHR 0xE3, CHR 0x82, CHR 0xB9, CHR 0xE6, CHR 0x8F, CHR 0x90, CHR 0xE4, CHR 0xBE, CHR 0x9B] @
     [CHR 0xE7, CHR 0x8A, CHR 0xB6, CHR 0xE6, CHR 0xB3, CHR 0x81, CHR 0xE3, CHR 0x82, CHR 0x92] @
     '' https://aws.amazon.com/about-aws/global-infrastructure/regional-produ'' @
     ''ct-services/ '' @
     [CHR 0xE3, CHR 0x81, CHR 0xA7, CHR 0xE7, CHR 0xA2, CHR 0xBA, CHR 0xE8, CHR 0xAA, CHR 0x8D] @
     [CHR 0xE3, CHR 0x81, CHR 0x97, CHR 0xE3, CHR 0x81, CHR 0xA6, CHR 0xE3, CHR 0x81, CHR 0x8F] @
     [CHR 0xE3, CHR 0x81, CHR 0xA0, CHR 0xE3, CHR 0x81, CHR 0x95, CHR 0xE3, CHR 0x81, CHR 0x84] @
     [CHR 0x0A]"

definition format_model :: string where
  "format_model =
     [CHR 0xE3, CHR 0x82, CHR 0xA8, CHR 0xE3, CHR 0x83, CHR 0xA9, CHR 0xE3, CHR 0x83, CHR 0xBC] @
     '': '' @
     [CHR 0xE3, CHR 0x83, CHR 0xA2, CHR 0xE3, CHR 0x83, CHR 0x87, CHR 0xE3, CHR 0x83, CHR 0xAB] @
     [CHR 0xE8, CHR 0xAD, CHR 0x98, CHR 0xE5, CHR 0x88, CHR 0xA5, CHR 0xE5, CHR 0xAD, CHR 0x90] @
     '' '' @
     [CHR 0x22] @
     ''%s'' @
     [CHR 0x22] @
     '' '' @
     [CHR 0xE3, CHR 0x81, CHR 0x8B, CHR 0xE3, CHR 0x82, CHR 0x89, CHR 0xE3, CHR 0x83, CHR 0x95] @
     [CHR 0xE3, CHR 0x82, CHR 0xA1, CHR 0xE3, CHR 0x83, CHR 0xB3, CHR 0xE3, CHR 0x83, CHR 0x87] @
     [CHR 0xE3, CHR 0x83, CHR 0xBC, CHR 0xE3, CHR 0x82, CHR 0xB7, CHR 0xE3, CHR 0x83, CHR 0xA7] @
     [CHR 0xE3, CHR 0x83, CHR 0xB3, CHR 0xE3, CHR 0x83, CHR 0xA2, CHR 0xE3, CHR 0x83, CHR 0x87] @
     [CHR 0xE3, CHR 0x83, CHR 0xAB, CHR 0xE3, CHR 0x82, CHR 0x92, CHR 0xE8, CHR 0xA7, CHR 0xA3] @
     [CHR 0xE6, CHR 0xB1, CHR 0xBA, CHR 0xE3, CHR 0x81, CHR 0xA7, CHR 0xE3, CHR 0x81, CHR 0x8D] @
     [CHR 0xE3, CHR 0x81, CHR 0xBE, CHR 0xE3, CHR 0x81, CHR 0x9B, CHR 0xE3, CHR 0x82, CHR 0x93] @
     [CHR 0xE3, CHR 0x81, CHR 0xA7, CHR 0xE3, CHR 0x81, CHR 0x97, CHR 0xE3, CHR 0x81, CHR 0x9F] @
     [CHR 0xE3, CHR 0x80, CHR 0x82, CHR 0xE6, CHR 0x8C, CHR 0x87, CHR 0xE5, CHR 0xAE, CHR 0x9A] @
     [CHR 0xE3, CHR 0x81, CHR 0x95, CHR 0xE3, CHR 0x82, CHR 0x8C, CHR 0xE3, CHR 0x81, CHR 0x9F] @
     [CHR 0xE3, CHR 0x83, CHR 0xA2, CHR 0xE3, CHR 0x83, CHR 0x87, CHR 0xE3, CHR 0x83, CHR 0xAB] @
     [CHR 0xE3, CHR 0x81, CHR 0x8C, CHR 0xE5, CHR 0xAD, CHR 0x98, CHR 0xE5, CHR 0x9C, CHR 0xA8] @
     [CHR 0xE3, CHR 0x81, CHR 0x97, CHR 0xE3, CHR 0x80, CHR 0x81, CHR 0xE6, CHR 0x8C, CHR 0x87] @
     [CHR 0xE5, CHR 0xAE, CHR 0x9A, CHR 0xE3, CHR 0x81, CHR 0x95, CHR 0xE3, CHR 0x82, CHR 0x8C] @
     [CHR 0xE3, CHR 0x81, CHR 0x9F, CHR 0xE3, CHR 0x83, CHR 0xAA, CHR 0xE3, CHR 0x83, CHR 0xBC] @
     [CHR 0xE3, CHR 0x82, CHR 0xB8, CHR 0xE3, CHR 0x83, CHR 0xA7, CHR 0xE3, CHR 0x83, CHR 0xB3] @
     [CHR 0xE3, CHR 0x81, CHR 0xA7, CHR 0xE3, CHR 0x82, CHR 0xA2, CHR 0xE3, CHR 0x82, CHR 0xAF] @
     [CHR 0xE3, CHR 0x82, CHR 0xBB, CHR 0xE3, CHR 0x82, CHR 0xB9, CHR 0xE5, CHR 0x8F, CHR 0xAF] @
     [CHR 0xE8, CHR 0x83, CHR 0xBD, CHR 0xE3, CHR 0x81, CHR 0xA7, CHR 0xE3, CHR 0x81, CHR 0x82] @
     [CHR 0xE3, CHR 0x82, CHR 0x8B, CHR 0xE3, CHR 0x81, CHR 0x93, CHR 0xE3, CHR 0x81, CHR 0xA8] @
     [CHR 0xE3, CHR 0x82, CHR 0x92, CHR 0xE7, CHR 0xA2, CHR 0xBA, CHR 0xE8, CHR 0xAA, CHR 0x8D] @
     [CHR 0xE3, CHR 0x81, CHR 0x97, CHR 0xE3, CHR 0x81, CHR 0xA6, CHR 0xE3, CHR 0x81, CHR 0x8F] @
     [CHR 0xE3, CHR 0x81, CHR 0xA0, CHR 0xE3, CHR 0x81, CHR 0x95, CHR 0xE3, CHR 0x81, CHR 0x84] @
     [CHR 0x0A]"

definition format_generic :: string where
  "format_generic =
     [CHR 0xE3, CHR 0x82, CHR 0xA8, CHR 0xE3, CHR 0x83, CHR 0xA9, CHR 0xE3, CHR 0x83, CHR 0xBC] @
     '': Anthropic Claude'' @
     [CHR 0xE3, CHR 0x81, CHR 0xAE, CHR 0xE5, CHR 0x91, CHR 0xBC, CHR 0xE3, CHR 0x81, CHR 0xB3] @
     [CHR 0xE5, CHR 0x87, CHR 0xBA, CHR 0xE3, CHR 0x81, CHR 0x97, CHR 0xE3, CHR 0x81, CHR 0xAB] @
     [CHR 0xE5, CHR 0xA4, CHR 0xB1, CHR 0xE6, CHR 0x95, CHR 0x97, CHR 0xE3, CHR 0x81, CHR 0x97] @
     [CHR 0xE3, CHR 0x81, CHR 0xBE, CHR 0xE3, CHR 0x81, CHR 0x97, CHR 0xE3, CHR 0x81, CHR 0x9F] @
     '': %v'' @
     [CHR 0x0A]"

definition handleInvokeError :: "error \<Rightarrow> string \<Rightarrow> process \<Rightarrow> process" where
  "handleInvokeError err modelID p =
     (let errMsg = Error err in
      if Contains errMsg ''no such host'' then Printf format_region [] p
      else if Contains errMsg ''Could not resolve the foundation model'' then
        Printf format_model [modelID] p
      else Printf format_generic [Error err] p)"

section \<open>Package unicode/utf8\<close>

text \<open>
  Bytes and runes are read as integers; every value computed below lies between 0 and
  \<^verbatim>\<open>0x10FFFF\<close>, so the 32-bit width of a Go rune never matters.
\<close>

type_synonym rune = int

abbreviation byte :: "char \<Rightarrow> int" where
  "byte \<equiv> of_char"

definition RuneError :: rune where "RuneError = 0xFFFD"
definition RuneSelf :: int where "RuneSelf = 0x80"
definition MaxRune :: rune where "MaxRune = 0x10FFFF"
definition UTFMax :: nat where "UTFMax = 4"

definition locb :: int where "locb = 0x80"
definition hicb :: int where "hicb = 0xBF"
definition maskx :: int where "maskx = 0x3F"
definition mask2 :: int where "mask2 = 0x1F"
definition mask3 :: int where "mask3 = 0x0F"
definition mask4 :: int where "mask4 = 0x07"

text \<open>
  The table \<^verbatim>\<open>first\<close>: information about the first byte of an encoding. \<^verbatim>\<open>0xF0\<close> marks
  an ASCII byte, \<^verbatim>\<open>0xF1\<close> an invalid one; otherwise the low three bits are the size of
  the encoding and the high four bits index \<^verbatim>\<open>acceptRanges\<close>, the range the second
  byte must lie in.
\<close>

definition first :: "int \<Rightarrow> int" where
  "first b =
     (if b < 0x80 then 0xF0
      else if b < 0xC2 then 0xF1
      else if b < 0xE0 then 0x02
      else if b = 0xE0 then 0x13
      else if b < 0xED then 0x03
      else if b = 0xED then 0x23
      else if b < 0xF0 then 0x03
      else if b = 0xF0 then 0x34
      else if b < 0xF4 then 0x04
      else if b = 0xF4 then 0x44
      else 0xF1)"

definition acceptRanges :: "int \<Rightarrow> int \<times> int" where
  "acceptRanges i =
     (if i = 0 then (locb, hicb)
      else if i = 1 then (0xA0, hicb)
      else if i = 2 then (locb, 0x9F)
      else if i = 3 then (0x90, hicb)
      else if i = 4 then (locb, 0x8F)
      else (0, 0))"

text \<open>
  \<^verbatim>\<open>utf8.DecodeRuneInString\<close>: the first rune of \<^verbatim>\<open>s\<close> and its width in bytes;
  \<^verbatim>\<open>(RuneError, 0)\<close> for the empty string, \<^verbatim>\<open>(RuneError, 1)\<close> for an invalid
  encoding. (For a first byte that is ASCII or invalid the source selects between the
  byte and \<^verbatim>\<open>RuneError\<close> with a mask computed from the table entry; that is the
  conditional written here.)
\<close>

definition DecodeRuneInString :: "string \<Rightarrow> rune \<times> nat" where
  "DecodeRuneInString s =
     (let n = length s in
      if n < 1 then (RuneError, 0)
      else
        let s0 = byte (s ! 0); x = first s0 in
        if x \<ge> 0xF0 then (if x = 0xF1 then RuneError else s0, 1)
        else
          let sz = nat (x AND 7); accept = acceptRanges (drop_bit 4 x) in
          if n < sz then (RuneError, 1)
          else
            let s1 = byte (s ! 1) in
            if s1 < fst accept \<or> snd accept < s1 then (RuneError, 1)
            else if sz \<le> 2 then (push_bit 6 (s0 AND mask2) OR (s1 AND maskx), 2)
            else
              let s2 = byte (s ! 2) in
              if s2 < locb \<or> hicb < s2 then (RuneError, 1)
              else if sz \<le> 3 then
                (push_bit 12 (s0 AND mask3) OR push_bit 6 (s1 AND maskx) OR (s2 AND maskx), 3)
              else
                let s3 = byte (s ! 3) in
                if s3 < locb \<or> hicb < s3 then (RuneError, 1)
                else
                  (push_bit 18 (s0 AND mask4) OR push_bit 12 (s1 AND maskx) OR
                   push_bit 6 (s2 AND maskx) OR (s3 AND maskx), 4))"

section \<open>Package strconv\<close>

text \<open>
  \<^verbatim>\<open>strconv.FormatInt(i, 10)\<close> for a 64-bit \<^verbatim>\<open>int\<close>: the decimal digits of the
  magnitude, most significant first, after a minus sign when \<^verbatim>\<open>i\<close> is negative.
\<close>

definition digits :: string where
  "digits = ''0123456789abcdefghijklmnopqrstuvwxyz''"

function formatBits :: "int \<Rightarrow> string" where
  "formatBits u =
     (if u < 10 then [digits ! nat u] else formatBits (u div 10) @ [digits ! nat (u mod 10)])"
  by pat_completeness auto
termination
  by (relation "measure nat") auto

definition FormatInt :: "64 word \<Rightarrow> string" where
  "FormatInt i = (if sint i < 0 then CHR ''-'' # formatBits (- sint i) else formatBits (sint i))"

section \<open>Package encoding/json: Marshal\<close>

text \<open>
  \<^verbatim>\<open>json.Marshal\<close> walks its argument by reflection. The Go values it can meet are
  represented by \<^typ>\<open>'a slice\<close>-shaped trees: booleans, integers, strings, slices, structs
  (the fields in declaration order, each under the name its \<^verbatim>\<open>json\<close> tag gives), and
  values of a type that \<^verbatim>\<open>encoding/json\<close> does not support (channels, functions, complex
  numbers), for which the encoder fails with an \<^verbatim>\<open>UnsupportedTypeError\<close>.
\<close>

datatype go_value =
    VBool bool
  | VInt "64 word"
  | VString string
  | VSlice "go_value slice"
  | VStruct "(string \<times> go_value) list"
  | VUnsupported string

text \<open>
  \<^verbatim>\<open>htmlSafeSet\<close>: the ASCII bytes that \<^verbatim>\<open>Marshal\<close> copies into a JSON string unchanged:
  all from space to DEL except the double quote, the backslash and the characters
  \<^verbatim>\<open>&\<close>, \<^verbatim>\<open><\<close> and \<^verbatim>\<open>>\<close>.
\<close>

definition htmlSafeSet :: "int \<Rightarrow> bool" where
  "htmlSafeSet b \<longleftrightarrow>
     0x20 \<le> b \<and> b < 0x80 \<and> b \<noteq> 0x22 \<and> b \<noteq> 0x26 \<and> b \<noteq> 0x3C \<and> b \<noteq> 0x3E \<and> b \<noteq> 0x5C"

definition hex :: string where
  "hex = ''0123456789abcdef''"

text \<open>
  The escape written for an ASCII byte outside \<^verbatim>\<open>htmlSafeSet\<close>. (Releases before Go 1.22
  write \<^verbatim>\<open>\u0008\<close> and \<^verbatim>\<open>\u000c\<close> for backspace and form feed.)
\<close>

definition escapeByte :: "char \<Rightarrow> string" where
  "escapeByte c =
     (let b = byte c in
      if b = 0x5C \<or> b = 0x22 then [CHR 0x5C, c]
      else if b = 0x08 then [CHR 0x5C, CHR ''b'']
      else if b = 0x0C then [CHR 0x5C, CHR ''f'']
      else if b = 0x0A then [CHR 0x5C, CHR ''n'']
      else if b = 0x0D then [CHR 0x5C, CHR ''r'']
      else if b = 0x09 then [CHR 0x5C, CHR ''t'']
      else [CHR 0x5C, CHR ''u'', CHR ''0'', CHR ''0'',
            hex ! nat (drop_bit 4 b), hex ! nat (b AND 0xF)])"

text \<open>
  The loop of \<^verbatim>\<open>appendString\<close>, as the bytes it writes for the rest of the source
  string: a safe ASCII byte is copied, an unsafe one escaped; a byte that starts no
  valid UTF-8 encoding is replaced by the escape of U+FFFD; the separators U+2028 and U+2029
  are escaped; every other rune is copied.
\<close>

lemma DecodeRuneInString_size:
  "snd (DecodeRuneInString s) \<le> 4"
  by (simp add: DecodeRuneInString_def Let_def)

lemma DecodeRuneInString_Cons:
  "0 < snd (DecodeRuneInString (c # s))"
  by (simp add: DecodeRuneInString_def Let_def)

lemma DecodeRuneInString_shorter:
  "length (drop (snd (DecodeRuneInString (take (min (length (c # s)) UTFMax) (c # s)))) (c # s))
     < length (c # s)"
proof -
  have "0 < snd (DecodeRuneInString (c # take (min (length s) 3) s))"
    by (rule DecodeRuneInString_Cons)
  then show ?thesis
    by (simp add: UTFMax_def)
qed

function appendStringLoop :: "string \<Rightarrow> string" where
  "appendStringLoop [] = []"
| "appendStringLoop (c # s) =
     (if byte c < RuneSelf then
        (if htmlSafeSet (byte c) then c # appendStringLoop s
         else escapeByte c @ appendStringLoop s)
      else
        let n = min (length (c # s)) UTFMax;
            d = DecodeRuneInString (take n (c # s));
            r = fst d; size' = snd d
        in
          if r = RuneError \<and> size' = 1 then
            CHR 0x5C # ''ufffd'' @ appendStringLoop (drop size' (c # s))
          else if r = 0x2028 \<or> r = 0x2029 then
            CHR 0x5C # ''u202'' @ [hex ! nat (r AND 0xF)] @ appendStringLoop (drop size' (c # s))
          else take size' (c # s) @ appendStringLoop (drop size' (c # s)))"
  by pat_completeness auto
termination
proof (relation "measure length", goal_cases)
  case (4 c s x d r k)
  then have "k = 1"
    by blast
  then show ?case
    by simp
next
  case (5 c s x d r k)
  then show ?case
    by (simp only: in_measure DecodeRuneInString_shorter)
next
  case (6 c s x d r k)
  then show ?case
    by (simp only: in_measure DecodeRuneInString_shorter)
qed simp_all

definition appendString :: "string \<Rightarrow> string" where
  "appendString src = CHR 0x22 # appendStringLoop src @ [CHR 0x22]"

text \<open>
  The encoders, one per kind of value. A struct is written as its fields in order,
  \<^verbatim>\<open>"name":value\<close> separated by commas (a field name is written quoted and
  HTML-escaped, which for the names of this program leaves it as it is); a slice as
  \<^verbatim>\<open>null\<close> when it is \<^verbatim>\<open>nil\<close> and as its elements between brackets otherwise. The first
  error ends the encoding. (None of the values here can be cyclic, so the cycle check
  of the slice encoder never fires.)
\<close>

fun valueEncoder :: "go_value \<Rightarrow> error + string"
  and arrayEncoder :: "go_value list \<Rightarrow> error + string"
  and structEncoder :: "(string \<times> go_value) list \<Rightarrow> error + string"
where
  "valueEncoder (VBool b) = Inr (if b then ''true'' else ''false'')"
| "valueEncoder (VInt i) = Inr (FormatInt i)"
| "valueEncoder (VString s) = Inr (appendString s)"
| "valueEncoder (VSlice nil) = Inr ''null''"
| "valueEncoder (VSlice (Slice vs)) =
     (case arrayEncoder vs of
        Inl err \<Rightarrow> Inl err
      | Inr b \<Rightarrow> Inr (''['' @ b @ '']''))"
| "valueEncoder (VStruct fs) =
     (case structEncoder fs of
        Inl err \<Rightarrow> Inl err
      | Inr b \<Rightarrow> Inr (''{'' @ b @ ''}''))"
| "valueEncoder (VUnsupported t) = Inl (Err (''json: unsupported type: '' @ t))"
| "arrayEncoder [] = Inr []"
| "arrayEncoder (v # vs) =
     (case valueEncoder v of
        Inl err \<Rightarrow> Inl err
      | Inr b \<Rightarrow>
          if vs = [] then Inr b
          else case arrayEncoder vs of
                 Inl err \<Rightarrow> Inl err
               | Inr bs \<Rightarrow> Inr (b @ '','' @ bs))"
| "structEncoder [] = Inr []"
| "structEncoder (f # fs) =
     (case valueEncoder (snd f) of
        Inl err \<Rightarrow> Inl err
      | Inr b \<Rightarrow>
          if fs = [] then Inr (appendString (fst f) @ '':'' @ b)
          else case structEncoder fs of
                 Inl err \<Rightarrow> Inl err
               | Inr bs \<Rightarrow> Inr (appendString (fst f) @ '':'' @ b @ '','' @ bs))"

definition Marshal :: "go_value \<Rightarrow> error + string" where
  "Marshal v = valueEncoder v"

section \<open>The request and response types\<close>

record ClaudeTextContent =
  Type :: string
  Text :: string

record ClaudeRequestMessage =
  Role :: string
  Content :: "ClaudeTextContent slice"

record ClaudeRequest =
  AnthropicVersion :: string
  MaxTokens :: "64 word"
  System :: string
  Messages :: "ClaudeRequestMessage slice"

record ClaudeUsage =
  InputTokens :: "64 word"
  OutputTokens :: "64 word"

record ClaudeResponse =
  ID :: string
  Type :: string
  Role :: string
  Content :: "ClaudeTextContent slice"
  StopReason :: string
  StopSequence :: string
  Usage :: ClaudeUsage

text \<open>
  What reflection shows \<^verbatim>\<open>json.Marshal\<close> of a request: the fields under the names of
  their \<^verbatim>\<open>json\<close> tags. (\<^verbatim>\<open>int\<close> is taken to be 64 bits wide, as on the platforms the
  AWS SDK is built for.)
\<close>

definition ValueOf_ClaudeTextContent :: "ClaudeTextContent \<Rightarrow> go_value" where
  "ValueOf_ClaudeTextContent c =
     VStruct [(''type'', VString (ClaudeTextContent.Type c)), (''text'', VString (Text c))]"

definition ValueOf_ClaudeRequestMessage :: "ClaudeRequestMessage \<Rightarrow> go_value" where
  "ValueOf_ClaudeRequestMessage m =
     VStruct [(''role'', VString (ClaudeRequestMessage.Role m)),
              (''content'',
               VSlice (map_slice ValueOf_ClaudeTextContent (ClaudeRequestMessage.Content m)))]"

definition ValueOf_ClaudeRequest :: "ClaudeRequest \<Rightarrow> go_value" where
  "ValueOf_ClaudeRequest r =
     VStruct [(''anthropic_version'', VString (AnthropicVersion r)),
              (''max_tokens'', VInt (MaxTokens r)),
              (''system'', VString (System r)),
              (''messages'', VSlice (map_slice ValueOf_ClaudeRequestMessage (Messages r)))]"

section \<open>Package log\<close>

text \<open>
  \<^verbatim>\<open>log.Fatalf\<close> formats its message, writes it to standard error after the logger's
  header (date and time, taken from the environment), adds a newline unless the message
  ends with one, and exits with status 1.
\<close>

datatype status = Exit int | Panic runtime_error

fun exit_code :: "status \<Rightarrow> int" where
  "exit_code (Exit n) = n"
| "exit_code (Panic _) = 2"

record outcome =
  final :: process
  status :: status

definition Output :: "string \<Rightarrow> string \<Rightarrow> process \<Rightarrow> process" where
  "Output header s p =
     p\<lparr>stderr := stderr p @ header @ s @
                 (if s = [] \<or> last s \<noteq> CHR 0x0A then [CHR 0x0A] else [])\<rparr>"

definition Fatalf :: "string \<Rightarrow> string \<Rightarrow> string list \<Rightarrow> process \<Rightarrow> outcome" where
  "Fatalf header format args p =
     (case Sprintf format args of
        None \<Rightarrow> \<lparr>final = p, status = Exit 1\<rparr>
      | Some s \<Rightarrow> \<lparr>final = Output header s p, status = Exit 1\<rparr>)"

section \<open>Package runtime: a panic that nothing recovers\<close>

text \<open>
  The message of the run-time error that an index expression out of range raises, and
  what the runtime does with a panic that is not recovered: it writes \<^verbatim>\<open>panic: \<close>, the
  message and a newline to standard error, then the goroutine trace, and ends the process
  with status 2. The trace (an empty line, the header of the goroutine and its frames,
  with the file paths and program counters of the build) is taken from the environment.
\<close>

fun RuntimeError :: "runtime_error \<Rightarrow> string" where
  "RuntimeError (IndexOutOfRange i n) =
     ''runtime error: index out of range ['' @
     (if i < 0 then CHR ''-'' # formatBits (- i) @ '']''
      else formatBits i @ ''] with length '' @ formatBits (int n))"

definition gopanic :: "string \<Rightarrow> runtime_error \<Rightarrow> process \<Rightarrow> outcome" where
  "gopanic trace err p =
     \<lparr>final = p\<lparr>stderr := stderr p @ ''panic: '' @ RuntimeError err @ [CHR 0x0A] @ trace\<rparr>,
      status = Panic err\<rparr>"

section \<open>The program\<close>

text \<open>
  What \<^verbatim>\<open>main\<close> gets from outside: the SDK's configuration loader and the remote call,
  the decoder \<^verbatim>\<open>json.Unmarshal\<close> applied to a zero \<^verbatim>\<open>ClaudeResponse\<close> (whatever it
  returns, \<^verbatim>\<open>main\<close> only looks at the error and at the decoded value), the clock
  reading that the logger prints, and the goroutine trace that the runtime prints when
  \<^verbatim>\<open>main\<close> panics.
\<close>

record Config =
  Region :: string

record InvokeModelInput =
  ModelId :: string
  ContentType :: string
  Body :: string

record InvokeModelOutput =
  Body :: string

record env =
  LoadDefaultConfig :: "string \<Rightarrow> error + Config"
  InvokeModel :: "Config \<Rightarrow> InvokeModelInput \<Rightarrow> error + InvokeModelOutput"
  Unmarshal :: "string \<Rightarrow> error + ClaudeResponse"
  log_header :: string
  traceback :: string

definition region :: string where
  "region = ''us-east-1''"

definition modelID :: string where
  "modelID = ''anthropic.claude-3-5-sonnet-20240620-v1:0''"

text \<open>The request built at lines 68 to 83.\<close>

definition request :: ClaudeRequest where
  "request =
     \<lparr>AnthropicVersion = ''bedrock-2023-05-31'',
      MaxTokens = 1024,
      System =
     [CHR 0xE5, CHR 0xB9, CHR 0xBC, CHR 0xE7, CHR 0xA8, CHR 0x9A, CHR 0xE5, CHR 0x9C, CHR 0x92] @
     [CHR 0xE5, CHR 0x85, CHR 0x90, CHR 0xE3, CHR 0x82, CHR 0x92, CHR 0xE6, CHR 0xBC, CHR 0x94] @
     [CHR 0xE3, CHR 0x81, CHR 0x98, CHR 0xE3, CHR 0x81, CHR 0xA6, CHR 0xE3, CHR 0x81, CHR 0x8F] @
     [CHR 0xE3, CHR 0x81, CHR 0xA0, CHR 0xE3, CHR 0x81, CHR 0x95, CHR 0xE3, CHR 0x81, CHR 0x84] @
     [CHR 0xE3, CHR 0x80, CHR 0x82],
      Messages = Slice
        [\<lparr>ClaudeRequestMessage.Role = ''user'',
          ClaudeRequestMessage.Content = Slice
            [\<lparr>ClaudeTextContent.Type = ''text'',
              Text =
     [CHR 0xE3, CHR 0x82, CHR 0xBF, CHR 0xE3, CHR 0x82, CHR 0xA4, CHR 0xE3, CHR 0x81, CHR 0xAE] @
     [CHR 0xE9, CHR 0xA6, CHR 0x96, CHR 0xE9, CHR 0x83, CHR 0xBD, CHR 0xE3, CHR 0x81, CHR 0xAF] @
     [CHR 0xEF, CHR 0xBC, CHR 0x9F]\<rparr>]\<rparr>]\<rparr>"

text \<open>The formats of the three calls of \<^verbatim>\<open>log.Fatalf\<close> (lines 58, 88 and 107).\<close>

definition format_config :: string where
  "format_config =
     ''AWS'' @
     [CHR 0xE3, CHR 0x81, CHR 0xAE, CHR 0xE8, CHR 0xA8, CHR 0xAD, CHR 0xE5, CHR 0xAE, CHR 0x9A] @
     [CHR 0xE8, CHR 0xAA, CHR 0xAD, CHR 0xE3, CHR 0x81, CHR 0xBF, CHR 0xE8, CHR 0xBE, CHR 0xBC] @
     [CHR 0xE3, CHR 0x81, CHR 0xBF, CHR 0xE3, CHR 0x81, CHR 0xAB, CHR 0xE5, CHR 0xA4, CHR 0xB1] @
     [CHR 0xE6, CHR 0x95, CHR 0x97, CHR 0xE3, CHR 0x81, CHR 0x97, CHR 0xE3, CHR 0x81, CHR 0xBE] @
     [CHR 0xE3, CHR 0x81, CHR 0x97, CHR 0xE3, CHR 0x81, CHR 0x9F] @
     '': %v''"

definition format_encode :: string where
  "format_encode =
     [CHR 0xE3, CHR 0x83, CHR 0xAA, CHR 0xE3, CHR 0x82, CHR 0xAF, CHR 0xE3, CHR 0x82, CHR 0xA8] @
     [CHR 0xE3, CHR 0x82, CHR 0xB9, CHR 0xE3, CHR 0x83, CHR 0x88, CHR 0xE3, CHR 0x81, CHR 0xAE] @
     ''JSON'' @
     [CHR 0xE3, CHR 0x82, CHR 0xA8, CHR 0xE3, CHR 0x83, CHR 0xB3, CHR 0xE3, CHR 0x82, CHR 0xB3] @
     [CHR 0xE3, CHR 0x83, CHR 0xBC, CHR 0xE3, CHR 0x83, CHR 0x89, CHR 0xE3, CHR 0x81, CHR 0xAB] @
     [CHR 0xE5, CHR 0xA4, CHR 0xB1, CHR 0xE6, CHR 0x95, CHR 0x97, CHR 0xE3, CHR 0x81, CHR 0x97] @
     [CHR 0xE3, CHR 0x81, CHR 0xBE, CHR 0xE3, CHR 0x81, CHR 0x97, CHR 0xE3, CHR 0x81, CHR 0x9F] @
     '': %v''"

definition format_decode :: string where
  "format_decode =
     [CHR 0xE3, CHR 0x83, CHR 0xAC, CHR 0xE3, CHR 0x82, CHR 0xB9, CHR 0xE3, CHR 0x83, CHR 0x9D] @
     [CHR 0xE3, CHR 0x83, CHR 0xB3, CHR 0xE3, CHR 0x82, CHR 0xB9, CHR 0xE3, CHR 0x81, CHR 0xAE] @
     [CHR 0xE8, CHR 0xA7, CHR 0xA3, CHR 0xE6, CHR 0x9E, CHR 0x90, CHR 0xE3, CHR 0x81, CHR 0xAB] @
     [CHR 0xE5, CHR 0xA4, CHR 0xB1, CHR 0xE6, CHR 0x95, CHR 0x97, CHR 0xE3, CHR 0x81, CHR 0x97] @
     [CHR 0xE3, CHR 0x81, CHR 0xBE, CHR 0xE3, CHR 0x81, CHR 0x97, CHR 0xE3, CHR 0x81, CHR 0x9F] @
     '': %v''"

definition main :: "env \<Rightarrow> outcome" where
  "main e =
     (case LoadDefaultConfig e region of
        Inl err \<Rightarrow> Fatalf (log_header e) format_config [Error err] start
      | Inr cfg \<Rightarrow>
          (case Marshal (ValueOf_ClaudeRequest request) of
             Inl err \<Rightarrow> Fatalf (log_header e) format_encode [Error err] start
           | Inr body \<Rightarrow>
               (case InvokeModel e cfg
                       \<lparr>ModelId = modelID, ContentType = ''application/json'',
                        InvokeModelInput.Body = body\<rparr> of
                  Inl err \<Rightarrow> \<lparr>final = handleInvokeError err modelID start, status = Exit 1\<rparr>
                | Inr result \<Rightarrow>
                    (case Unmarshal e (InvokeModelOutput.Body result) of
                       Inl err \<Rightarrow> Fatalf (log_header e) format_decode [Error err] start
                     | Inr response \<Rightarrow>
                         (case index (ClaudeResponse.Content response) 0 of
                            Inl panic \<Rightarrow> gopanic (traceback e) panic start
                          | Inr c \<Rightarrow>
                              \<lparr>final = Println (Text c) start, status = Exit 0\<rparr>)))))"

definition EncodeRune :: "rune \<Rightarrow> string" where
  "EncodeRune r0 =
     (if 0 \<le> r0 \<and> r0 \<le> 0x7F then [char_of r0]
      else if 0 \<le> r0 \<and> r0 \<le> 0x7FF then
        [char_of (0xC0 OR drop_bit 6 r0), char_of (0x80 OR (r0 AND maskx))]
      else
        let r = (if r0 < 0 \<or> r0 > MaxRune \<or> (0xD800 \<le> r0 \<and> r0 \<le> 0xDFFF) then RuneError else r0) in
        if r \<le> 0xFFFF then
          [char_of (0xE0 OR drop_bit 12 r), char_of (0x80 OR (drop_bit 6 r AND maskx)),
           char_of (0x80 OR (r AND maskx))]
        else
          [char_of (0xF0 OR drop_bit 18 r), char_of (0x80 OR (drop_bit 12 r AND maskx)),
           char_of (0x80 OR (drop_bit 6 r AND maskx)), char_of (0x80 OR (r AND maskx))])"

section \<open>Package unicode/utf16\<close>

definition IsSurrogate :: "rune \<Rightarrow> bool" where
  "IsSurrogate r \<longleftrightarrow> 0xD800 \<le> r \<and> r < 0xE000"

text \<open>\<^verbatim>\<open>utf16.DecodeRune\<close>: the rune of a surrogate pair, U+FFFD when it is not one.\<close>

definition utf16_DecodeRune :: "rune \<Rightarrow> rune \<Rightarrow> rune" where
  "utf16_DecodeRune r1 r2 =
     (if 0xD800 \<le> r1 \<and> r1 < 0xDC00 \<and> 0xDC00 \<le> r2 \<and> r2 < 0xE000
      then (push_bit 10 (r1 - 0xD800) OR (r2 - 0xDC00)) + 0x10000
      else 0xFFFD)"

section \<open>Package strconv: ParseInt\<close>

text \<open>
  \<^verbatim>\<open>strconv.ParseInt(s, 10, 64)\<close>: an optional sign and at least one decimal digit, the
  value within the range of a 64-bit integer; \<^const>\<open>None\<close> is a syntax or range error.
\<close>

definition isDigit :: "char \<Rightarrow> bool" where
  "isDigit c \<longleftrightarrow> 0x30 \<le> byte c \<and> byte c \<le> 0x39"

fun digitsValue :: "int \<Rightarrow> string \<Rightarrow> int option" where
  "digitsValue n [] = Some n"
| "digitsValue n (c # s) =
     (if isDigit c then digitsValue (n * 10 + (byte c - 0x30)) s else None)"

definition ParseUint :: "string \<Rightarrow> int option" where
  "ParseUint s = (if s = [] then None else digitsValue 0 s)"

definition ParseInt :: "string \<Rightarrow> int option" where
  "ParseInt s0 =
     (if s0 = [] then None
      else
        let neg = (hd s0 = CHR ''-'');
            s = (if hd s0 = CHR ''+'' \<or> hd s0 = CHR ''-'' then tl s0 else s0)
        in case ParseUint s of
             None \<Rightarrow> None
           | Some un \<Rightarrow>
               if \<not> neg \<and> un \<ge> 2 ^ 63 then None
               else if neg \<and> un > 2 ^ 63 then None
               else Some (if neg then - un else un))"

section \<open>Package encoding/json: Unmarshal\<close>

subsection \<open>String literals\<close>

text \<open>
  The scanner's view of a string literal, entered after the opening quote: the bytes up
  to the closing quote and the input after it. A control character, an escape other
  than \<^verbatim>\<open>\" \\ \/ \b \f \n \r \t\<close> and \<^verbatim>\<open>\u\<close> with four hexadecimal digits, or the end of
  the input inside the literal is a syntax error.
\<close>

definition hexDigit :: "char \<Rightarrow> int option" where
  "hexDigit c =
     (let b = byte c in
      if 0x30 \<le> b \<and> b \<le> 0x39 then Some (b - 0x30)
      else if 0x61 \<le> b \<and> b \<le> 0x66 then Some (b - 0x61 + 10)
      else if 0x41 \<le> b \<and> b \<le> 0x46 then Some (b - 0x41 + 10)
      else None)"

fun scanString :: "string \<Rightarrow> (string \<times> string) option" where
  "scanString [] = None"
| "scanString (c # s) =
     (if c = CHR 0x22 then Some ([], s)
      else if c = CHR 0x5C then
        (case s of
           [] \<Rightarrow> None
         | e # s' \<Rightarrow>
             if e \<in> set [CHR ''b'', CHR ''f'', CHR ''n'', CHR ''r'', CHR ''t'', CHR 0x5C, CHR ''/'',
                          CHR 0x22]
             then map_option (apfst ((@) [c, e])) (scanString s')
             else if e = CHR ''u'' then
               (case s' of
                  h1 # h2 # h3 # h4 # s'' \<Rightarrow>
                    if hexDigit h1 \<noteq> None \<and> hexDigit h2 \<noteq> None \<and> hexDigit h3 \<noteq> None \<and>
                       hexDigit h4 \<noteq> None
                    then map_option (apfst ((@) [c, e, h1, h2, h3, h4])) (scanString s'')
                    else None
                | _ \<Rightarrow> None)
             else None)
      else if byte c < 0x20 then None
      else map_option (apfst ((#) c)) (scanString s))"

text \<open>
  \<^verbatim>\<open>getu4\<close>: the value of \<^verbatim>\<open>\uXXXX\<close> at the start of \<^verbatim>\<open>s\<close>, or \<^verbatim>\<open>-1\<close>.
\<close>

definition getu4 :: "string \<Rightarrow> rune" where
  "getu4 s =
     (case s of
        b # u # h1 # h2 # h3 # h4 # _ \<Rightarrow>
          if b \<noteq> CHR 0x5C \<or> u \<noteq> CHR ''u'' then - 1
          else (case (hexDigit h1, hexDigit h2, hexDigit h3, hexDigit h4) of
                  (Some x1, Some x2, Some x3, Some x4) \<Rightarrow> ((x1 * 16 + x2) * 16 + x3) * 16 + x4
                | _ \<Rightarrow> - 1)
      | _ \<Rightarrow> - 1)"

text \<open>
  \<^verbatim>\<open>unquoteBytes\<close> first runs over the bytes that need no work (no backslash, quote or
  control character, no invalid UTF-8); \<^const>\<open>None\<close> stands for \<^verbatim>\<open>ok = false\<close>.
\<close>

lemma DecodeRuneInString_consumes:
  "Suc (length s) - snd (DecodeRuneInString (c # s)) < Suc (length s)"
  using DecodeRuneInString_Cons [of c s] by simp

function plainPrefix :: "string \<Rightarrow> nat" where
  "plainPrefix [] = 0"
| "plainPrefix (c # s) =
     (if c = CHR 0x5C \<or> c = CHR 0x22 \<or> byte c < 0x20 then 0
      else if byte c < RuneSelf then Suc (plainPrefix s)
      else
        let d = DecodeRuneInString (c # s) in
        if fst d = RuneError \<and> snd d = 1 then 0
        else snd d + plainPrefix (drop (snd d) (c # s)))"
  by pat_completeness auto
termination
  by (relation "measure length") (auto simp add: DecodeRuneInString_consumes)

text \<open>
  The rest is decoded byte by byte: escapes are replaced by what they stand for,
  \<^verbatim>\<open>\u\<close> escapes (a surrogate pair taken together) by the UTF-8 encoding of their rune,
  and every other rune is decoded and encoded again, which turns invalid UTF-8 into
  U+FFFD.
\<close>

function unquoteLoop :: "string \<Rightarrow> string option" where
  "unquoteLoop [] = Some []"
| "unquoteLoop (c # s) =
     (if c = CHR 0x5C then
        (case s of
           [] \<Rightarrow> None
         | e # s' \<Rightarrow>
             if e = CHR 0x22 \<or> e = CHR 0x5C \<or> e = CHR ''/'' \<or> e = CHR 0x27 then
               map_option ((#) e) (unquoteLoop s')
             else if e = CHR ''b'' then map_option ((#) (CHR 0x08)) (unquoteLoop s')
             else if e = CHR ''f'' then map_option ((#) (CHR 0x0C)) (unquoteLoop s')
             else if e = CHR ''n'' then map_option ((#) (CHR 0x0A)) (unquoteLoop s')
             else if e = CHR ''r'' then map_option ((#) (CHR 0x0D)) (unquoteLoop s')
             else if e = CHR ''t'' then map_option ((#) (CHR 0x09)) (unquoteLoop s')
             else if e = CHR ''u'' then
               (let rr = getu4 (c # s) in
                if rr < 0 then None
                else if IsSurrogate rr then
                  (let dec = utf16_DecodeRune rr (getu4 (drop 6 (c # s))) in
                   if dec \<noteq> 0xFFFD then
                     map_option ((@) (EncodeRune dec)) (unquoteLoop (drop 12 (c # s)))
                   else map_option ((@) (EncodeRune 0xFFFD)) (unquoteLoop (drop 6 (c # s))))
                else map_option ((@) (EncodeRune rr)) (unquoteLoop (drop 6 (c # s))))
             else None)
      else if c = CHR 0x22 \<or> byte c < 0x20 then None
      else if byte c < RuneSelf then map_option ((#) c) (unquoteLoop s)
      else
        let d = DecodeRuneInString (c # s) in
        map_option ((@) (EncodeRune (fst d))) (unquoteLoop (drop (snd d) (c # s))))"
  by pat_completeness auto
termination
  by (relation "measure length") (auto simp add: DecodeRuneInString_consumes)

definition unquoteBytes :: "string \<Rightarrow> string option" where
  "unquoteBytes s0 =
     (if length s0 < 2 \<or> hd s0 \<noteq> CHR 0x22 \<or> last s0 \<noteq> CHR 0x22 then None
      else
        let s = butlast (tl s0); r = plainPrefix s in
        if r = length s then Some s
        else map_option ((@) (take r s)) (unquoteLoop (drop r s)))"

subsection \<open>Numbers and JSON texts\<close>

definition isSpace :: "char \<Rightarrow> bool" where
  "isSpace c \<longleftrightarrow> c = CHR '' '' \<or> c = CHR 0x09 \<or> c = CHR 0x0D \<or> c = CHR 0x0A"

definition skipSpace :: "string \<Rightarrow> string" where
  "skipSpace = dropWhile isSpace"

text \<open>
  A number literal: an optional minus sign, \<^verbatim>\<open>0\<close> or a digit from 1 to 9 followed by
  digits, an optional fraction, an optional exponent. The result is the literal and the
  input after it.
\<close>

definition scanExponent :: "string \<Rightarrow> string \<Rightarrow> (string \<times> string) option" where
  "scanExponent lit s =
     (case s of
        [] \<Rightarrow> Some (lit, s)
      | e # t \<Rightarrow>
          if e = CHR ''e'' \<or> e = CHR ''E'' then
            (let sign = (case t of
                           [] \<Rightarrow> []
                         | g # _ \<Rightarrow> if g = CHR ''+'' \<or> g = CHR ''-'' then [g] else []);
                 t' = drop (length sign) t;
                 ds = takeWhile isDigit t'
             in if ds = [] then None else Some (lit @ e # sign @ ds, dropWhile isDigit t'))
          else Some (lit, s))"

definition scanFraction :: "string \<Rightarrow> string \<Rightarrow> (string \<times> string) option" where
  "scanFraction lit s =
     (case s of
        [] \<Rightarrow> Some (lit, s)
      | p # t \<Rightarrow>
          if p = CHR ''.'' then
            (let ds = takeWhile isDigit t in
             if ds = [] then None else scanExponent (lit @ p # ds) (dropWhile isDigit t))
          else scanExponent lit s)"

definition scanNumber :: "string \<Rightarrow> (string \<times> string) option" where
  "scanNumber s0 =
     (let sign = (case s0 of [] \<Rightarrow> [] | g # _ \<Rightarrow> if g = CHR ''-'' then [g] else []);
          s = drop (length sign) s0
      in case s of
           [] \<Rightarrow> None
         | c # t \<Rightarrow>
             if c = CHR ''0'' then scanFraction (sign @ [c]) t
             else if isDigit c then
               scanFraction (sign @ c # takeWhile isDigit t) (dropWhile isDigit t)
             else None)"

datatype json =
    JNull
  | JBool bool
  | JNumber string
  | JString string
  | JArray "json list"
  | JObject "(string \<times> json) list"

definition maxNestingDepth :: nat where
  "maxNestingDepth = 10000"

definition parseString :: "string \<Rightarrow> (string \<times> string) option" where
  "parseString s =
     (case scanString s of
        None \<Rightarrow> None
      | Some (raw, rest) \<Rightarrow>
          (case unquoteBytes (CHR 0x22 # raw @ [CHR 0x22]) of
             None \<Rightarrow> None
           | Some t \<Rightarrow> Some (t, rest)))"

text \<open>
  The JSON value at the start of the input, and the input after it; \<^const>\<open>None\<close> is a
  syntax error. The first argument bounds the number of calls: every call reads at
  least one byte before the next, so the length of the input is enough. The second
  counts the arrays and objects that are open; the scanner refuses to open more than
  \<^const>\<open>maxNestingDepth\<close>. A number is kept as its literal and a string as its decoded
  bytes.
\<close>

fun parseValue :: "nat \<Rightarrow> nat \<Rightarrow> string \<Rightarrow> (json \<times> string) option"
  and parseElements :: "nat \<Rightarrow> nat \<Rightarrow> string \<Rightarrow> (json list \<times> string) option"
  and parseMembers :: "nat \<Rightarrow> nat \<Rightarrow> string \<Rightarrow> ((string \<times> json) list \<times> string) option"
where
  "parseValue 0 d inp = None"
| "parseValue (Suc n) d inp =
     (case skipSpace inp of
        [] \<Rightarrow> None
      | c # s \<Rightarrow>
          if c = CHR ''{'' then
            (if d \<ge> maxNestingDepth then None
             else case skipSpace s of
                    [] \<Rightarrow> None
                  | c' # s' \<Rightarrow>
                      if c' = CHR ''}'' then Some (JObject [], s')
                      else map_option (apfst JObject) (parseMembers n (Suc d) s))
          else if c = CHR ''['' then
            (if d \<ge> maxNestingDepth then None
             else case skipSpace s of
                    [] \<Rightarrow> None
                  | c' # s' \<Rightarrow>
                      if c' = CHR '']'' then Some (JArray [], s')
                      else map_option (apfst JArray) (parseElements n (Suc d) s))
          else if c = CHR 0x22 then map_option (apfst JString) (parseString s)
          else if c = CHR ''-'' \<or> isDigit c then map_option (apfst JNumber) (scanNumber (c # s))
          else if prefix ''true'' (c # s) then Some (JBool True, drop 4 (c # s))
          else if prefix ''false'' (c # s) then Some (JBool False, drop 5 (c # s))
          else if prefix ''null'' (c # s) then Some (JNull, drop 4 (c # s))
          else None)"
| "parseElements 0 d inp = None"
| "parseElements (Suc n) d inp =
     (case parseValue n d inp of
        None \<Rightarrow> None
      | Some (v, rest) \<Rightarrow>
          (case skipSpace rest of
             [] \<Rightarrow> None
           | c # s \<Rightarrow>
               if c = CHR '','' then map_option (apfst ((#) v)) (parseElements n d s)
               else if c = CHR '']'' then Some ([v], s)
               else None))"
| "parseMembers 0 d inp = None"
| "parseMembers (Suc n) d inp =
     (case skipSpace inp of
        [] \<Rightarrow> None
      | q # s \<Rightarrow>
          if q \<noteq> CHR 0x22 then None
          else case parseString s of
                 None \<Rightarrow> None
               | Some (key, rest) \<Rightarrow>
                   (case skipSpace rest of
                      [] \<Rightarrow> None
                    | c # s' \<Rightarrow>
                        if c \<noteq> CHR '':'' then None
                        else case parseValue n d s' of
                               None \<Rightarrow> None
                             | Some (v, rest') \<Rightarrow>
                                 (case skipSpace rest' of
                                    [] \<Rightarrow> None
                                  | c' # s'' \<Rightarrow>
                                      if c' = CHR '','' then
                                        map_option (apfst ((#) (key, v))) (parseMembers n d s'')
                                      else if c' = CHR ''}'' then Some ([(key, v)], s'')
                                      else None)))"

text \<open>A JSON text is one value with nothing but white space around it.\<close>

definition parse :: "string \<Rightarrow> json option" where
  "parse data =
     (case parseValue (Suc (length data)) 0 data of
        None \<Rightarrow> None
      | Some (v, rest) \<Rightarrow> if skipSpace rest = [] then Some v else None)"

subsection \<open>Storing a JSON value into a Go value\<close>

text \<open>
  \<^verbatim>\<open>Unmarshal\<close> returns a \<^verbatim>\<open>SyntaxError\<close> for a text that is not JSON, and otherwise the
  first \<^verbatim>\<open>UnmarshalTypeError\<close> it met, which names the kind of JSON value that did not
  fit. A JSON \<^verbatim>\<open>null\<close> leaves a string, an integer or a struct as it is and makes a
  slice \<^verbatim>\<open>nil\<close>. An array decoded into a slice that already holds elements reuses them;
  that case does not arise when a text without repeated member names is decoded into a
  zero value, and it is left outside this model (\<open>Unmodelled\<close>).
\<close>

datatype decode_error = SyntaxError | UnmarshalTypeError string | Unmodelled

fun kind :: "json \<Rightarrow> string" where
  "kind JNull = ''null''"
| "kind (JBool b) = ''bool''"
| "kind (JNumber lit) = ''number''"
| "kind (JString s) = ''string''"
| "kind (JArray vs) = ''array''"
| "kind (JObject ms) = ''object''"

fun storeString :: "json \<Rightarrow> string \<Rightarrow> decode_error + string" where
  "storeString (JString s) v = Inr s"
| "storeString JNull v = Inr v"
| "storeString j v = Inl (UnmarshalTypeError (kind j))"

fun storeInt :: "json \<Rightarrow> 64 word \<Rightarrow> decode_error + 64 word" where
  "storeInt (JNumber lit) v =
     (case ParseInt lit of
        None \<Rightarrow> Inl (UnmarshalTypeError (''number '' @ lit))
      | Some n \<Rightarrow> Inr (word_of_int n))"
| "storeInt JNull v = Inr v"
| "storeInt j v = Inl (UnmarshalTypeError (kind j))"

fun storeElements :: "(json \<Rightarrow> 'a \<Rightarrow> decode_error + 'a) \<Rightarrow> 'a \<Rightarrow> json list \<Rightarrow> decode_error + 'a list"
where
  "storeElements elem zero [] = Inr []"
| "storeElements elem zero (j # js) =
     (case elem j zero of
        Inl err \<Rightarrow> Inl err
      | Inr x \<Rightarrow> map_sum id ((#) x) (storeElements elem zero js))"

fun storeSlice ::
  "(json \<Rightarrow> 'a \<Rightarrow> decode_error + 'a) \<Rightarrow> 'a \<Rightarrow> json \<Rightarrow> 'a slice \<Rightarrow> decode_error + 'a slice"
where
  "storeSlice elem zero JNull v = Inr nil"
| "storeSlice elem zero (JArray js) v =
     (if elems v \<noteq> [] then Inl Unmodelled
      else map_sum id Slice (storeElements elem zero js))"
| "storeSlice elem zero j v = Inl (UnmarshalTypeError (kind j))"

text \<open>
  A member of an object selects the field whose name is the key, or else the field
  whose name equals the key up to case. Folding maps the ASCII letters to upper case
  and the two other runes that fold to an ASCII letter, the Kelvin sign and the long s,
  to \<^verbatim>\<open>K\<close> and \<^verbatim>\<open>S\<close>; it leaves every other byte alone, which cannot change whether a
  key matches one of the ASCII names of this program. A key that selects no field is
  skipped.
\<close>

function foldName :: "string \<Rightarrow> string" where
  "foldName [] = []"
| "foldName (c # s) =
     (if prefix [CHR 0xE2, CHR 0x84, CHR 0xAA] (c # s) then CHR ''K'' # foldName (drop 2 s)
      else if prefix [CHR 0xC5, CHR 0xBF] (c # s) then CHR ''S'' # foldName (drop 1 s)
      else if 0x61 \<le> byte c \<and> byte c \<le> 0x7A then char_of (byte c - 0x20) # foldName s
      else c # foldName s)"
  by pat_completeness auto
termination
  by (relation "measure length") auto

type_synonym 'a field = "string \<times> (json \<Rightarrow> 'a \<Rightarrow> decode_error + 'a)"

definition findField :: "'a field list \<Rightarrow> string \<Rightarrow> 'a field option" where
  "findField fs key =
     (case find (\<lambda>f. fst f = key) fs of
        Some f \<Rightarrow> Some f
      | None \<Rightarrow> find (\<lambda>f. foldName (fst f) = foldName key) fs)"

fun storeMembers :: "'a field list \<Rightarrow> (string \<times> json) list \<Rightarrow> 'a \<Rightarrow> decode_error + 'a" where
  "storeMembers fs [] v = Inr v"
| "storeMembers fs (m # ms) v =
     (case findField fs (fst m) of
        None \<Rightarrow> storeMembers fs ms v
      | Some f \<Rightarrow>
          (case snd f (snd m) v of
             Inl err \<Rightarrow> Inl err
           | Inr v' \<Rightarrow> storeMembers fs ms v'))"

fun storeStruct :: "'a field list \<Rightarrow> json \<Rightarrow> 'a \<Rightarrow> decode_error + 'a" where
  "storeStruct fs (JObject ms) v = storeMembers fs ms v"
| "storeStruct fs JNull v = Inr v"
| "storeStruct fs j v = Inl (UnmarshalTypeError (kind j))"

subsection \<open>Decoding a request\<close>

definition zero_ClaudeTextContent :: ClaudeTextContent where
  "zero_ClaudeTextContent = \<lparr>ClaudeTextContent.Type = [], Text = []\<rparr>"

definition zero_ClaudeRequestMessage :: ClaudeRequestMessage where
  "zero_ClaudeRequestMessage =
     \<lparr>ClaudeRequestMessage.Role = [], ClaudeRequestMessage.Content = nil\<rparr>"

definition zero_ClaudeRequest :: ClaudeRequest where
  "zero_ClaudeRequest = \<lparr>AnthropicVersion = [], MaxTokens = 0, System = [], Messages = nil\<rparr>"

definition fields_ClaudeTextContent :: "ClaudeTextContent field list" where
  "fields_ClaudeTextContent =
     [(''type'', \<lambda>j c. map_sum id (\<lambda>s. c\<lparr>ClaudeTextContent.Type := s\<rparr>)
                   (storeString j (ClaudeTextContent.Type c))),
      (''text'', \<lambda>j c. map_sum id (\<lambda>s. c\<lparr>Text := s\<rparr>) (storeString j (Text c)))]"

definition fields_ClaudeRequestMessage :: "ClaudeRequestMessage field list" where
  "fields_ClaudeRequestMessage =
     [(''role'', \<lambda>j m. map_sum id (\<lambda>s. m\<lparr>ClaudeRequestMessage.Role := s\<rparr>)
                   (storeString j (ClaudeRequestMessage.Role m))),
      (''content'', \<lambda>j m. map_sum id (\<lambda>s. m\<lparr>ClaudeRequestMessage.Content := s\<rparr>)
                      (storeSlice (storeStruct fields_ClaudeTextContent) zero_ClaudeTextContent j
                         (ClaudeRequestMessage.Content m)))]"

definition fields_ClaudeRequest :: "ClaudeRequest field list" where
  "fields_ClaudeRequest =
     [(''anthropic_version'', \<lambda>j r. map_sum id (\<lambda>s. r\<lparr>AnthropicVersion := s\<rparr>)
                                (storeString j (AnthropicVersion r))),
      (''max_tokens'', \<lambda>j r. map_sum id (\<lambda>n. r\<lparr>MaxTokens := n\<rparr>) (storeInt j (MaxTokens r))),
      (''system'', \<lambda>j r. map_sum id (\<lambda>s. r\<lparr>System := s\<rparr>) (storeString j (System r))),
      (''messages'', \<lambda>j r. map_sum id (\<lambda>s. r\<lparr>Messages := s\<rparr>)
                       (storeSlice (storeStruct fields_ClaudeRequestMessage)
                          zero_ClaudeRequestMessage j (Messages r)))]"

text \<open>\<^verbatim>\<open>json.Unmarshal(data, &v)\<close> for a zero \<^verbatim>\<open>v\<close> of type \<^verbatim>\<open>ClaudeRequest\<close>.\<close>

definition Unmarshal_ClaudeRequest :: "string \<Rightarrow> decode_error + ClaudeRequest" where
  "Unmarshal_ClaudeRequest data =
     (case parse data of
        None \<Rightarrow> Inl SyntaxError
      | Some j \<Rightarrow> storeStruct fields_ClaudeRequest j zero_ClaudeRequest)"

text \<open>
  \<^verbatim>\<open>utf8.ValidString\<close>: the string consists of valid UTF-8 encodings only, that is,
  decoding never yields \<^verbatim>\<open>(RuneError, 1)\<close>.
\<close>

function ValidString :: "string \<Rightarrow> bool" where
  "ValidString [] \<longleftrightarrow> True"
| "ValidString (c # s) \<longleftrightarrow>
     (let d = DecodeRuneInString (c # s) in
      \<not> (fst d = RuneError \<and> snd d = 1) \<and> ValidString (drop (snd d) (c # s)))"
  by pat_completeness auto
termination
  by (relation "measure length") (auto simp add: DecodeRuneInString_consumes)

section \<open>The JSON text of a request\<close>

text \<open>
  The text that \<^const>\<open>Marshal\<close> produces for a request, written out type by type; it is
  shown below to be what the reflective encoder returns.
\<close>

fun commas :: "string list \<Rightarrow> string" where
  "commas [] = []"
| "commas (b # bs) = (if bs = [] then b else b @ '','' @ commas bs)"

definition json_slice :: "('a \<Rightarrow> string) \<Rightarrow> 'a slice \<Rightarrow> string" where
  "json_slice f s = (case s of nil \<Rightarrow> ''null'' | Slice xs \<Rightarrow> ''['' @ commas (map f xs) @ '']'')"

definition json_ClaudeTextContent :: "ClaudeTextContent \<Rightarrow> string" where
  "json_ClaudeTextContent c =
     ''{'' @ appendString ''type'' @ '':'' @ appendString (ClaudeTextContent.Type c) @ '','' @
     appendString ''text'' @ '':'' @ appendString (Text c) @ ''}''"

definition json_ClaudeRequestMessage :: "ClaudeRequestMessage \<Rightarrow> string" where
  "json_ClaudeRequestMessage m =
     ''{'' @ appendString ''role'' @ '':'' @ appendString (ClaudeRequestMessage.Role m) @ '','' @
     appendString ''content'' @ '':'' @
     json_slice json_ClaudeTextContent (ClaudeRequestMessage.Content m) @ ''}''"

definition json_ClaudeRequest :: "ClaudeRequest \<Rightarrow> string" where
  "json_ClaudeRequest r =
     ''{'' @ appendString ''anthropic_version'' @ '':'' @ appendString (AnthropicVersion r) @ '','' @
     appendString ''max_tokens'' @ '':'' @ FormatInt (MaxTokens r) @ '','' @
     appendString ''system'' @ '':'' @ appendString (System r) @ '','' @
     appendString ''messages'' @ '':'' @ json_slice json_ClaudeRequestMessage (Messages r) @ ''}''"

section \<open>Stand-ins for the outside world\<close>

text \<open>
  An environment whose configuration loader succeeds, whose remote call returns \<open>r\<close> and
  whose decoder returns \<open>u\<close>; one whose configuration loader fails; and a response
  around a given content list. The goroutine trace is that of a build in \<^verbatim>\<open>/app\<close>.
\<close>

definition sample_trace :: string where
  "sample_trace =
     [CHR 0x0A] @ ''goroutine 1 [running]:'' @ [CHR 0x0A] @ ''main.main()'' @ [CHR 0x0A, CHR 0x09] @
     ''/app/main.go:111 +0x4b4'' @ [CHR 0x0A]"

definition mock_env :: "error + InvokeModelOutput \<Rightarrow> error + ClaudeResponse \<Rightarrow> env" where
  "mock_env r u =
     \<lparr>LoadDefaultConfig = (\<lambda>region. Inr \<lparr>Region = region\<rparr>),
      InvokeModel = (\<lambda>cfg input. r),
      Unmarshal = (\<lambda>body. u),
      log_header = ''2024/06/21 09:00:00 '',
      traceback = sample_trace\<rparr>"

definition no_config_env :: env where
  "no_config_env =
     \<lparr>LoadDefaultConfig = (\<lambda>region. Inl (Err ''failed to load shared config file'')),
      InvokeModel = (\<lambda>cfg input. Inl (Err ''unreachable'')),
      Unmarshal = (\<lambda>body. Inl (Err ''unreachable'')),
      log_header = ''2024/06/21 09:00:00 '',
      traceback = sample_trace\<rparr>"

text \<open>
  The bytes of the request as the program sends them, and a remote service that answers
  with \<open>r\<close> when it is called in region \<^verbatim>\<open>us-east-1\<close> for the model of line 65 with exactly
  these bytes as an \<^verbatim>\<open>application/json\<close> body, and refuses every other call.
\<close>

definition wire_body :: string where
  "wire_body =
     ''{'' @
     [CHR 0x22] @
     ''anthropic_version'' @
     [CHR 0x22] @
     '':'' @
     [CHR 0x22] @
     ''bedrock-2023-05-31'' @
     [CHR 0x22] @
     '','' @
     [CHR 0x22] @
     ''max_tokens'' @
     [CHR 0x22] @
     '':1024,'' @
     [CHR 0x22] @
     ''system'' @
     [CHR 0x22] @
     '':'' @
     [CHR 0x22, CHR 0xE5, CHR 0xB9, CHR 0xBC, CHR 0xE7, CHR 0xA8, CHR 0x9A, CHR 0xE5, CHR 0x9C] @
     [CHR 0x92, CHR 0xE5, CHR 0x85, CHR 0x90, CHR 0xE3, CHR 0x82, CHR 0x92, CHR 0xE6, CHR 0xBC] @
     [CHR 0x94, CHR 0xE3, CHR 0x81, CHR 0x98, CHR 0xE3, CHR 0x81, CHR 0xA6, CHR 0xE3, CHR 0x81] @
     [CHR 0x8F, CHR 0xE3, CHR 0x81, CHR 0xA0, CHR 0xE3, CHR 0x81, CHR 0x95, CHR 0xE3, CHR 0x81] @
     [CHR 0x84, CHR 0xE3, CHR 0x80, CHR 0x82, CHR 0x22] @
     '','' @
     [CHR 0x22] @
     ''messages'' @
     [CHR 0x22] @
     '':[{'' @
     [CHR 0x22] @
     ''role'' @
     [CHR 0x22] @
     '':'' @
     [CHR 0x22] @
     ''user'' @
     [CHR 0x22] @
     '','' @
     [CHR 0x22] @
     ''content'' @
     [CHR 0x22] @
     '':[{'' @
     [CHR 0x22] @
     ''type'' @
     [CHR 0x22] @
     '':'' @
     [CHR 0x22] @
     ''text'' @
     [CHR 0x22] @
     '','' @
     [CHR 0x22] @
     ''text'' @
     [CHR 0x22] @
     '':'' @
     [CHR 0x22, CHR 0xE3, CHR 0x82, CHR 0xBF, CHR 0xE3, CHR 0x82, CHR 0xA4, CHR 0xE3, CHR 0x81] @
     [CHR 0xAE, CHR 0xE9, CHR 0xA6, CHR 0x96, CHR 0xE9, CHR 0x83, CHR 0xBD, CHR 0xE3, CHR 0x81] @
     [CHR 0xAF, CHR 0xEF, CHR 0xBC, CHR 0x9F, CHR 0x22] @
     ''}]}]}''"

definition keyed_env :: "InvokeModelOutput \<Rightarrow> error + ClaudeResponse \<Rightarrow> env" where
  "keyed_env r u =
     \<lparr>LoadDefaultConfig = (\<lambda>region. Inr \<lparr>Region = region\<rparr>),
      InvokeModel = (\<lambda>cfg input.
        if Region cfg = ''us-east-1'' \<and>
           ModelId input = ''anthropic.claude-3-5-sonnet-20240620-v1:0'' \<and>
           ContentType input = ''application/json'' \<and>
           InvokeModelInput.Body input = wire_body
        then Inr r else Inl (Err ''ValidationException: Malformed input request'')),
      Unmarshal = (\<lambda>body. u),
      log_header = ''2024/06/21 09:00:00 '',
      traceback = sample_trace\<rparr>"

definition message_response :: "ClaudeTextContent slice \<Rightarrow> ClaudeResponse" where
  "message_response content =
     \<lparr>ID = ''msg_01'', ClaudeResponse.Type = ''message'', ClaudeResponse.Role = ''assistant'',
      ClaudeResponse.Content = content, StopReason = ''end_turn'', StopSequence = [],
      Usage = \<lparr>InputTokens = 25, OutputTokens = 7\<rparr>\<rparr>"

definition text_block :: "string \<Rightarrow> ClaudeTextContent" where
  "text_block t = \<lparr>ClaudeTextContent.Type = ''text'', Text = t\<rparr>"

definition reply :: InvokeModelOutput where
  "reply = \<lparr>InvokeModelOutput.Body = ''{}''\<rparr>"

section \<open>The JSON value of a request\<close>

text \<open>
  The JSON value that the text of a request denotes, written out type by type: a \<^verbatim>\<open>nil\<close>
  slice is \<^verbatim>\<open>null\<close>, any other slice an array, a struct an object with its members in the
  order of the fields.
\<close>

fun tree_slice :: "('a \<Rightarrow> json) \<Rightarrow> 'a slice \<Rightarrow> json" where
  "tree_slice g nil = JNull"
| "tree_slice g (Slice xs) = JArray (map g xs)"

definition tree_ClaudeTextContent :: "ClaudeTextContent \<Rightarrow> json" where
  "tree_ClaudeTextContent c =
     JObject [(''type'', JString (ClaudeTextContent.Type c)), (''text'', JString (Text c))]"

definition tree_ClaudeRequestMessage :: "ClaudeRequestMessage \<Rightarrow> json" where
  "tree_ClaudeRequestMessage m =
     JObject [(''role'', JString (ClaudeRequestMessage.Role m)),
              (''content'', tree_slice tree_ClaudeTextContent (ClaudeRequestMessage.Content m))]"

definition tree_ClaudeRequest :: "ClaudeRequest \<Rightarrow> json" where
  "tree_ClaudeRequest r =
     JObject [(''anthropic_version'', JString (AnthropicVersion r)),
              (''max_tokens'', JNumber (FormatInt (MaxTokens r))),
              (''system'', JString (System r)),
              (''messages'', tree_slice tree_ClaudeRequestMessage (Messages r))]"

text \<open>
  A Go string is any sequence of bytes. A request is called valid here when every string
  in it is valid UTF-8.
\<close>

definition valid_ClaudeTextContent :: "ClaudeTextContent \<Rightarrow> bool" where
  "valid_ClaudeTextContent c \<longleftrightarrow> ValidString (ClaudeTextContent.Type c) \<and> ValidString (Text c)"

definition valid_ClaudeRequestMessage :: "ClaudeRequestMessage \<Rightarrow> bool" where
  "valid_ClaudeRequestMessage m \<longleftrightarrow>
     ValidString (ClaudeRequestMessage.Role m) \<and>
     list_all valid_ClaudeTextContent (elems (ClaudeRequestMessage.Content m))"

definition valid_ClaudeRequest :: "ClaudeRequest \<Rightarrow> bool" where
  "valid_ClaudeRequest r \<longleftrightarrow>
     ValidString (AnthropicVersion r) \<and> ValidString (System r) \<and>
     list_all valid_ClaudeRequestMessage (elems (Messages r))"

text \<open>
  A request whose system prompt is the single byte \<^verbatim>\<open>0xFF\<close>, which is not valid UTF-8.
\<close>

definition invalid_request :: ClaudeRequest where
  "invalid_request =
     \<lparr>AnthropicVersion = ''bedrock-2023-05-31'', MaxTokens = 1024, System = [CHR 0xFF],
      Messages = nil\<rparr>"

section \<open>Facts about the library models\<close>

lemma IndexFrom_found: "IndexFrom i s substr \<ge> 0 \<longleftrightarrow> sublist substr s"
proof (induction s arbitrary: i)
  case Nil
  then show ?case by simp
next
  case (Cons c s)
  then show ?case
    by (simp add: sublist_Cons_right)
qed

lemma Contains_iff_sublist: "Contains s substr \<longleftrightarrow> sublist substr s"
  by (simp add: Contains_def Index_def IndexFrom_found)

lemma Sprintf_region: "Sprintf format_region [] = Some format_region"
  by (simp add: format_region_def)

lemma Sprintf_model:
  "Sprintf format_model [m] = Some (take 31 format_model @ m @ drop 33 format_model)"
  by (simp add: format_model_def)

lemma Sprintf_generic:
  "Sprintf format_generic [m] = Some (take 65 format_generic @ m @ [CHR 0x0A])"
  by (simp add: format_generic_def)

lemma Sprintf_config: "Sprintf format_config [m] = Some (take 47 format_config @ m)"
  by (simp add: format_config_def)

lemma Sprintf_encode: "Sprintf format_encode [m] = Some (take 60 format_encode @ m)"
  by (simp add: format_encode_def)

lemma Sprintf_decode: "Sprintf format_decode [m] = Some (take 47 format_decode @ m)"
  by (simp add: format_decode_def)

lemmas Sprintf_formats =
  Sprintf_region Sprintf_model Sprintf_generic Sprintf_config Sprintf_encode Sprintf_decode

lemma arrayEncoder_map:
  assumes "\<And>x. x \<in> set xs \<Longrightarrow> valueEncoder (f x) = Inr (g x)"
  shows "arrayEncoder (map f xs) = Inr (commas (map g xs))"
  using assms by (induction xs) simp_all

lemma valueEncoder_slice:
  assumes "\<And>x. x \<in> set (elems s) \<Longrightarrow> valueEncoder (f x) = Inr (g x)"
  shows "valueEncoder (VSlice (map_slice f s)) = Inr (json_slice g s)"
  using assms by (cases s) (simp_all add: json_slice_def arrayEncoder_map)

lemma valueEncoder_ClaudeTextContent:
  "valueEncoder (ValueOf_ClaudeTextContent c) = Inr (json_ClaudeTextContent c)"
  by (simp add: ValueOf_ClaudeTextContent_def json_ClaudeTextContent_def)

lemma valueEncoder_ClaudeRequestMessage:
  "valueEncoder (ValueOf_ClaudeRequestMessage m) = Inr (json_ClaudeRequestMessage m)"
  by (simp add: ValueOf_ClaudeRequestMessage_def json_ClaudeRequestMessage_def
      valueEncoder_slice valueEncoder_ClaudeTextContent)

lemma Marshal_ClaudeRequest:
  "Marshal (ValueOf_ClaudeRequest r) = Inr (json_ClaudeRequest r)"
  by (simp add: Marshal_def ValueOf_ClaudeRequest_def json_ClaudeRequest_def
      valueEncoder_slice valueEncoder_ClaudeRequestMessage)

section \<open>The paths through main\<close>

definition invoke_input :: InvokeModelInput where
  "invoke_input =
     \<lparr>ModelId = modelID, ContentType = ''application/json'',
      InvokeModelInput.Body = json_ClaudeRequest request\<rparr>"

lemma main_config_error:
  assumes "LoadDefaultConfig e region = Inl err"
  shows "main e =
    \<lparr>final = Output (log_header e) (take 47 format_config @ Error err) start, status = Exit 1\<rparr>"
  using assms by (simp add: main_def Fatalf_def Sprintf_config)

lemma main_invoke_error:
  assumes "LoadDefaultConfig e region = Inr cfg" and "InvokeModel e cfg invoke_input = Inl err"
  shows "main e = \<lparr>final = handleInvokeError err modelID start, status = Exit 1\<rparr>"
  using assms by (simp add: main_def Marshal_ClaudeRequest invoke_input_def)

lemma main_decode_error:
  assumes "LoadDefaultConfig e region = Inr cfg" and "InvokeModel e cfg invoke_input = Inr result"
    and "Unmarshal e (InvokeModelOutput.Body result) = Inl err"
  shows "main e =
    \<lparr>final = Output (log_header e) (take 47 format_decode @ Error err) start, status = Exit 1\<rparr>"
  using assms
  by (simp add: main_def Marshal_ClaudeRequest invoke_input_def Fatalf_def Sprintf_decode)

lemma main_decoded:
  assumes "LoadDefaultConfig e region = Inr cfg" and "InvokeModel e cfg invoke_input = Inr result"
    and "Unmarshal e (InvokeModelOutput.Body result) = Inr response"
  shows "main e =
    (case index (ClaudeResponse.Content response) 0 of
       Inl panic \<Rightarrow> gopanic (traceback e) panic start
     | Inr c \<Rightarrow> \<lparr>final = Println (Text c) start, status = Exit 0\<rparr>)"
  using assms by (simp add: main_def Marshal_ClaudeRequest invoke_input_def)

lemma index_first: "elems s = x # xs \<Longrightarrow> index s 0 = Inr x"
  by (simp add: index_def len_def)

lemma index_empty: "elems s = [] \<Longrightarrow> index s i = Inl (IndexOutOfRange i 0)"
  by (simp add: index_def len_def)

lemma handleInvokeError_region:
  assumes "sublist ''no such host'' (Error err)"
  shows "handleInvokeError err m p = p\<lparr>stdout := stdout p @ format_region\<rparr>"
  using assms
  by (simp add: handleInvokeError_def Contains_iff_sublist Printf_def Sprintf_region)

lemma handleInvokeError_model:
  assumes "\<not> sublist ''no such host'' (Error err)"
    and "sublist ''Could not resolve the foundation model'' (Error err)"
  shows "handleInvokeError err m p =
    p\<lparr>stdout := stdout p @ take 31 format_model @ m @ drop 33 format_model\<rparr>"
  using assms
  by (simp add: handleInvokeError_def Contains_iff_sublist Printf_def Sprintf_model)

lemma handleInvokeError_generic:
  assumes "\<not> sublist ''no such host'' (Error err)"
    and "\<not> sublist ''Could not resolve the foundation model'' (Error err)"
  shows "handleInvokeError err m p =
    p\<lparr>stdout := stdout p @ take 65 format_generic @ Error err @ [CHR 0x0A]\<rparr>"
  using assms
  by (simp add: handleInvokeError_def Contains_iff_sublist Printf_def Sprintf_generic)

lemma Printf_stderr: "stderr (Printf format args p) = stderr p"
  by (simp add: Printf_def split: option.split)

lemma handleInvokeError_stderr: "stderr (handleInvokeError err m p) = stderr p"
  by (simp add: handleInvokeError_def Let_def Printf_stderr)

section \<open>Test data\<close>

definition dns_error :: error where
  "dns_error =
     Err (''operation error Bedrock Runtime: InvokeModel, dial tcp: lookup '' @
          ''bedrock-runtime.us-east-1.amazonaws.com: no such host '' @
          ''(Could not resolve the foundation model)'')"

definition model_error :: error where
  "model_error =
     Err (''ValidationException: Could not resolve the foundation model '' @
          ''from the provided model identifier.'')"

definition access_error :: error where
  "access_error = Err ''AccessDeniedException: You do not have access to the model.''"

definition truncated_error :: error where
  "truncated_error = Err ''unexpected end of JSON input''"

lemma dns_error_contains:
  "sublist ''no such host'' (Error dns_error)"
  "sublist ''Could not resolve the foundation model'' (Error dns_error)"
  unfolding Contains_iff_sublist [symmetric]
  by (simp_all add: dns_error_def Contains_def Index_def)

lemma model_error_contains:
  "\<not> sublist ''no such host'' (Error model_error)"
  "sublist ''Could not resolve the foundation model'' (Error model_error)"
  unfolding Contains_iff_sublist [symmetric]
  by (simp_all add: model_error_def Contains_def Index_def)

lemma access_error_contains:
  "\<not> sublist ''no such host'' (Error access_error)"
  "\<not> sublist ''Could not resolve the foundation model'' (Error access_error)"
  unfolding Contains_iff_sublist [symmetric]
  by (simp_all add: access_error_def Contains_def Index_def)

lemma mock_env_simps:
  "LoadDefaultConfig (mock_env r u) region = Inr \<lparr>Region = region\<rparr>"
  "InvokeModel (mock_env r u) cfg input = r"
  "Unmarshal (mock_env r u) body = u"
  "log_header (mock_env r u) = ''2024/06/21 09:00:00 ''"
  "traceback (mock_env r u) = sample_trace"
  by (simp_all add: mock_env_def)

lemma format_model_verb:
  "format_model = take 31 format_model @ ''%s'' @ drop 33 format_model"
  by (simp add: format_model_def)

lemma format_generic_verb:
  "format_generic = take 65 format_generic @ ''%v'' @ [CHR 0x0A]"
  by (simp add: format_generic_def)

lemma sublist_written: "sublist m (out @ before @ m @ after)"
proof -
  have "out @ before @ m @ after = (out @ before) @ m @ after"
    by simp
  then show ?thesis
    unfolding sublist_def by blast
qed

section \<open>The error classifier\<close>

text \<open>
  Claim C2. Whenever the message of the error contains \<^verbatim>\<open>no such host\<close>, the classifier
  prints the region-unavailable diagnostic and nothing else, whatever else the message
  contains and whatever the model identifier is.
\<close>

theorem no_such_host_selects_region_diagnostic:
  assumes "sublist ''no such host'' (Error err)"
  shows "handleInvokeError err m p = p\<lparr>stdout := stdout p @ format_region\<rparr>"
  using assms by (rule handleInvokeError_region)

theorem no_such_host_selects_region_diagnostic_witness:
  "sublist ''no such host'' (Error dns_error) \<and>
   sublist ''Could not resolve the foundation model'' (Error dns_error) \<and>
   handleInvokeError dns_error modelID start = \<lparr>stdout = format_region, stderr = []\<rparr>"
  using no_such_host_selects_region_diagnostic [OF dns_error_contains(1), of modelID start]
    dns_error_contains
  by (simp add: start_def)

text \<open>
  Claim C3. When the message of the error contains
  \<^verbatim>\<open>Could not resolve the foundation model\<close> and does not contain \<^verbatim>\<open>no such host\<close>, the
  classifier prints the model diagnostic: its format with the verb \<^verbatim>\<open>%s\<close> (bytes 31 and
  32) replaced by the model identifier, byte for byte.
\<close>

theorem model_diagnostic_embeds_identifier:
  assumes "sublist ''Could not resolve the foundation model'' (Error err)"
    and "\<not> sublist ''no such host'' (Error err)"
  shows "handleInvokeError err m p =
           p\<lparr>stdout := stdout p @ take 31 format_model @ m @ drop 33 format_model\<rparr> \<and>
         sublist m (stdout (handleInvokeError err m p))"
  using assms by (simp add: handleInvokeError_model sublist_written)

theorem model_diagnostic_embeds_identifier_witness:
  "handleInvokeError model_error modelID start =
     \<lparr>stdout = take 31 format_model @ modelID @ drop 33 format_model, stderr = []\<rparr> \<and>
   sublist modelID (stdout (handleInvokeError model_error modelID start))"
  using model_diagnostic_embeds_identifier
    [OF model_error_contains(2) model_error_contains(1), of modelID start]
  by (simp add: start_def)

text \<open>
  Claim C4. When the message of the error contains neither of the two substrings, the
  classifier prints the generic diagnostic: its format with the verb \<^verbatim>\<open>%v\<close> replaced by
  the text of the error, which therefore occurs in what is printed.
\<close>

theorem other_errors_get_generic_diagnostic:
  assumes "\<not> sublist ''no such host'' (Error err)"
    and "\<not> sublist ''Could not resolve the foundation model'' (Error err)"
  shows "handleInvokeError err m p =
           p\<lparr>stdout := stdout p @ take 65 format_generic @ Error err @ [CHR 0x0A]\<rparr> \<and>
         sublist (Error err) (stdout (handleInvokeError err m p))"
  using assms by (simp add: handleInvokeError_generic sublist_written)

theorem other_errors_get_generic_diagnostic_witness:
  "handleInvokeError access_error modelID start =
     \<lparr>stdout = take 65 format_generic @ Error access_error @ [CHR 0x0A], stderr = []\<rparr> \<and>
   sublist (Error access_error) (stdout (handleInvokeError access_error modelID start))"
  using other_errors_get_generic_diagnostic
    [OF access_error_contains(1) access_error_contains(2), of modelID start]
  by (simp add: start_def)

section \<open>The success path\<close>

text \<open>
  Claim C1. When the configuration loads, the remote call succeeds and its body decodes
  to a response with at least one content block, the program prints the text of the
  first block followed by a newline, writes nothing else, and ends with status 0; the
  blocks after the first do not influence the result. In particular a content list
  holding the single text \<^verbatim>\<open>Bangkok\<close> gives \<^verbatim>\<open>Bangkok\<close>.
\<close>

theorem main_prints_first_text:
  assumes "LoadDefaultConfig e region = Inr cfg"
    and "InvokeModel e cfg invoke_input = Inr result"
    and "Unmarshal e (InvokeModelOutput.Body result) = Inr response"
    and "elems (ClaudeResponse.Content response) = c # cs"
  shows "index (ClaudeResponse.Content response) 0 = Inr c \<and>
         main e = \<lparr>final = \<lparr>stdout = Text c @ [CHR 0x0A], stderr = []\<rparr>, status = Exit 0\<rparr>"
  using assms
  by (simp add: main_decoded [OF assms(1-3)] index_first Println_def start_def)

theorem main_prints_first_text_witness:
  "main (mock_env (Inr reply) (Inr (message_response (Slice [text_block ''Bangkok''])))) =
     \<lparr>final = \<lparr>stdout = ''Bangkok'' @ [CHR 0x0A], stderr = []\<rparr>, status = Exit 0\<rparr> \<and>
   main (mock_env (Inr reply)
          (Inr (message_response (Slice [text_block ''Bangkok'', text_block ''Chiang Mai''])))) =
     \<lparr>final = \<lparr>stdout = ''Bangkok'' @ [CHR 0x0A], stderr = []\<rparr>, status = Exit 0\<rparr>"
proof -
  have one: "elems (ClaudeResponse.Content (message_response (Slice [text_block ''Bangkok'']))) =
      text_block ''Bangkok'' # []"
    by (simp add: message_response_def)
  have two: "elems (ClaudeResponse.Content
       (message_response (Slice [text_block ''Bangkok'', text_block ''Chiang Mai'']))) =
      text_block ''Bangkok'' # [text_block ''Chiang Mai'']"
    by (simp add: message_response_def)
  show ?thesis
    using main_prints_first_text [OF mock_env_simps(1) mock_env_simps(2) mock_env_simps(3) one]
      main_prints_first_text [OF mock_env_simps(1) mock_env_simps(2) mock_env_simps(3) two]
    by (simp add: text_block_def)
qed

text \<open>
  Claim C6, as amended. End to end: the program sends, for the model of line 65, the
  request whose system instruction and prompt are the Japanese literals of lines 71 and
  78 (written here as the bytes of their UTF-8 encoding) with a token limit of 1024; when
  the configuration loads and the remote call, given that request, returns a body that
  decodes to a response whose first content text is \<^verbatim>\<open>Bangkok!\<close>, the program prints
  \<^verbatim>\<open>Bangkok!\<close> and a newline, writes nothing to standard error, and exits with status 0.
\<close>

theorem main_end_to_end:
  assumes "LoadDefaultConfig e region = Inr cfg"
    and "InvokeModel e cfg
           \<lparr>ModelId = ''anthropic.claude-3-5-sonnet-20240620-v1:0'',
            ContentType = ''application/json'',
            InvokeModelInput.Body = json_ClaudeRequest
              \<lparr>AnthropicVersion = ''bedrock-2023-05-31'',
               MaxTokens = 1024,
               System =
     [CHR 0xE5, CHR 0xB9, CHR 0xBC, CHR 0xE7, CHR 0xA8, CHR 0x9A, CHR 0xE5, CHR 0x9C, CHR 0x92] @
     [CHR 0xE5, CHR 0x85, CHR 0x90, CHR 0xE3, CHR 0x82, CHR 0x92, CHR 0xE6, CHR 0xBC, CHR 0x94] @
     [CHR 0xE3, CHR 0x81, CHR 0x98, CHR 0xE3, CHR 0x81, CHR 0xA6, CHR 0xE3, CHR 0x81, CHR 0x8F] @
     [CHR 0xE3, CHR 0x81, CHR 0xA0, CHR 0xE3, CHR 0x81, CHR 0x95, CHR 0xE3, CHR 0x81, CHR 0x84] @
     [CHR 0xE3, CHR 0x80, CHR 0x82],
               Messages = Slice
                 [\<lparr>ClaudeRequestMessage.Role = ''user'',
                   ClaudeRequestMessage.Content = Slice
                     [\<lparr>ClaudeTextContent.Type = ''text'',
                       Text =
     [CHR 0xE3, CHR 0x82, CHR 0xBF, CHR 0xE3, CHR 0x82, CHR 0xA4, CHR 0xE3, CHR 0x81, CHR 0xAE] @
     [CHR 0xE9, CHR 0xA6, CHR 0x96, CHR 0xE9, CHR 0x83, CHR 0xBD, CHR 0xE3, CHR 0x81, CHR 0xAF] @
     [CHR 0xEF, CHR 0xBC, CHR 0x9F]\<rparr>]\<rparr>]\<rparr>\<rparr> =
         Inr result"
    and "Unmarshal e (InvokeModelOutput.Body result) = Inr response"
    and "elems (ClaudeResponse.Content response) = c # cs"
    and "Text c = ''Bangkok!''"
  shows "main e = \<lparr>final = \<lparr>stdout = ''Bangkok!'' @ [CHR 0x0A], stderr = []\<rparr>, status = Exit 0\<rparr> \<and>
         exit_code (status (main e)) = 0"
proof -
  have sent: "InvokeModel e cfg invoke_input = Inr result"
    using assms(2) by (simp add: invoke_input_def modelID_def request_def)
  show ?thesis
    using assms(4,5)
    by (simp add: main_decoded [OF assms(1) sent assms(3)] index_first Println_def start_def)
qed

text \<open>
  The claim as it was stated names a prompt and a system instruction in English. The
  program holds neither: its system instruction is not \<^verbatim>\<open>Act as a kindergartner.\<close>, no
  content block of its one message has the text \<^verbatim>\<open>What is the capital of Thailand?\<close>, and
  these are the strings whose encoding it sends.
\<close>

theorem request_is_not_the_quoted_one:
  "System request \<noteq> ''Act as a kindergartner.'' \<and>
   elems (Messages request) \<noteq> [] \<and>
   list_all
     (\<lambda>m. elems (ClaudeRequestMessage.Content m) \<noteq> [] \<and>
          list_all (\<lambda>c. Text c \<noteq> ''What is the capital of Thailand?'')
            (elems (ClaudeRequestMessage.Content m)))
     (elems (Messages request)) \<and>
   InvokeModelInput.Body invoke_input = json_ClaudeRequest request"
  by (simp add: request_def invoke_input_def)

text \<open>
  A remote service that answers only the bytes which the program is expected to send
  does answer, and the program prints the text.
\<close>

theorem main_end_to_end_witness:
  "main (keyed_env reply (Inr (message_response (Slice [text_block ''Bangkok!''])))) =
     \<lparr>final = \<lparr>stdout = ''Bangkok!'' @ [CHR 0x0A], stderr = []\<rparr>, status = Exit 0\<rparr> \<and>
   exit_code (status (main (keyed_env reply
      (Inr (message_response (Slice [text_block ''Bangkok!'']))))))  = 0"
proof -
  let ?e = "keyed_env reply (Inr (message_response (Slice [text_block ''Bangkok!''])))"
  have wire: "json_ClaudeRequest
      \<lparr>AnthropicVersion = ''bedrock-2023-05-31'',
       MaxTokens = 1024,
       System =
     [CHR 0xE5, CHR 0xB9, CHR 0xBC, CHR 0xE7, CHR 0xA8, CHR 0x9A, CHR 0xE5, CHR 0x9C, CHR 0x92] @
     [CHR 0xE5, CHR 0x85, CHR 0x90, CHR 0xE3, CHR 0x82, CHR 0x92, CHR 0xE6, CHR 0xBC, CHR 0x94] @
     [CHR 0xE3, CHR 0x81, CHR 0x98, CHR 0xE3, CHR 0x81, CHR 0xA6, CHR 0xE3, CHR 0x81, CHR 0x8F] @
     [CHR 0xE3, CHR 0x81, CHR 0xA0, CHR 0xE3, CHR 0x81, CHR 0x95, CHR 0xE3, CHR 0x81, CHR 0x84] @
     [CHR 0xE3, CHR 0x80, CHR 0x82],
       Messages = Slice
         [\<lparr>ClaudeRequestMessage.Role = ''user'',
           ClaudeRequestMessage.Content = Slice
             [\<lparr>ClaudeTextContent.Type = ''text'',
               Text =
     [CHR 0xE3, CHR 0x82, CHR 0xBF, CHR 0xE3, CHR 0x82, CHR 0xA4, CHR 0xE3, CHR 0x81, CHR 0xAE] @
     [CHR 0xE9, CHR 0xA6, CHR 0x96, CHR 0xE9, CHR 0x83, CHR 0xBD, CHR 0xE3, CHR 0x81, CHR 0xAF] @
     [CHR 0xEF, CHR 0xBC, CHR 0x9F]\<rparr>]\<rparr>]\<rparr> =
      wire_body"
    by code_simp
  have config: "LoadDefaultConfig ?e region = Inr \<lparr>Region = region\<rparr>"
    by (simp add: keyed_env_def)
  have answer: "InvokeModel ?e \<lparr>Region = region\<rparr>
      \<lparr>ModelId = ''anthropic.claude-3-5-sonnet-20240620-v1:0'',
       ContentType = ''application/json'', InvokeModelInput.Body = wire_body\<rparr> = Inr reply"
    by (simp add: keyed_env_def region_def)
  have decoded: "Unmarshal ?e (InvokeModelOutput.Body reply) =
      Inr (message_response (Slice [text_block ''Bangkok!'']))"
    by (simp add: keyed_env_def)
  have content: "elems (ClaudeResponse.Content (message_response (Slice [text_block ''Bangkok!'']))) =
      text_block ''Bangkok!'' # []"
    by (simp add: message_response_def)
  have first_text: "Text (text_block ''Bangkok!'') = ''Bangkok!''"
    by (simp add: text_block_def)
  show ?thesis
    using main_end_to_end [OF config answer [folded wire] decoded content first_text]
    by simp
qed

section \<open>The empty content list\<close>

text \<open>
  Claim C7. Nothing guards the read of index 0: when the decoded response has no content
  block (the slice is \<^verbatim>\<open>nil\<close> or empty), the read fails with an index-out-of-range
  run-time error, and the program ends in that panic: it has printed nothing to standard
  output, the runtime reports the panic on standard error, and the exit status is 2.
\<close>

theorem main_empty_content_panics:
  assumes "LoadDefaultConfig e region = Inr cfg"
    and "InvokeModel e cfg invoke_input = Inr result"
    and "Unmarshal e (InvokeModelOutput.Body result) = Inr response"
    and "elems (ClaudeResponse.Content response) = []"
  shows "index (ClaudeResponse.Content response) 0 = Inl (IndexOutOfRange 0 0) \<and>
         status (main e) = Panic (IndexOutOfRange 0 0) \<and>
         exit_code (status (main e)) = 2 \<and>
         stdout (final (main e)) = [] \<and>
         stderr (final (main e)) =
           ''panic: runtime error: index out of range [0] with length 0'' @ [CHR 0x0A] @
           traceback e"
  using assms
  by (simp add: main_decoded [OF assms(1-3)] index_empty gopanic_def start_def digits_def)

theorem main_empty_content_panics_witness:
  "status (main (mock_env (Inr reply) (Inr (message_response nil)))) =
     Panic (IndexOutOfRange 0 0) \<and>
   stdout (final (main (mock_env (Inr reply) (Inr (message_response nil))))) = [] \<and>
   stderr (final (main (mock_env (Inr reply) (Inr (message_response nil))))) =
     ''panic: runtime error: index out of range [0] with length 0'' @ [CHR 0x0A] @ sample_trace \<and>
   status (main (mock_env (Inr reply) (Inr (message_response (Slice []))))) =
     Panic (IndexOutOfRange 0 0) \<and>
   stdout (final (main (mock_env (Inr reply) (Inr (message_response (Slice [])))))) = [] \<and>
   stderr (final (main (mock_env (Inr reply) (Inr (message_response (Slice [])))))) =
     ''panic: runtime error: index out of range [0] with length 0'' @ [CHR 0x0A] @ sample_trace"
proof -
  have none: "elems (ClaudeResponse.Content (message_response nil)) = []"
    by (simp add: message_response_def)
  have empty: "elems (ClaudeResponse.Content (message_response (Slice []))) = []"
    by (simp add: message_response_def)
  show ?thesis
    using main_empty_content_panics
        [OF mock_env_simps(1) mock_env_simps(2) mock_env_simps(3) none]
      main_empty_content_panics
        [OF mock_env_simps(1) mock_env_simps(2) mock_env_simps(3) empty]
    by (simp add: mock_env_simps)
qed

section \<open>The request\<close>

text \<open>
  Claim C8. The request that the program builds has a non-empty message list, and every
  message in it has a non-empty content list, the role \<^verbatim>\<open>user\<close>, and only content blocks
  of type \<^verbatim>\<open>text\<close>. The request is a constant of the program, and it is the one whose
  encoding is sent.
\<close>

theorem request_invariant:
  "elems (Messages request) \<noteq> [] \<and>
   list_all
     (\<lambda>m. elems (ClaudeRequestMessage.Content m) \<noteq> [] \<and>
          ClaudeRequestMessage.Role m = ''user'' \<and>
          list_all (\<lambda>c. ClaudeTextContent.Type c = ''text'')
            (elems (ClaudeRequestMessage.Content m)))
     (elems (Messages request)) \<and>
   InvokeModelInput.Body invoke_input = json_ClaudeRequest request"
  by (simp add: request_def invoke_input_def)

text \<open>
  Claim C10. Encoding a request never fails: for every request \<^verbatim>\<open>json.Marshal\<close> returns
  its JSON text, because reflection meets only strings, integers, structs and slices of
  these. So the fatal exit after \<^verbatim>\<open>json.Marshal\<close> is dead code: no run of \<^verbatim>\<open>main\<close> ends
  the way that branch would end it.
\<close>

theorem marshal_request_never_fails:
  "Marshal (ValueOf_ClaudeRequest r) = Inr (json_ClaudeRequest r) \<and>
   main e \<noteq> Fatalf (log_header e) format_encode [msg] start"
proof
  show "Marshal (ValueOf_ClaudeRequest r) = Inr (json_ClaudeRequest r)"
    by (rule Marshal_ClaudeRequest)
next
  let ?fatal = "Fatalf (log_header e) format_encode [msg] start"
  have fatal: "?fatal =
      \<lparr>final = Output (log_header e) (take 60 format_encode @ msg) start, status = Exit 1\<rparr>"
    by (simp add: Fatalf_def Sprintf_encode)
  show "main e \<noteq> ?fatal"
  proof (cases "LoadDefaultConfig e region")
    case (Inl err)
    show ?thesis
      unfolding main_config_error [OF Inl] fatal
      by (simp add: Output_def start_def format_config_def format_encode_def)
  next
    case (Inr cfg)
    show ?thesis
    proof (cases "InvokeModel e cfg invoke_input")
      case (Inl err)
      have "stderr (handleInvokeError err modelID start) = []"
        by (simp add: handleInvokeError_stderr start_def)
      then show ?thesis
        unfolding main_invoke_error [OF Inr Inl] fatal
        by (auto simp add: Output_def start_def)
    next
      case result: (Inr result)
      show ?thesis
      proof (cases "Unmarshal e (InvokeModelOutput.Body result)")
        case (Inl err)
        show ?thesis
          unfolding main_decode_error [OF Inr result Inl] fatal
          by (simp add: Output_def start_def format_decode_def format_encode_def)
      next
        case response: (Inr response)
        show ?thesis
          unfolding main_decoded [OF Inr result response] fatal
          by (simp add: gopanic_def split: sum.split)
      qed
    qed
  qed
qed

section \<open>Where the output goes\<close>

text \<open>
  Claim C9, as amended. On success the program writes to standard output exactly the
  extracted text and a newline (one line when the text holds no newline) and nothing to
  standard error. When the remote call fails it writes to standard output exactly one
  of the three diagnostics, which ends with a newline (and is one line when the text of
  the error holds no newline), and nothing to standard error. When loading the
  configuration or decoding the response fails, the diagnostic goes to standard error
  through \<^verbatim>\<open>log.Fatalf\<close> and nothing is written to standard output.
\<close>

theorem output_streams:
  "(LoadDefaultConfig e region = Inr cfg \<and> InvokeModel e cfg invoke_input = Inr result \<and>
    Unmarshal e (InvokeModelOutput.Body result) = Inr response \<and>
    elems (ClaudeResponse.Content response) = c # cs \<longrightarrow>
      final (main e) = \<lparr>stdout = Text c @ [CHR 0x0A], stderr = []\<rparr> \<and>
      (CHR 0x0A \<notin> set (Text c) \<longrightarrow> count_list (stdout (final (main e))) (CHR 0x0A) = 1)) \<and>
   (LoadDefaultConfig e region = Inr cfg \<and> InvokeModel e cfg invoke_input = Inl err \<longrightarrow>
      stderr (final (main e)) = [] \<and>
      stdout (final (main e)) \<in>
        {format_region,
         take 31 format_model @ modelID @ drop 33 format_model,
         take 65 format_generic @ Error err @ [CHR 0x0A]} \<and>
      last (stdout (final (main e))) = CHR 0x0A \<and>
      (CHR 0x0A \<notin> set (Error err) \<longrightarrow> count_list (stdout (final (main e))) (CHR 0x0A) = 1)) \<and>
   (LoadDefaultConfig e region = Inl err \<longrightarrow>
      final (main e) = Output (log_header e) (take 47 format_config @ Error err) start \<and>
      stdout (final (main e)) = [] \<and> stderr (final (main e)) \<noteq> []) \<and>
   (LoadDefaultConfig e region = Inr cfg \<and> InvokeModel e cfg invoke_input = Inr result \<and>
    Unmarshal e (InvokeModelOutput.Body result) = Inl err \<longrightarrow>
      final (main e) = Output (log_header e) (take 47 format_decode @ Error err) start \<and>
      stdout (final (main e)) = [] \<and> stderr (final (main e)) \<noteq> [])"
proof (intro conjI impI; (elim conjE)?)
  assume ok: "LoadDefaultConfig e region = Inr cfg" "InvokeModel e cfg invoke_input = Inr result"
    "Unmarshal e (InvokeModelOutput.Body result) = Inr response"
    and content: "elems (ClaudeResponse.Content response) = c # cs"
  show success: "final (main e) = \<lparr>stdout = Text c @ [CHR 0x0A], stderr = []\<rparr>"
    by (simp add: main_decoded [OF ok] index_first [OF content] Println_def start_def)
  assume "CHR 0x0A \<notin> set (Text c)"
  then show "count_list (stdout (final (main e))) (CHR 0x0A) = 1"
    by (simp add: success)
next
  assume failed: "LoadDefaultConfig e region = Inr cfg" "InvokeModel e cfg invoke_input = Inl err"
  have run: "final (main e) = handleInvokeError err modelID start"
    by (simp add: main_invoke_error [OF failed])
  show "stderr (final (main e)) = []"
    by (simp add: run handleInvokeError_stderr start_def)
  consider (host) "sublist ''no such host'' (Error err)"
    | (model) "\<not> sublist ''no such host'' (Error err)"
        "sublist ''Could not resolve the foundation model'' (Error err)"
    | (other) "\<not> sublist ''no such host'' (Error err)"
        "\<not> sublist ''Could not resolve the foundation model'' (Error err)"
    by blast
  then have out: "stdout (final (main e)) = format_region \<or>
      stdout (final (main e)) = take 31 format_model @ modelID @ drop 33 format_model \<or>
      stdout (final (main e)) = take 65 format_generic @ Error err @ [CHR 0x0A]"
    by cases
      (simp_all add: run handleInvokeError_region handleInvokeError_model
        handleInvokeError_generic start_def)
  then show "stdout (final (main e)) \<in>
      {format_region,
       take 31 format_model @ modelID @ drop 33 format_model,
       take 65 format_generic @ Error err @ [CHR 0x0A]}"
    by blast
  have region_line: "last format_region = CHR 0x0A \<and> count_list format_region (CHR 0x0A) = 1"
    by (simp add: format_region_def)
  have model_line: "last (take 31 format_model @ modelID @ drop 33 format_model) = CHR 0x0A \<and>
      count_list (take 31 format_model @ modelID @ drop 33 format_model) (CHR 0x0A) = 1"
    by (simp add: format_model_def modelID_def)
  have generic_line: "CHR 0x0A \<notin> set (Error err) \<Longrightarrow>
      count_list (take 65 format_generic @ Error err @ [CHR 0x0A]) (CHR 0x0A) = 1"
    by (simp add: format_generic_def)
  show "last (stdout (final (main e))) = CHR 0x0A"
    using out region_line model_line by auto
  assume "CHR 0x0A \<notin> set (Error err)"
  then show "count_list (stdout (final (main e))) (CHR 0x0A) = 1"
    using out region_line model_line generic_line by auto
next
  assume failed: "LoadDefaultConfig e region = Inl err"
  show run: "final (main e) = Output (log_header e) (take 47 format_config @ Error err) start"
    by (simp add: main_config_error [OF failed])
  show "stdout (final (main e)) = []"
    by (simp add: run Output_def start_def)
  show "stderr (final (main e)) \<noteq> []"
    by (simp add: run Output_def start_def)
next
  assume failed: "LoadDefaultConfig e region = Inr cfg" "InvokeModel e cfg invoke_input = Inr result"
    "Unmarshal e (InvokeModelOutput.Body result) = Inl err"
  show run: "final (main e) = Output (log_header e) (take 47 format_decode @ Error err) start"
    by (simp add: main_decode_error [OF failed])
  show "stdout (final (main e)) = []"
    by (simp add: run Output_def start_def)
  show "stderr (final (main e)) \<noteq> []"
    by (simp add: run Output_def start_def)
qed

text \<open>
  The claim as it was stated fails where decoding fails: such a run is a failure, it
  writes nothing to standard output, and its diagnostic is on standard error.
\<close>

theorem decode_failure_writes_to_stderr:
  "status (main (mock_env (Inr reply) (Inl truncated_error))) = Exit 1 \<and>
   stdout (final (main (mock_env (Inr reply) (Inl truncated_error)))) = [] \<and>
   stderr (final (main (mock_env (Inr reply) (Inl truncated_error)))) =
     ''2024/06/21 09:00:00 '' @ take 47 format_decode @ ''unexpected end of JSON input'' @
     [CHR 0x0A]"
  by (simp add: main_decode_error [OF mock_env_simps(1) mock_env_simps(2) mock_env_simps(3)]
      mock_env_simps Output_def start_def truncated_error_def)

theorem output_streams_witness:
  "final (main (mock_env (Inr reply) (Inr (message_response (Slice [text_block ''Bangkok'']))))) =
     \<lparr>stdout = ''Bangkok'' @ [CHR 0x0A], stderr = []\<rparr> \<and>
   stderr (final (main (mock_env (Inl access_error) (Inl truncated_error)))) = [] \<and>
   count_list (stdout (final (main (mock_env (Inl access_error) (Inl truncated_error)))))
     (CHR 0x0A) = 1 \<and>
   stdout (final (main no_config_env)) = [] \<and>
   stderr (final (main no_config_env)) \<noteq> [] \<and>
   stdout (final (main (mock_env (Inr reply) (Inl truncated_error)))) = [] \<and>
   stderr (final (main (mock_env (Inr reply) (Inl truncated_error)))) \<noteq> []"
proof -
  have content: "elems (ClaudeResponse.Content (message_response (Slice [text_block ''Bangkok'']))) =
      text_block ''Bangkok'' # []"
    by (simp add: message_response_def)
  have single: "CHR 0x0A \<notin> set (Text (text_block ''Bangkok''))"
    by (simp add: text_block_def)
  have plain: "CHR 0x0A \<notin> set (Error access_error)"
    by (simp add: access_error_def)
  have no_config: "LoadDefaultConfig no_config_env region =
      Inl (Err ''failed to load shared config file'')"
    by (simp add: no_config_env_def)
  have success:
    "final (main (mock_env (Inr reply) (Inr (message_response (Slice [text_block ''Bangkok'']))))) =
       \<lparr>stdout = Text (text_block ''Bangkok'') @ [CHR 0x0A], stderr = []\<rparr>"
    using content single output_streams
      [where e = "mock_env (Inr reply) (Inr (message_response (Slice [text_block ''Bangkok''])))"
         and cfg = "\<lparr>Region = region\<rparr>" and result = reply
         and response = "message_response (Slice [text_block ''Bangkok''])"
         and c = "text_block ''Bangkok''" and cs = "[]"]
    by (simp add: mock_env_simps)
  have remote:
    "stderr (final (main (mock_env (Inl access_error) (Inl truncated_error)))) = [] \<and>
     count_list (stdout (final (main (mock_env (Inl access_error) (Inl truncated_error)))))
       (CHR 0x0A) = 1"
    using plain output_streams
      [where e = "mock_env (Inl access_error) (Inl truncated_error)"
         and cfg = "\<lparr>Region = region\<rparr>" and err = access_error]
    by (simp add: mock_env_simps)
  have config:
    "stdout (final (main no_config_env)) = [] \<and> stderr (final (main no_config_env)) \<noteq> []"
    using no_config output_streams
      [where e = no_config_env and err = "Err ''failed to load shared config file''"]
    by blast
  have undecodable:
    "LoadDefaultConfig (mock_env (Inr reply) (Inl truncated_error)) region =
       Inr \<lparr>Region = region\<rparr> \<and>
     InvokeModel (mock_env (Inr reply) (Inl truncated_error)) \<lparr>Region = region\<rparr> invoke_input =
       Inr reply \<and>
     Unmarshal (mock_env (Inr reply) (Inl truncated_error)) (InvokeModelOutput.Body reply) =
       Inl truncated_error"
    by (simp add: mock_env_simps)
  have decode:
    "stdout (final (main (mock_env (Inr reply) (Inl truncated_error)))) = [] \<and>
     stderr (final (main (mock_env (Inr reply) (Inl truncated_error)))) \<noteq> []"
    using undecodable output_streams
      [where e = "mock_env (Inr reply) (Inl truncated_error)"
         and cfg = "\<lparr>Region = region\<rparr>" and result = reply and err = truncated_error]
    by blast
  show ?thesis
    using success remote config decode
    by (simp add: text_block_def)
qed

section \<open>Encoding and decoding a rune\<close>

text \<open>
  The bit operations of \<^verbatim>\<open>unicode/utf8\<close> as arithmetic, and from them: a rune that
  \<^const>\<open>DecodeRuneInString\<close> reads without error is written back by \<^const>\<open>EncodeRune\<close> as
  the bytes it was read from.
\<close>

lemma and_63: "(x::int) AND 63 = x mod 64"
  using take_bit_eq_mask [of 6 x] by (simp add: take_bit_eq_mod mask_numeral)
lemma and_31: "(x::int) AND 31 = x mod 32"
  using take_bit_eq_mask [of 5 x] by (simp add: take_bit_eq_mod mask_numeral)
lemma and_15: "(x::int) AND 15 = x mod 16"
  using take_bit_eq_mask [of 4 x] by (simp add: take_bit_eq_mod mask_numeral)
lemma and_7: "(x::int) AND 7 = x mod 8"
  using take_bit_eq_mask [of 3 x] by (simp add: take_bit_eq_mod mask_numeral)

lemma or_shifted: "0 \<le> b \<Longrightarrow> b < 2 ^ n \<Longrightarrow> push_bit n (a::int) OR b = a * 2 ^ n + b"
proof -
  assume b: "0 \<le> b" "b < 2 ^ n"
  have tb: "take_bit n b = b"
    using b by (simp add: take_bit_int_eq_self)
  have "push_bit n a + b = push_bit n a OR b"
  proof (rule disjunctive_add_eq_or, rule bit_eqI)
    fix k
    have "bit b k \<Longrightarrow> k < n"
      using tb by (metis bit_take_bit_iff)
    then show "bit (push_bit n a AND b) k = bit (0::int) k"
      by (auto simp add: bit_simps)
  qed
  then show ?thesis by (simp add: push_bit_eq_mult)
qed

lemma byte_range: "0 \<le> byte c" "byte c < 256"
  by (simp_all add: of_char_def)  

lemma or_C0: "0 \<le> b \<Longrightarrow> b < 64 \<Longrightarrow> 0xC0 OR (b::int) = 0xC0 + b"
  using or_shifted [of b 6 3] by (simp add: push_bit_eq_mult)
lemma or_80: "0 \<le> b \<Longrightarrow> b < 64 \<Longrightarrow> 0x80 OR (b::int) = 0x80 + b"
  using or_shifted [of b 6 2] by (simp add: push_bit_eq_mult)
lemma or_E0: "0 \<le> b \<Longrightarrow> b < 16 \<Longrightarrow> 0xE0 OR (b::int) = 0xE0 + b"
  using or_shifted [of b 4 14] by (simp add: push_bit_eq_mult)
lemma or_F0: "0 \<le> b \<Longrightarrow> b < 8 \<Longrightarrow> 0xF0 OR (b::int) = 0xF0 + b"
  using or_shifted [of b 3 30] by (simp add: push_bit_eq_mult)

lemma fields2:
  fixes a b :: int
  assumes "0 \<le> b" "b < 64"
  shows "drop_bit 6 (a * 64 + b) = a" "(a * 64 + b) AND 63 = b"
  using assms unfolding drop_bit_eq_div and_63 by simp_all

lemma fields3:
  fixes a b c :: int
  assumes "0 \<le> b" "b < 64" "0 \<le> c" "c < 64"
  shows "drop_bit 12 (a * 4096 + b * 64 + c) = a"
    "drop_bit 6 (a * 4096 + b * 64 + c) AND 63 = b"
    "(a * 4096 + b * 64 + c) AND 63 = c"
proof -
  have r: "a * 4096 + b * 64 + c = (a * 64 + b) * 64 + c"
    by simp
  have d: "drop_bit 6 (a * 4096 + b * 64 + c) = a * 64 + b"
    unfolding r using assms(3,4) by (rule fields2)
  have "drop_bit 12 (a * 4096 + b * 64 + c) = drop_bit 6 (drop_bit 6 (a * 4096 + b * 64 + c))"
    by (simp add: drop_bit_drop_bit)
  then show "drop_bit 12 (a * 4096 + b * 64 + c) = a"
    unfolding d using assms by (simp only: fields2)
  show "drop_bit 6 (a * 4096 + b * 64 + c) AND 63 = b"
    unfolding d using assms by (simp only: fields2)
  show "(a * 4096 + b * 64 + c) AND 63 = c"
    unfolding r using assms(3,4) by (rule fields2)
qed

lemma fields4:
  fixes a b c d :: int
  assumes "0 \<le> b" "b < 64" "0 \<le> c" "c < 64" "0 \<le> d" "d < 64"
  shows "drop_bit 18 (a * 262144 + b * 4096 + c * 64 + d) = a"
    "drop_bit 12 (a * 262144 + b * 4096 + c * 64 + d) AND 63 = b"
    "drop_bit 6 (a * 262144 + b * 4096 + c * 64 + d) AND 63 = c"
    "(a * 262144 + b * 4096 + c * 64 + d) AND 63 = d"
proof -
  let ?r = "a * 262144 + b * 4096 + c * 64 + d"
  have r: "?r = (a * 4096 + b * 64 + c) * 64 + d"
    by simp
  have d: "drop_bit 6 ?r = a * 4096 + b * 64 + c"
    unfolding r using assms(5,6) by (rule fields2)
  have "drop_bit 18 ?r = drop_bit 12 (drop_bit 6 ?r)" "drop_bit 12 ?r = drop_bit 6 (drop_bit 6 ?r)"
    by (simp_all add: drop_bit_drop_bit)
  then show "drop_bit 18 ?r = a" "drop_bit 12 ?r AND 63 = b"
    unfolding d using assms by (simp_all only: fields3)
  show "drop_bit 6 ?r AND 63 = c"
    unfolding d using assms by (simp only: fields3)
  show "?r AND 63 = d"
    unfolding r using assms(5,6) by (rule fields2)
qed

lemma or3:
  fixes a b c :: int
  assumes "0 \<le> b" "b < 64" "0 \<le> c" "c < 64"
  shows "push_bit 12 a OR push_bit 6 b OR c = a * 4096 + b * 64 + c"
proof -
  have inner: "push_bit 6 b OR c = b * 64 + c"
    using or_shifted [of c 6 b] assms by simp
  have "push_bit 12 a OR (b * 64 + c) = a * 2 ^ 12 + (b * 64 + c)"
    using assms by (intro or_shifted) simp_all
  then show ?thesis
    by (simp add: inner)
qed

lemma or4:
  fixes a b c d :: int
  assumes "0 \<le> b" "b < 64" "0 \<le> c" "c < 64" "0 \<le> d" "d < 64"
  shows "push_bit 18 a OR push_bit 12 b OR push_bit 6 c OR d = a * 262144 + b * 4096 + c * 64 + d"
proof -
  have inner: "push_bit 12 b OR push_bit 6 c OR d = b * 4096 + c * 64 + d"
    using assms by (intro or3)
  have "push_bit 18 a OR (b * 4096 + c * 64 + d) = a * 2 ^ 18 + (b * 4096 + c * 64 + d)"
    using assms by (intro or_shifted) simp_all
  then show ?thesis
    by (simp add: inner)
qed

lemma lead2: "0xC2 \<le> byte c \<Longrightarrow> byte c < 0xE0 \<Longrightarrow> byte c AND mask2 = byte c - 0xC0"
  using byte_range [of c] by (simp add: mask2_def and_31) presburger

lemma lead3: "0xE0 \<le> byte c \<Longrightarrow> byte c < 0xF0 \<Longrightarrow> byte c AND mask3 = byte c - 0xE0"
  using byte_range [of c] by (simp add: mask3_def and_15) presburger

lemma lead4: "0xF0 \<le> byte c \<Longrightarrow> byte c < 0xF8 \<Longrightarrow> byte c AND mask4 = byte c - 0xF0"
  using byte_range [of c] by (simp add: mask4_def and_7) presburger

lemma cont:
  assumes "0x80 \<le> byte c" "byte c \<le> 0xBF"
  shows "byte c AND maskx = byte c - 0x80"
  using assms by (simp add: maskx_def and_63) presburger

text \<open>What the decoder returns, by the class of the first byte.\<close>

lemma decode_ascii:
  assumes "byte c0 < 0x80"
  shows "DecodeRuneInString (c0 # t) = (byte c0, 1)"
  using assms by (simp add: DecodeRuneInString_def first_def)

lemma decode_invalid:
  assumes "first (byte c0) = 0xF1"
  shows "DecodeRuneInString (c0 # t) = (RuneError, 1)"
  using assms by (simp add: DecodeRuneInString_def)

lemma decode_two:
  assumes "first (byte c0) = 0x02"
  shows "DecodeRuneInString (c0 # t) =
    (case t of
       [] \<Rightarrow> (RuneError, 1)
     | c1 # _ \<Rightarrow>
         if byte c1 < 0x80 \<or> 0xBF < byte c1 then (RuneError, 1)
         else (push_bit 6 (byte c0 AND mask2) OR (byte c1 AND maskx), 2))"
  using assms
  by (simp add: DecodeRuneInString_def acceptRanges_def locb_def hicb_def split: list.split)

lemma decode_three:
  assumes "first (byte c0) = x" "x AND 7 = 3" "x < 0xF0" "acceptRanges (drop_bit 4 x) = (lo, hi)"
  shows "DecodeRuneInString (c0 # t) =
    (case t of
       c1 # c2 # _ \<Rightarrow>
         if byte c1 < lo \<or> hi < byte c1 then (RuneError, 1)
         else if byte c2 < 0x80 \<or> 0xBF < byte c2 then (RuneError, 1)
         else (push_bit 12 (byte c0 AND mask3) OR push_bit 6 (byte c1 AND maskx) OR
               (byte c2 AND maskx), 3)
     | _ \<Rightarrow> (RuneError, 1))"
  using assms
  by (simp add: DecodeRuneInString_def locb_def hicb_def Let_def split: list.split)

lemma decode_four:
  assumes "first (byte c0) = x" "x AND 7 = 4" "x < 0xF0" "acceptRanges (drop_bit 4 x) = (lo, hi)"
  shows "DecodeRuneInString (c0 # t) =
    (case t of
       c1 # c2 # c3 # _ \<Rightarrow>
         if byte c1 < lo \<or> hi < byte c1 then (RuneError, 1)
         else if byte c2 < 0x80 \<or> 0xBF < byte c2 then (RuneError, 1)
         else if byte c3 < 0x80 \<or> 0xBF < byte c3 then (RuneError, 1)
         else (push_bit 18 (byte c0 AND mask4) OR push_bit 12 (byte c1 AND maskx) OR
               push_bit 6 (byte c2 AND maskx) OR (byte c3 AND maskx), 4)
     | _ \<Rightarrow> (RuneError, 1))"
  using assms
  by (simp add: DecodeRuneInString_def locb_def hicb_def Let_def split: list.split)

lemma encode_two:
  assumes "0xC2 \<le> byte c0" "byte c0 < 0xE0" "0x80 \<le> byte c1" "byte c1 \<le> 0xBF"
  shows "EncodeRune ((byte c0 - 0xC0) * 64 + (byte c1 - 0x80)) = [c0, c1]"
proof -
  define a b where "a = byte c0 - 0xC0" and "b = byte c1 - 0x80"
  have bounds: "2 \<le> a" "a < 32" "0 \<le> b" "b < 64"
    using assms by (simp_all add: a_def b_def)
  have r: "0x7F < a * 64 + b" "a * 64 + b \<le> 0x7FF"
    using bounds by simp_all
  have "EncodeRune (a * 64 + b) = [char_of (0xC0 OR a), char_of (0x80 OR b)]"
    using r bounds by (simp add: EncodeRune_def maskx_def fields2)
  also have "0xC0 OR a = byte c0"
    using bounds by (simp add: or_C0) (simp add: a_def)
  also have "0x80 OR b = byte c1"
    using bounds by (simp add: or_80) (simp add: b_def)
  finally show ?thesis
    by (simp add: a_def b_def)
qed

lemma encode_three:
  assumes "0xE0 \<le> byte c0" "byte c0 < 0xF0" "0x80 \<le> byte c1" "byte c1 \<le> 0xBF"
    "0x80 \<le> byte c2" "byte c2 \<le> 0xBF"
    "byte c0 = 0xE0 \<longrightarrow> 0xA0 \<le> byte c1" "byte c0 = 0xED \<longrightarrow> byte c1 \<le> 0x9F"
  shows "EncodeRune ((byte c0 - 0xE0) * 4096 + (byte c1 - 0x80) * 64 + (byte c2 - 0x80)) =
    [c0, c1, c2]"
proof -
  define a b c where "a = byte c0 - 0xE0" and "b = byte c1 - 0x80" and "c = byte c2 - 0x80"
  have bounds: "0 \<le> a" "a < 16" "0 \<le> b" "b < 64" "0 \<le> c" "c < 64"
    "a = 0 \<longrightarrow> 0x20 \<le> b" "a = 0xD \<longrightarrow> b < 0x20"
    using assms by (auto simp add: a_def b_def c_def)
  let ?r = "a * 4096 + b * 64 + c"
  have r: "0x7FF < ?r" "?r \<le> 0xFFFF"
    using bounds by auto
  consider "a \<le> 12" | "a = 13" | "14 \<le> a"
    by linarith
  then have s: "(0xD800 \<le> ?r \<and> ?r \<le> 0xDFFF) = False"
    using bounds by cases simp_all
  have "EncodeRune ?r = [char_of (0xE0 OR a), char_of (0x80 OR b), char_of (0x80 OR c)]"
    using r bounds(3-6)
    by (simp add: EncodeRune_def MaxRune_def maskx_def fields3 s del: mult_eq_0_iff)
  also have "0xE0 OR a = byte c0"
    using bounds by (simp add: or_E0) (simp add: a_def)
  also have "0x80 OR b = byte c1"
    using bounds by (simp add: or_80) (simp add: b_def)
  also have "0x80 OR c = byte c2"
    using bounds by (simp add: or_80) (simp add: c_def)
  finally show ?thesis
    by (simp add: a_def b_def c_def)
qed

lemma encode_four:
  assumes "0xF0 \<le> byte c0" "byte c0 \<le> 0xF4" "0x80 \<le> byte c1" "byte c1 \<le> 0xBF"
    "0x80 \<le> byte c2" "byte c2 \<le> 0xBF" "0x80 \<le> byte c3" "byte c3 \<le> 0xBF"
    "byte c0 = 0xF0 \<longrightarrow> 0x90 \<le> byte c1" "byte c0 = 0xF4 \<longrightarrow> byte c1 \<le> 0x8F"
  shows "EncodeRune ((byte c0 - 0xF0) * 262144 + (byte c1 - 0x80) * 4096 +
      (byte c2 - 0x80) * 64 + (byte c3 - 0x80)) = [c0, c1, c2, c3]"
proof -
  define a b c d where "a = byte c0 - 0xF0" and "b = byte c1 - 0x80" and "c = byte c2 - 0x80"
    and "d = byte c3 - 0x80"
  have bounds: "0 \<le> a" "a \<le> 4" "0 \<le> b" "b < 64" "0 \<le> c" "c < 64" "0 \<le> d" "d < 64"
    "a = 0 \<longrightarrow> 0x10 \<le> b" "a = 4 \<longrightarrow> b < 0x10"
    using assms by (auto simp add: a_def b_def c_def d_def)
  let ?r = "a * 262144 + b * 4096 + c * 64 + d"
  have r: "0xFFFF < ?r" "?r \<le> 0x10FFFF"
    using bounds by auto
  have "EncodeRune ?r =
      [char_of (0xF0 OR a), char_of (0x80 OR b), char_of (0x80 OR c), char_of (0x80 OR d)]"
    using r bounds(3-8)
    by (simp add: EncodeRune_def MaxRune_def maskx_def fields4 del: mult_eq_0_iff)
  also have "0xF0 OR a = byte c0"
    using bounds by (simp add: or_F0) (simp add: a_def)
  also have "0x80 OR b = byte c1"
    using bounds by (simp add: or_80) (simp add: b_def)
  also have "0x80 OR c = byte c2"
    using bounds by (simp add: or_80) (simp add: c_def)
  also have "0x80 OR d = byte c3"
    using bounds by (simp add: or_80) (simp add: d_def)
  finally show ?thesis
    by (simp add: a_def b_def c_def d_def)
qed

lemma first_cases:
  obtains (ascii) "byte c < 0x80"
  | (invalid) "first (byte c) = 0xF1"
  | (two) "0xC2 \<le> byte c" "byte c < 0xE0" "first (byte c) = 0x02"
  | (three) x lo hi where "0xE0 \<le> byte c" "byte c < 0xF0" "first (byte c) = x" "x AND 7 = 3"
      "x < 0xF0" "acceptRanges (drop_bit 4 x) = (lo, hi)" "0x80 \<le> lo" "hi \<le> 0xBF"
      "byte c = 0xE0 \<longrightarrow> 0xA0 \<le> lo" "byte c = 0xED \<longrightarrow> hi \<le> 0x9F"
  | (four) x lo hi where "0xF0 \<le> byte c" "byte c \<le> 0xF4" "first (byte c) = x" "x AND 7 = 4"
      "x < 0xF0" "acceptRanges (drop_bit 4 x) = (lo, hi)" "0x80 \<le> lo" "hi \<le> 0xBF"
      "byte c = 0xF0 \<longrightarrow> 0x90 \<le> lo" "byte c = 0xF4 \<longrightarrow> hi \<le> 0x8F"
proof -
  consider "byte c < 0x80" | "0x80 \<le> byte c \<and> byte c < 0xC2" | "0xC2 \<le> byte c \<and> byte c < 0xE0"
    | "byte c = 0xE0" | "0xE1 \<le> byte c \<and> byte c < 0xED" | "byte c = 0xED"
    | "0xEE \<le> byte c \<and> byte c < 0xF0" | "byte c = 0xF0" | "0xF1 \<le> byte c \<and> byte c < 0xF4"
    | "byte c = 0xF4" | "0xF5 \<le> byte c"
    by linarith
  then show thesis
  proof cases
    case 1
    then show ?thesis by (rule ascii)
  next
    case 2
    then show ?thesis by (intro invalid) (simp add: first_def)
  next
    case 3
    then show ?thesis by (intro two) (simp_all add: first_def)
  next
    case 4
    then show ?thesis
      by (intro three [of "0x13" "0xA0" "0xBF"]) (simp_all add: first_def acceptRanges_def hicb_def)
  next
    case 5
    then show ?thesis
      by (intro three [of "0x03" "0x80" "0xBF"])
        (simp_all add: first_def acceptRanges_def hicb_def locb_def)
  next
    case 6
    then show ?thesis
      by (intro three [of "0x23" "0x80" "0x9F"]) (simp_all add: first_def acceptRanges_def locb_def)
  next
    case 7
    then show ?thesis
      by (intro three [of "0x03" "0x80" "0xBF"])
        (simp_all add: first_def acceptRanges_def hicb_def locb_def)
  next
    case 8
    then show ?thesis
      by (intro four [of "0x34" "0x90" "0xBF"]) (simp_all add: first_def acceptRanges_def hicb_def)
  next
    case 9
    then show ?thesis
      by (intro four [of "0x04" "0x80" "0xBF"])
        (simp_all add: first_def acceptRanges_def hicb_def locb_def)
  next
    case 10
    then show ?thesis
      by (intro four [of "0x44" "0x80" "0x8F"]) (simp_all add: first_def acceptRanges_def locb_def)
  next
    case 11
    then show ?thesis by (intro invalid) (simp add: first_def)
  qed
qed

text \<open>A rune that decodes without error is re-encoded to the bytes it was read from,
  and decoding looks at those bytes only.\<close>

lemma decoded_rune:
  assumes "DecodeRuneInString (c0 # t) = (r, n)" and "\<not> (r = RuneError \<and> n = 1)"
  shows "EncodeRune r = take n (c0 # t) \<and> n \<le> length (c0 # t) \<and> 0 < n \<and>
    DecodeRuneInString (take n (c0 # t) @ u) = (r, n) \<and>
    (0x80 \<le> byte c0 \<longrightarrow> 0x80 \<le> r) \<and>
    (0x80 \<le> byte c0 \<longrightarrow> (\<forall>x\<in>set (take n (c0 # t)). 0x80 \<le> byte x))"
proof (cases c0 rule: first_cases)
  case ascii
  then show ?thesis
    using assms byte_range [of c0] by (auto simp add: decode_ascii EncodeRune_def)
next
  case invalid
  then show ?thesis
    using assms by (simp add: decode_invalid)
next
  case two
  from assms two obtain c1 t' where t: "t = c1 # t'" and c1: "0x80 \<le> byte c1" "byte c1 \<le> 0xBF"
    by (auto simp add: decode_two split: list.splits if_splits)
  have rune_value: "push_bit 6 (byte c0 AND mask2) OR (byte c1 AND maskx) =
      (byte c0 - 0xC0) * 64 + (byte c1 - 0x80)"
    using two c1 or_shifted [of "byte c1 - 0x80" 6 "byte c0 - 0xC0"] by (simp add: lead2 cont)
  have "\<And>v. DecodeRuneInString (c0 # c1 # v) = ((byte c0 - 0xC0) * 64 + (byte c1 - 0x80), 2)"
    using two c1 by (simp add: decode_two rune_value del: push_bit_and)
  moreover have "EncodeRune ((byte c0 - 0xC0) * 64 + (byte c1 - 0x80)) = [c0, c1]"
    using two c1 by (intro encode_two) auto
  ultimately show ?thesis
    using assms two c1 by (auto simp add: t)
next
  case (three x lo hi)
  from assms three obtain c1 c2 t' where t: "t = c1 # c2 # t'"
    and c1: "lo \<le> byte c1" "byte c1 \<le> hi" and c2: "0x80 \<le> byte c2" "byte c2 \<le> 0xBF"
    by (auto simp add: decode_three [OF three(3-6)] split: list.splits if_splits)
  have c1': "0x80 \<le> byte c1" "byte c1 \<le> 0xBF"
    using c1 three by simp_all
  have rune_value: "push_bit 12 (byte c0 AND mask3) OR push_bit 6 (byte c1 AND maskx) OR
      (byte c2 AND maskx) = (byte c0 - 0xE0) * 4096 + (byte c1 - 0x80) * 64 + (byte c2 - 0x80)"
    using three c1' c2 or3 [of "byte c1 - 0x80" "byte c2 - 0x80" "byte c0 - 0xE0"]
    by (simp add: lead3 cont)
  have "\<And>v. DecodeRuneInString (c0 # c1 # c2 # v) =
      ((byte c0 - 0xE0) * 4096 + (byte c1 - 0x80) * 64 + (byte c2 - 0x80), 3)"
    using three c1 c2 by (simp add: decode_three [OF three(3-6)] rune_value del: push_bit_and)
  moreover have "EncodeRune ((byte c0 - 0xE0) * 4096 + (byte c1 - 0x80) * 64 + (byte c2 - 0x80)) =
      [c0, c1, c2]"
    using three c1 c1' c2 by (intro encode_three) auto
  moreover have "0x80 \<le> (byte c0 - 0xE0) * 4096 + (byte c1 - 0x80) * 64 + (byte c2 - 0x80)"
  proof (cases "byte c0 = 0xE0")
    case True
    then have "0xA0 \<le> byte c1"
      using three c1 by simp
    then show ?thesis
      using True c2 by simp
  next
    case False
    then have "0xE1 \<le> byte c0"
      using three by simp
    then show ?thesis
      using c1' c2 by simp
  qed
  ultimately show ?thesis
    using assms c1' c2 by (simp add: t)
next
  case (four x lo hi)
  from assms four obtain c1 c2 c3 t' where t: "t = c1 # c2 # c3 # t'"
    and c1: "lo \<le> byte c1" "byte c1 \<le> hi" and c2: "0x80 \<le> byte c2" "byte c2 \<le> 0xBF"
    and c3: "0x80 \<le> byte c3" "byte c3 \<le> 0xBF"
    by (auto simp add: decode_four [OF four(3-6)] split: list.splits if_splits)
  have c1': "0x80 \<le> byte c1" "byte c1 \<le> 0xBF"
    using c1 four by simp_all
  have lead: "byte c0 AND mask4 = byte c0 - 0xF0"
    using four by (intro lead4) simp_all
  have rune_value: "push_bit 18 (byte c0 AND mask4) OR push_bit 12 (byte c1 AND maskx) OR
      push_bit 6 (byte c2 AND maskx) OR (byte c3 AND maskx) =
      (byte c0 - 0xF0) * 262144 + (byte c1 - 0x80) * 4096 + (byte c2 - 0x80) * 64 +
      (byte c3 - 0x80)"
    using four c1' c2 c3
      or4 [of "byte c1 - 0x80" "byte c2 - 0x80" "byte c3 - 0x80" "byte c0 - 0xF0"]
    by (simp add: lead cont)
  have "\<And>v. DecodeRuneInString (c0 # c1 # c2 # c3 # v) =
      ((byte c0 - 0xF0) * 262144 + (byte c1 - 0x80) * 4096 + (byte c2 - 0x80) * 64 +
       (byte c3 - 0x80), 4)"
    using four c1 c2 c3 by (simp add: decode_four [OF four(3-6)] rune_value del: push_bit_and)
  moreover have "EncodeRune ((byte c0 - 0xF0) * 262144 + (byte c1 - 0x80) * 4096 +
      (byte c2 - 0x80) * 64 + (byte c3 - 0x80)) = [c0, c1, c2, c3]"
    using four c1 c1' c2 c3 by (intro encode_four) auto
  moreover have "0x80 \<le> (byte c0 - 0xF0) * 262144 + (byte c1 - 0x80) * 4096 +
      (byte c2 - 0x80) * 64 + (byte c3 - 0x80)"
  proof (cases "byte c0 = 0xF0")
    case True
    then have "0x90 \<le> byte c1"
      using four c1 by simp
    then show ?thesis
      using True c2 c3 by simp
  next
    case False
    then have "0xF1 \<le> byte c0"
      using four by simp
    then show ?thesis
      using c1' c2 c3 by simp
  qed
  ultimately show ?thesis
    using assms c1' c2 c3 by (simp add: t)
qed

section \<open>String literals written by the encoder\<close>

text \<open>
  The decoder reads a string literal in two passes: the scanner finds its closing quote,
  then the literal is unquoted. Both are followed here over the text that the encoder
  writes for a string of valid UTF-8, escape by escape.
\<close>

lemma take_split: "k \<le> m \<Longrightarrow> take m s = take k s @ drop k (take m s)"
  by (metis append_take_drop_id min.absorb1 take_take)

lemma take_split': "k \<le> m \<Longrightarrow> s = take k (take m s) @ drop k s"
  by (metis append_take_drop_id min.absorb1 take_take)

lemma decode_take:
  "DecodeRuneInString (take (min (length (c # s)) UTFMax) (c # s)) = DecodeRuneInString (c # s)"
proof -
  let ?t = "take (min (length (c # s)) UTFMax) (c # s)"
  have t: "?t = c # take 3 s"
    by (simp add: UTFMax_def min_def)
  obtain r n where d: "DecodeRuneInString (c # s) = (r, n)"
    by (cases "DecodeRuneInString (c # s)")
  obtain r' n' where d': "DecodeRuneInString (c # take 3 s) = (r', n')"
    by (cases "DecodeRuneInString (c # take 3 s)")
  have n4: "n \<le> 4" "n' \<le> 4"
    using DecodeRuneInString_size [of "c # s"] DecodeRuneInString_size [of "c # take 3 s"] d d'
    by simp_all
  show ?thesis
  proof (cases "r = RuneError \<and> n = 1")
    case False
    from decoded_rune [OF d False]
    have len: "n \<le> length (c # s)" "0 < n"
      and again: "\<And>u. DecodeRuneInString (take n (c # s) @ u) = (r, n)"
      by simp_all
    have "c # take 3 s = take n (c # s) @ drop n (c # take 3 s)"
      using n4 take_split [of n 4 "c # s"] by simp
    then show ?thesis
      using again [of "drop n (c # take 3 s)"] d t by simp
  next
    case True
    show ?thesis
    proof (cases "r' = RuneError \<and> n' = 1")
      case True
      with \<open>r = RuneError \<and> n = 1\<close> d d' t show ?thesis by simp
    next
      case False
      from decoded_rune [OF d' False]
      have len: "n' \<le> length (c # take 3 s)" "0 < n'"
        and again: "\<And>u. DecodeRuneInString (take n' (c # take 3 s) @ u) = (r', n')"
        by simp_all
      have "c # s = take n' (c # take 3 s) @ drop n' (c # s)"
        using n4 take_split' [of n' 4 "c # s"] by simp
      then have "DecodeRuneInString (c # s) = (r', n')"
        using again [of "drop n' (c # s)"] by simp
      with d True False show ?thesis by simp
    qed
  qed
qed

lemma appendStringLoop_ascii:
  assumes "byte c < 0x80"
  shows "appendStringLoop (c # s) =
    (if htmlSafeSet (byte c) then [c] else escapeByte c) @ appendStringLoop s"
  using assms by (simp add: RuneSelf_def)

lemma appendStringLoop_rune:
  assumes "0x80 \<le> byte c" and "DecodeRuneInString (c # s) = (r, k)"
  shows "appendStringLoop (c # s) =
    (if r = RuneError \<and> k = 1 then CHR 0x5C # ''ufffd''
     else if r = 0x2028 \<or> r = 0x2029 then CHR 0x5C # ''u202'' @ [hex ! nat (r AND 0xF)]
     else take k (c # s)) @ appendStringLoop (drop k (c # s))"
proof -
  have "DecodeRuneInString (take (min (length (c # s)) UTFMax) (c # s)) = (r, k)"
    using assms(2) by (simp only: decode_take)
  then show ?thesis
    using assms(1) by (simp add: RuneSelf_def Let_def del: take_Suc_Cons)
qed

lemmas [simp del] = appendStringLoop.simps(2) unquoteLoop.simps(2) plainPrefix.simps(2)
  ValidString.simps(2)

lemma ValidString_ascii: "byte c < 0x80 \<Longrightarrow> ValidString (c # s) \<longleftrightarrow> ValidString s"
  by (simp add: ValidString.simps(2) decode_ascii RuneError_def)

lemma ValidString_rune:
  assumes "DecodeRuneInString (c # s) = (r, k)"
  shows "ValidString (c # s) \<longleftrightarrow> \<not> (r = RuneError \<and> k = 1) \<and> ValidString (drop k (c # s))"
  using assms by (simp add: ValidString.simps(2))

lemma hexDigit_hex:
  fixes n :: int
  assumes "0 \<le> n" "n < 16"
  shows "hexDigit (hex ! nat n) = Some n"
proof -
  from assms have "n \<in> {0, 1, 2, 3, 4, 5, 6, 7, 8, 9, 10, 11, 12, 13, 14, 15}"
    by simp arith
  then show ?thesis
    by (auto simp add: hex_def hexDigit_def)
qed

lemma nibbles: "drop_bit 4 (b::int) * 16 + (b AND 0xF) = b"
  by (simp add: drop_bit_eq_div and_15)

lemma nibble_range:
  fixes b :: int
  assumes "0 \<le> b" "b < 0x80"
  shows "0 \<le> drop_bit 4 b" "drop_bit 4 b < 16" "0 \<le> b AND 0xF" "b AND 0xF < 16"
  using assms by (simp_all add: drop_bit_eq_div and_15)

lemma unquoteLoop_plain:
  assumes "byte c < 0x80" "0x20 \<le> byte c" "c \<noteq> CHR 0x22" "c \<noteq> CHR 0x5C"
  shows "unquoteLoop (c # t) = map_option ((#) c) (unquoteLoop t)"
  using assms by (simp add: unquoteLoop.simps(2) RuneSelf_def)

lemma hexDigit_zero: "hexDigit CHR ''0'' = Some 0"
  by (simp add: hexDigit_def)

lemma append_single: "(@) [c] = (#) c"
  by auto

lemma getu4_escape:
  fixes b :: int
  assumes "0 \<le> b" "b < 0x80"
  shows "getu4 (CHR 0x5C # CHR ''u'' # CHR ''0'' # CHR ''0'' # hex ! nat (drop_bit 4 b) #
    hex ! nat (b AND 0xF) # t) = b"
  using assms nibbles [of b]
  by (simp add: getu4_def hexDigit_hex nibble_range hexDigit_zero)

lemma unquoteLoop_u:
  assumes "getu4 (CHR 0x5C # CHR ''u'' # h1 # h2 # h3 # h4 # t) = r" "0 \<le> r" "\<not> IsSurrogate r"
  shows "unquoteLoop (CHR 0x5C # CHR ''u'' # h1 # h2 # h3 # h4 # t) =
    map_option ((@) (EncodeRune r)) (unquoteLoop t)"
  using assms by (simp add: unquoteLoop.simps(2) Let_def)

lemma EncodeRune_ascii: "byte c < 0x80 \<Longrightarrow> EncodeRune (byte c) = [c]"
  using byte_range [of c] by (simp add: EncodeRune_def)

lemma unsafe_cases:
  assumes "byte c < 0x80" "\<not> htmlSafeSet (byte c)"
  obtains "byte c < 0x20" | "c = CHR 0x22" | "c = CHR ''&''" | "c = CHR ''<''" | "c = CHR ''>''"
    | "c = CHR 0x5C"
proof -
  have eq: "\<And>k. byte c = byte k \<Longrightarrow> c = k"
    by simp
  from assms consider "byte c < 0x20" | "byte c = 0x22" | "byte c = 0x26" | "byte c = 0x3C"
    | "byte c = 0x3E" | "byte c = 0x5C"
    unfolding htmlSafeSet_def by linarith
  then show thesis
  proof cases
    case 1 then show ?thesis by (rule that(1))
  next
    case 2 then show ?thesis by (intro that(2) eq) simp
  next
    case 3 then show ?thesis by (intro that(3) eq) simp
  next
    case 4 then show ?thesis by (intro that(4) eq) simp
  next
    case 5 then show ?thesis by (intro that(5) eq) simp
  next
    case 6 then show ?thesis by (intro that(6) eq) simp
  qed
qed

lemma unquoteLoop_escape:
  assumes "byte c < 0x80" "\<not> htmlSafeSet (byte c)"
  shows "unquoteLoop (escapeByte c @ t) = map_option ((#) c) (unquoteLoop t)"
proof -
  have eq: "\<And>k. byte c = byte k \<Longrightarrow> c = k"
    by simp
  have u: "unquoteLoop (CHR 0x5C # CHR ''u'' # CHR ''0'' # CHR ''0'' #
      hex ! nat (drop_bit 4 (byte c)) # hex ! nat (byte c AND 0xF) # t) =
      map_option ((#) c) (unquoteLoop t)"
  proof -
    have g: "getu4 (CHR 0x5C # CHR ''u'' # CHR ''0'' # CHR ''0'' #
        hex ! nat (drop_bit 4 (byte c)) # hex ! nat (byte c AND 0xF) # t) = byte c"
      using assms byte_range [of c] by (intro getu4_escape) simp_all
    have "\<not> IsSurrogate (byte c)"
      using assms by (simp add: IsSurrogate_def)
    from unquoteLoop_u [OF g _ this] show ?thesis
      using assms byte_range [of c] by (simp add: EncodeRune_ascii append_single)
  qed
  from assms show ?thesis
  proof (cases c rule: unsafe_cases)
    case 1
    consider "byte c = 0x08" | "byte c = 0x0C" | "byte c = 0x0A" | "byte c = 0x0D" | "byte c = 0x09"
      | "byte c \<noteq> 0x08" "byte c \<noteq> 0x0C" "byte c \<noteq> 0x0A" "byte c \<noteq> 0x0D" "byte c \<noteq> 0x09"
      by blast
    then show ?thesis
    proof cases
      case 1
      then have "c = CHR 0x08" by (intro eq) simp
      then show ?thesis by (simp add: escapeByte_def unquoteLoop.simps(2))
    next
      case 2
      then have "c = CHR 0x0C" by (intro eq) simp
      then show ?thesis by (simp add: escapeByte_def unquoteLoop.simps(2))
    next
      case 3
      then have "c = CHR 0x0A" by (intro eq) simp
      then show ?thesis by (simp add: escapeByte_def unquoteLoop.simps(2))
    next
      case 4
      then have "c = CHR 0x0D" by (intro eq) simp
      then show ?thesis by (simp add: escapeByte_def unquoteLoop.simps(2))
    next
      case 5
      then have "c = CHR 0x09" by (intro eq) simp
      then show ?thesis by (simp add: escapeByte_def unquoteLoop.simps(2))
    next
      case 6
      with \<open>byte c < 0x20\<close> have "escapeByte c = [CHR 0x5C, CHR ''u'', CHR ''0'', CHR ''0'',
          hex ! nat (drop_bit 4 (byte c)), hex ! nat (byte c AND 0xF)]"
        by (simp add: escapeByte_def Let_def)
      then show ?thesis
        using u by simp
    qed
  next
    case 2
    then show ?thesis by (simp add: escapeByte_def unquoteLoop.simps(2))
  next
    case 3
    then show ?thesis using u by (simp add: escapeByte_def)
  next
    case 4
    then show ?thesis using u by (simp add: escapeByte_def)
  next
    case 5
    then show ?thesis using u by (simp add: escapeByte_def)
  next
    case 6
    then show ?thesis by (simp add: escapeByte_def unquoteLoop.simps(2))
  qed
qed

lemma unquoteLoop_rune:
  assumes "0x80 \<le> byte c" and d: "DecodeRuneInString (c # s) = (r, k)"
    and ok: "\<not> (r = RuneError \<and> k = 1)"
  shows "unquoteLoop (take k (c # s) @ t) = map_option ((@) (take k (c # s))) (unquoteLoop t)"
proof -
  from decoded_rune [OF d ok, of t]
  have enc: "EncodeRune r = take k (c # s)" and len: "k \<le> length (c # s)" "0 < k"
    and again: "DecodeRuneInString (take k (c # s) @ t) = (r, k)"
    by simp_all
  obtain k' where k: "k = Suc k'"
    using len by (cases k) simp_all
  have "take k (c # s) @ t = c # (take k' s @ t)"
    by (simp add: k)
  moreover have "c \<noteq> CHR 0x5C" "c \<noteq> CHR 0x22" "\<not> byte c < 0x20" "\<not> byte c < RuneSelf"
    using assms(1) by (auto simp add: RuneSelf_def)
  ultimately have "unquoteLoop (take k (c # s) @ t) =
      map_option ((@) (EncodeRune r)) (unquoteLoop (drop k (take k (c # s) @ t)))"
    using again by (simp add: unquoteLoop.simps(2) Let_def)
  then show ?thesis
    using len by (simp add: enc)
qed

lemma unquoteLoop_separator:
  assumes d: "DecodeRuneInString (c # s) = (r, k)" and r: "r = 0x2028 \<or> r = 0x2029"
  shows "unquoteLoop (CHR 0x5C # ''u202'' @ [hex ! nat (r AND 0xF)] @ t) =
    map_option ((@) (take k (c # s))) (unquoteLoop t)"
proof -
  have ok: "\<not> (r = RuneError \<and> k = 1)"
    using r by (auto simp add: RuneError_def)
  from decoded_rune [OF d ok, of t] have enc: "EncodeRune r = take k (c # s)"
    by simp
  have g: "getu4 (CHR 0x5C # CHR ''u'' # CHR ''2'' # CHR ''0'' # CHR ''2'' #
      hex ! nat (r AND 0xF) # t) = r"
    using r by (auto simp add: getu4_def hexDigit_def hex_def)
  have "0 \<le> r" "\<not> IsSurrogate r"
    using r by (auto simp add: IsSurrogate_def)
  from unquoteLoop_u [OF g this] show ?thesis
    by (simp add: enc)
qed

text \<open>Decoding the text that the encoder wrote for a valid string gives the string.\<close>

lemma unquoteLoop_appendStringLoop:
  "ValidString s \<Longrightarrow> unquoteLoop (appendStringLoop s @ t) = map_option ((@) s) (unquoteLoop t)"
proof (induction s rule: length_induct)
  case (1 s)
  show ?case
  proof (cases s)
    case Nil
    then show ?thesis
      by (simp add: option.map_ident)
  next
    case (Cons c s')
    show ?thesis
    proof (cases "byte c < 0x80")
      case True
      then have valid: "ValidString s'"
        using "1.prems" Cons by (simp add: ValidString_ascii)
      have ih: "unquoteLoop (appendStringLoop s' @ t) = map_option ((@) s') (unquoteLoop t)"
        using "1.IH" valid Cons by simp
      show ?thesis
      proof (cases "htmlSafeSet (byte c)")
        case safe: True
        then have "0x20 \<le> byte c" "c \<noteq> CHR 0x22" "c \<noteq> CHR 0x5C"
          by (auto simp add: htmlSafeSet_def)
        then show ?thesis
          using True safe ih
          by (simp add: Cons appendStringLoop_ascii unquoteLoop_plain option.map_comp comp_def)
      next
        case False
        then show ?thesis
          using True ih
          by (simp add: Cons appendStringLoop_ascii unquoteLoop_escape option.map_comp comp_def)
      qed
    next
      case False
      obtain r k where d: "DecodeRuneInString (c # s') = (r, k)"
        by (cases "DecodeRuneInString (c # s')")
      have ok: "\<not> (r = RuneError \<and> k = 1)" and valid: "ValidString (drop k (c # s'))"
        using "1.prems" Cons by (simp_all add: ValidString_rune [OF d])
      from decoded_rune [OF d ok] have len: "k \<le> length (c # s')" "0 < k"
        by simp_all
      have ih: "unquoteLoop (appendStringLoop (drop k (c # s')) @ t) =
          map_option ((@) (drop k (c # s'))) (unquoteLoop t)"
        using "1.IH" valid len Cons by simp
      have split: "take k (c # s') @ drop k (c # s') = c # s'"
        by simp
      show ?thesis
      proof (cases "r = 0x2028 \<or> r = 0x2029")
        case True
        then have "r \<noteq> RuneError"
          by (auto simp add: RuneError_def)
        then have "unquoteLoop (appendStringLoop (c # s') @ t) =
            map_option ((@) (take k (c # s')))
              (unquoteLoop (appendStringLoop (drop k (c # s')) @ t))"
          using False True unquoteLoop_separator [OF d True]
          by (simp add: appendStringLoop_rune [OF _ d])
        then show ?thesis
          using split by (simp add: Cons ih option.map_comp comp_def flip: append_assoc)
      next
        case plain: False
        have ok': "(r = RuneError \<and> k = Suc 0) = False"
          using ok by simp
        have "unquoteLoop (appendStringLoop (c # s') @ t) =
            map_option ((@) (take k (c # s')))
              (unquoteLoop (appendStringLoop (drop k (c # s')) @ t))"
          using False plain unquoteLoop_rune [OF _ d ok]
          by (simp add: appendStringLoop_rune [OF _ d] ok')
        then show ?thesis
          using split by (simp add: Cons ih option.map_comp comp_def flip: append_assoc)
      qed
    qed
  qed
qed

lemma unquoteLoop_plainPrefix:
  "plainPrefix t \<le> length t \<and>
   unquoteLoop t =
     map_option ((@) (take (plainPrefix t) t)) (unquoteLoop (drop (plainPrefix t) t))"
proof (induction t rule: length_induct)
  case (1 t)
  show ?case
  proof (cases t)
    case Nil
    then show ?thesis by simp
  next
    case (Cons c t')
    consider (stop) "c = CHR 0x5C \<or> c = CHR 0x22 \<or> byte c < 0x20"
      | (ascii) "c \<noteq> CHR 0x5C" "c \<noteq> CHR 0x22" "0x20 \<le> byte c" "byte c < 0x80"
      | (rune) "0x80 \<le> byte c"
      by linarith
    then show ?thesis
    proof cases
      case stop
      then have "plainPrefix (c # t') = 0"
        by (auto simp add: plainPrefix.simps(2))
      then show ?thesis
        by (simp add: Cons option.map_ident)
    next
      case ascii
      let ?p = "plainPrefix t'"
      have p: "plainPrefix (c # t') = Suc ?p"
        using ascii by (simp add: plainPrefix.simps(2) RuneSelf_def)
      have ih: "?p \<le> length t'"
        "unquoteLoop t' = map_option ((@) (take ?p t')) (unquoteLoop (drop ?p t'))"
        using "1.IH" [rule_format, of t'] by (simp_all only: Cons list.size)
      have "unquoteLoop (c # t') = map_option ((#) c) (unquoteLoop t')"
        using ascii by (intro unquoteLoop_plain)
      also have "\<dots> = map_option ((#) c)
          (map_option ((@) (take ?p t')) (unquoteLoop (drop ?p t')))"
        by (subst ih(2)) (rule refl)
      also have "\<dots> = map_option ((@) (take (Suc ?p) (c # t')))
          (unquoteLoop (drop (Suc ?p) (c # t')))"
        by (cases "unquoteLoop (drop ?p t')") simp_all
      finally have "unquoteLoop (c # t') = map_option ((@) (take (Suc ?p) (c # t')))
          (unquoteLoop (drop (Suc ?p) (c # t')))" .
      moreover have "Suc ?p \<le> length (c # t')"
        using ih(1) by simp
      ultimately show ?thesis
        by (simp only: Cons p)
    next
      case rune
      obtain r k where d: "DecodeRuneInString (c # t') = (r, k)"
        by (cases "DecodeRuneInString (c # t')")
      have high: "c \<noteq> CHR 0x5C" "c \<noteq> CHR 0x22" "\<not> byte c < 0x20" "\<not> byte c < 0x80"
        using rune by auto
      show ?thesis
      proof (cases "r = RuneError \<and> k = 1")
        case True
        then have "plainPrefix (c # t') = 0"
          using high d by (simp add: plainPrefix.simps(2) RuneSelf_def)
        then show ?thesis
          by (simp add: Cons option.map_ident)
      next
        case False
        from decoded_rune [OF d False] have len: "k \<le> length (c # t')" "0 < k"
          by simp_all
        let ?rest = "drop k (c # t')"
        let ?p = "plainPrefix ?rest"
        have ok': "(r = RuneError \<and> k = Suc 0) = False"
          using False by simp
        have p: "plainPrefix (c # t') = k + ?p"
          using high d by (simp add: plainPrefix.simps(2) RuneSelf_def ok')
        have shorter: "length ?rest < length t"
          using len by (simp add: Cons)
        have ih: "?p \<le> length ?rest"
          "unquoteLoop ?rest = map_option ((@) (take ?p ?rest)) (unquoteLoop (drop ?p ?rest))"
          using "1.IH" [rule_format, OF shorter] by blast+
        have "unquoteLoop (take k (c # t') @ ?rest) =
            map_option ((@) (take k (c # t'))) (unquoteLoop ?rest)"
          using rune by (intro unquoteLoop_rune [OF _ d False]) simp
        then have "unquoteLoop (c # t') = map_option ((@) (take k (c # t'))) (unquoteLoop ?rest)"
          by (simp only: append_take_drop_id)
        also have "\<dots> = map_option ((@) (take k (c # t')))
            (map_option ((@) (take ?p ?rest)) (unquoteLoop (drop ?p ?rest)))"
          by (subst ih(2)) (rule refl)
        also have "\<dots> = map_option ((@) (take k (c # t') @ take ?p ?rest))
            (unquoteLoop (drop ?p ?rest))"
          by (cases "unquoteLoop (drop ?p ?rest)") simp_all
        also have "take k (c # t') @ take ?p ?rest = take (k + ?p) (c # t')"
          by (simp only: take_add)
        also have "drop ?p ?rest = drop (k + ?p) (c # t')"
          by (simp only: drop_drop add.commute)
        finally have "unquoteLoop (c # t') = map_option ((@) (take (k + ?p) (c # t')))
            (unquoteLoop (drop (k + ?p) (c # t')))" .
        moreover have "k + ?p \<le> length (c # t')"
          using ih(1) len by simp
        ultimately show ?thesis
          by (simp only: Cons p) 
      qed
    qed
  qed
qed

lemma unquoteBytes_quoted: "unquoteBytes (CHR 0x22 # t @ [CHR 0x22]) = unquoteLoop t"
proof -
  let ?p = "plainPrefix t"
  have u: "unquoteBytes (CHR 0x22 # t @ [CHR 0x22]) =
      (if ?p = length t then Some t else map_option ((@) (take ?p t)) (unquoteLoop (drop ?p t)))"
    by (simp add: unquoteBytes_def Let_def)
  have l: "unquoteLoop t = map_option ((@) (take ?p t)) (unquoteLoop (drop ?p t))"
    using unquoteLoop_plainPrefix [of t] by (rule conjunct2)
  show ?thesis
  proof (cases "?p = length t")
    case True
    have "map_option ((@) (take ?p t)) (unquoteLoop (drop ?p t)) = Some t"
      unfolding True by simp
    then show ?thesis
      unfolding u l using True by simp
  next
    case False
    then show ?thesis
      unfolding u by (subst l) simp
  qed
qed

lemmas [simp del] = scanString.simps(2)

lemma scanString_high:
  assumes "\<forall>x\<in>set p. 0x80 \<le> byte x" and "scanString t = Some (raw, rest)"
  shows "scanString (p @ t) = Some (p @ raw, rest)"
  using assms(1)
proof (induction p)
  case Nil
  show ?case
    using assms(2) by simp
next
  case (Cons c p)
  then have "c \<noteq> CHR 0x22" "c \<noteq> CHR 0x5C" "\<not> byte c < 0x20"
    by auto
  then show ?case
    using Cons by (simp add: scanString.simps(2))
qed

lemma scanString_plain:
  assumes "htmlSafeSet (byte c)" and "scanString t = Some (raw, rest)"
  shows "scanString (c # t) = Some (c # raw, rest)"
proof -
  from assms have "c \<noteq> CHR 0x22" "c \<noteq> CHR 0x5C" "\<not> byte c < 0x20"
    by (auto simp add: htmlSafeSet_def)
  then show ?thesis
    using assms(2) by (simp add: scanString.simps(2))
qed

lemma scanString_short_escape:
  assumes "e = CHR 0x22 \<or> e = CHR 0x5C \<or> e = CHR ''b'' \<or> e = CHR ''f'' \<or> e = CHR ''n'' \<or>
      e = CHR ''r'' \<or> e = CHR ''t''"
    and "scanString t = Some (raw, rest)"
  shows "scanString (CHR 0x5C # e # t) = Some (CHR 0x5C # e # raw, rest)"
  using assms by (auto simp add: scanString.simps(2))

lemma scanString_u_escape:
  assumes "hexDigit h1 \<noteq> None" "hexDigit h2 \<noteq> None" "hexDigit h3 \<noteq> None" "hexDigit h4 \<noteq> None"
    and "scanString t = Some (raw, rest)"
  shows "scanString (CHR 0x5C # CHR ''u'' # h1 # h2 # h3 # h4 # t) =
    Some (CHR 0x5C # CHR ''u'' # h1 # h2 # h3 # h4 # raw, rest)"
  using assms by (simp add: scanString.simps(2))

lemma scanString_escape:
  assumes "byte c < 0x80" "\<not> htmlSafeSet (byte c)" and t: "scanString t = Some (raw, rest)"
  shows "scanString (escapeByte c @ t) = Some (escapeByte c @ raw, rest)"
proof -
  have r: "0 \<le> drop_bit 4 (byte c)" "drop_bit 4 (byte c) < 16" "0 \<le> byte c AND 0xF"
    "byte c AND 0xF < 16"
    using assms byte_range [of c] by (simp_all add: nibble_range)
  have h: "hexDigit CHR ''0'' \<noteq> None" "hexDigit (hex ! nat (drop_bit 4 (byte c))) \<noteq> None"
    "hexDigit (hex ! nat (byte c AND 0xF)) \<noteq> None"
    using r by (simp_all add: hexDigit_hex hexDigit_zero)
  note u = scanString_u_escape [OF h(1) h(1) h(2) h(3) t]
  have eq: "\<And>k. byte c = byte k \<Longrightarrow> c = k"
    by simp
  have quote: "byte c = 0x22 \<Longrightarrow> c = CHR 0x22" and backslash: "byte c = 0x5C \<Longrightarrow> c = CHR 0x5C"
    by (intro eq, simp)+
  have "(\<exists>e. escapeByte c = [CHR 0x5C, e] \<and>
        (e = CHR 0x22 \<or> e = CHR 0x5C \<or> e = CHR ''b'' \<or> e = CHR ''f'' \<or> e = CHR ''n'' \<or>
         e = CHR ''r'' \<or> e = CHR ''t'')) \<or>
      escapeByte c = [CHR 0x5C, CHR ''u'', CHR ''0'', CHR ''0'',
        hex ! nat (drop_bit 4 (byte c)), hex ! nat (byte c AND 0xF)]"
    using quote backslash unfolding escapeByte_def Let_def by auto
  then consider (short) e where "escapeByte c = [CHR 0x5C, e]"
      "e = CHR 0x22 \<or> e = CHR 0x5C \<or> e = CHR ''b'' \<or> e = CHR ''f'' \<or> e = CHR ''n'' \<or>
       e = CHR ''r'' \<or> e = CHR ''t''"
    | (long) "escapeByte c = [CHR 0x5C, CHR ''u'', CHR ''0'', CHR ''0'',
        hex ! nat (drop_bit 4 (byte c)), hex ! nat (byte c AND 0xF)]"
    by blast
  then show ?thesis
  proof cases
    case short
    then show ?thesis
      using scanString_short_escape [OF short(2) t] by simp
  next
    case long
    then show ?thesis
      using u by simp
  qed
qed

lemma scanString_replacement:
  assumes "scanString t = Some (raw, rest)"
  shows "scanString (CHR 0x5C # ''ufffd'' @ t) = Some (CHR 0x5C # ''ufffd'' @ raw, rest)"
proof -
  have "hexDigit CHR ''f'' \<noteq> None" "hexDigit CHR ''d'' \<noteq> None"
    by (simp_all add: hexDigit_def)
  then show ?thesis
    using scanString_u_escape [of "CHR ''f''" "CHR ''f''" "CHR ''f''" "CHR ''d''", OF _ _ _ _ assms]
    by simp
qed

lemma scanString_separator:
  assumes "r = 0x2028 \<or> r = 0x2029" and "scanString t = Some (raw, rest)"
  shows "scanString (CHR 0x5C # ''u202'' @ [hex ! nat (r AND 0xF)] @ t) =
    Some (CHR 0x5C # ''u202'' @ [hex ! nat (r AND 0xF)] @ raw, rest)"
proof -
  have "hexDigit CHR ''2'' \<noteq> None" "hexDigit CHR ''0'' \<noteq> None"
    "hexDigit (hex ! nat (r AND 0xF)) \<noteq> None"
    using assms(1) by (auto simp add: hexDigit_def hex_def)
  then show ?thesis
    using scanString_u_escape [of "CHR ''2''" "CHR ''0''" "CHR ''2''" "hex ! nat (r AND 0xF)",
        OF _ _ _ _ assms(2)]
    by simp
qed

text \<open>The scanner finds the end of a literal that the encoder wrote.\<close>

lemma scanString_appendStringLoop:
  "scanString (appendStringLoop s @ CHR 0x22 # rest) = Some (appendStringLoop s, rest)"
proof (induction s rule: length_induct)
  case (1 s)
  show ?case
  proof (cases s)
    case Nil
    then show ?thesis by (simp add: scanString.simps(2))
  next
    case (Cons c s')
    show ?thesis
    proof (cases "byte c < 0x80")
      case True
      have ih: "scanString (appendStringLoop s' @ CHR 0x22 # rest) = Some (appendStringLoop s', rest)"
        using "1.IH" Cons by simp
      show ?thesis
      proof (cases "htmlSafeSet (byte c)")
        case safe: True
        then show ?thesis
          using True scanString_plain [OF safe ih] by (simp add: Cons appendStringLoop_ascii)
      next
        case False
        then show ?thesis
          using True scanString_escape [OF True False ih]
          by (simp add: Cons appendStringLoop_ascii)
      qed
    next
      case False
      obtain r k where d: "DecodeRuneInString (c # s') = (r, k)"
        by (cases "DecodeRuneInString (c # s')")
      have k: "0 < k"
        using DecodeRuneInString_Cons [of c s'] d by simp
      have ih: "scanString (appendStringLoop (drop k (c # s')) @ CHR 0x22 # rest) =
          Some (appendStringLoop (drop k (c # s')), rest)"
        using "1.IH" Cons k by simp
      show ?thesis
      proof (cases "r = RuneError \<and> k = 1")
        case True
        then show ?thesis
          using False scanString_replacement [OF ih]
          by (simp add: Cons appendStringLoop_rune [OF _ d])
      next
        case valid: False
        then have ok': "(r = RuneError \<and> k = Suc 0) = False"
          by simp
        show ?thesis
        proof (cases "r = 0x2028 \<or> r = 0x2029")
          case True
          then show ?thesis
            using False scanString_separator [OF True ih]
            by (simp add: Cons appendStringLoop_rune [OF _ d] ok')
        next
          case plain: False
          from decoded_rune [OF d valid] False
          have "\<forall>x\<in>set (take k (c # s')). 0x80 \<le> byte x"
            by simp
          from scanString_high [OF this ih] show ?thesis
            using False plain
            by (simp add: Cons appendStringLoop_rune [OF _ d] ok')
        qed
      qed
    qed
  qed
qed

lemma parseString_appendStringLoop:
  assumes "ValidString s"
  shows "parseString (appendStringLoop s @ CHR 0x22 # rest) = Some (s, rest)"
proof -
  have "unquoteLoop (appendStringLoop s @ []) = map_option ((@) s) (unquoteLoop [])"
    using assms by (rule unquoteLoop_appendStringLoop)
  then have "unquoteLoop (appendStringLoop s) = Some s"
    by simp
  then show ?thesis
    by (simp add: parseString_def scanString_appendStringLoop unquoteBytes_quoted)
qed

section \<open>Integers written by the encoder\<close>

text \<open>
  The decimal text of a 64-bit integer is a number literal of JSON, and parsing it gives
  the integer back.
\<close>

lemmas [simp del] = formatBits.simps

lemma digit_char:
  fixes d :: int
  assumes "0 \<le> d" "d < 10"
  shows "isDigit (digits ! nat d)" "byte (digits ! nat d) - 0x30 = d"
    "d \<noteq> 0 \<Longrightarrow> digits ! nat d \<noteq> CHR ''0''"
proof -
  from assms have "d = 0 \<or> d = 1 \<or> d = 2 \<or> d = 3 \<or> d = 4 \<or> d = 5 \<or> d = 6 \<or> d = 7 \<or> d = 8 \<or> d = 9"
    by arith
  then show "isDigit (digits ! nat d)" "byte (digits ! nat d) - 0x30 = d"
    "d \<noteq> 0 \<Longrightarrow> digits ! nat d \<noteq> CHR ''0''"
    by (elim disjE; simp add: digits_def isDigit_def)+
qed

lemma formatBits_digits:
  "0 \<le> u \<Longrightarrow> formatBits u \<noteq> [] \<and> (\<forall>c\<in>set (formatBits u). isDigit c) \<and>
     (0 < u \<longrightarrow> hd (formatBits u) \<noteq> CHR ''0'')"
proof (induction u rule: formatBits.induct)
  case (1 u)
  show ?case
  proof (cases "u < 10")
    case True
    then show ?thesis
      using "1.prems" by (subst (1 2 3) formatBits.simps) (simp add: digit_char)
  next
    case False
    then have ih: "formatBits (u div 10) \<noteq> []" "\<forall>c\<in>set (formatBits (u div 10)). isDigit c"
      "hd (formatBits (u div 10)) \<noteq> CHR ''0''"
      using "1.IH" "1.prems" by simp_all
    have "formatBits u = formatBits (u div 10) @ [digits ! nat (u mod 10)]"
      using False by (subst formatBits.simps) simp
    then show ?thesis
      using ih by (simp add: digit_char)
  qed
qed

lemma digitsValue_formatBits:
  "0 \<le> u \<Longrightarrow> digitsValue n (formatBits u @ rest) =
     digitsValue (n * 10 ^ length (formatBits u) + u) rest"
proof (induction u arbitrary: n rest rule: formatBits.induct)
  case (1 u)
  show ?case
  proof (cases "u < 10")
    case True
    then have "formatBits u = [digits ! nat u]"
      by (subst formatBits.simps) simp
    then show ?thesis
      using True "1.prems" by (simp add: digit_char)
  next
    case False
    let ?hi = "formatBits (u div 10)"
    let ?lo = "digits ! nat (u mod 10)"
    have f: "formatBits u = ?hi @ [?lo]"
      using False by (subst formatBits.simps) simp
    have "digitsValue n (?hi @ ?lo # rest) =
        digitsValue (n * 10 ^ length ?hi + u div 10) (?lo # rest)"
      using "1.IH" [of n "?lo # rest"] False "1.prems" by simp
    also have "\<dots> = digitsValue ((n * 10 ^ length ?hi + u div 10) * 10 + u mod 10) rest"
      by (simp add: digit_char)
    also have "(n * 10 ^ length ?hi + u div 10) * 10 + u mod 10 = n * 10 ^ length (formatBits u) + u"
      by (simp add: f algebra_simps)
    finally show ?thesis
      by (simp add: f)
  qed
qed

lemma ParseUint_formatBits: "0 \<le> u \<Longrightarrow> ParseUint (formatBits u) = Some u"
  using digitsValue_formatBits [of u 0 "[]"] formatBits_digits [of u]
  by (simp add: ParseUint_def)

lemma ParseInt_FormatInt: "ParseInt (FormatInt i) = Some (sint i)"
proof (cases "sint i < 0")
  case True
  have "- sint i \<le> 2 ^ 63"
    using sint_ge [of i] by simp
  then show ?thesis
    using True by (simp add: ParseInt_def FormatInt_def ParseUint_formatBits)
next
  case False
  have lt: "sint i < 2 ^ 63"
    using sint_lt [of i] by simp
  have "isDigit (hd (formatBits (sint i)))" "formatBits (sint i) \<noteq> []"
    using formatBits_digits [of "sint i"] False by (simp_all add: hd_in_set)
  then have "hd (formatBits (sint i)) \<noteq> CHR ''-''" "hd (formatBits (sint i)) \<noteq> CHR ''+''"
    by (auto simp add: isDigit_def)
  then show ?thesis
    using False lt \<open>formatBits (sint i) \<noteq> []\<close>
    by (simp add: ParseInt_def FormatInt_def ParseUint_formatBits)
qed

lemma scan_tail:
  assumes "x \<noteq> CHR ''.''" "x \<noteq> CHR ''e''" "x \<noteq> CHR ''E''"
  shows "scanFraction lit (x # rest) = Some (lit, x # rest)"
  using assms by (simp add: scanFraction_def scanExponent_def)

lemma scanNumber_formatBits:
  assumes "0 \<le> u" "\<not> isDigit x" "x \<noteq> CHR ''.''" "x \<noteq> CHR ''e''" "x \<noteq> CHR ''E''"
    and that: "sign = [] \<or> sign = ''-''"
  shows "scanNumber (sign @ formatBits u @ x # rest) = Some (sign @ formatBits u, x # rest)"
proof -
  obtain d ds where f: "formatBits u = d # ds"
    using formatBits_digits [OF assms(1)] by (cases "formatBits u") auto
  have digits: "isDigit d" "\<forall>c\<in>set ds. isDigit c"
    using formatBits_digits [OF assms(1)] f by simp_all
  have d: "d \<noteq> CHR ''-''"
    using digits by (auto simp add: isDigit_def)
  have tw: "takeWhile isDigit (ds @ x # rest) = ds" "dropWhile isDigit (ds @ x # rest) = x # rest"
    using digits assms(2) by (simp_all add: takeWhile_tail dropWhile_append3)
  have zero: "d = CHR ''0'' \<Longrightarrow> ds = []"
  proof -
    assume "d = CHR ''0''"
    then have "\<not> 0 < u"
      using formatBits_digits [OF assms(1)] f by auto
    then have "u = 0"
      using assms(1) by simp
    then have "formatBits u = [digits ! nat 0]"
      by (subst formatBits.simps) simp
    then show "ds = []"
      using f by simp
  qed
  have "scanNumber (sign @ d # ds @ x # rest) = Some (sign @ d # ds, x # rest)"
    using that d digits(1) tw zero assms(3-5)
    by (auto simp add: scanNumber_def Let_def scan_tail)
  then show ?thesis
    by (simp add: f)
qed

lemma scanNumber_FormatInt:
  assumes "\<not> isDigit x" "x \<noteq> CHR ''.''" "x \<noteq> CHR ''e''" "x \<noteq> CHR ''E''"
  shows "scanNumber (FormatInt i @ x # rest) = Some (FormatInt i, x # rest)"
proof (cases "sint i < 0")
  case True
  then show ?thesis
    using scanNumber_formatBits [of "- sint i" x "''-''" rest] assms
    by (simp add: FormatInt_def)
next
  case False
  then show ?thesis
    using scanNumber_formatBits [of "sint i" x "[]" rest] assms
    by (simp add: FormatInt_def)
qed

lemma FormatInt_first:
  "FormatInt i \<noteq> [] \<and> (hd (FormatInt i) = CHR ''-'' \<or> isDigit (hd (FormatInt i)))"
proof (cases "sint i < 0")
  case True
  then show ?thesis by (simp add: FormatInt_def)
next
  case False
  then show ?thesis
    using formatBits_digits [of "sint i"] by (simp add: FormatInt_def hd_in_set)
qed

section \<open>Parsing the text of a request\<close>

text \<open>
  The parser's recursion is bounded by the length of its input. The lemmas below follow
  it over the text of a request, member by member and element by element: a bound that
  is at least the length of a value's text is enough to parse that value, whatever
  follows it.
\<close>

lemmas [simp del] = parseValue.simps parseElements.simps parseMembers.simps

lemma skipSpace_Cons: "\<not> isSpace c \<Longrightarrow> skipSpace (c # s) = c # s"
  by (simp add: skipSpace_def)

lemma not_space:
  "\<not> isSpace CHR 0x22" "\<not> isSpace CHR ''{''" "\<not> isSpace CHR ''}''" "\<not> isSpace CHR ''[''"
  "\<not> isSpace CHR '']''" "\<not> isSpace CHR '':''" "\<not> isSpace CHR '',''" "\<not> isSpace CHR ''n''"
  by (simp_all add: isSpace_def)

lemma appendString_Cons: "appendString s @ rest = CHR 0x22 # appendStringLoop s @ CHR 0x22 # rest"
  by (simp add: appendString_def)

lemma parseValue_string:
  assumes "ValidString s"
  shows "parseValue (Suc n) d (appendString s @ rest) = Some (JString s, rest)"
  using assms
  by (simp add: parseValue.simps(2) appendString_Cons skipSpace_Cons not_space
      parseString_appendStringLoop)

lemma parseValue_int:
  assumes "\<not> isDigit x" "x \<noteq> CHR ''.''" "x \<noteq> CHR ''e''" "x \<noteq> CHR ''E''"
  shows "parseValue (Suc n) d (FormatInt i @ x # rest) = Some (JNumber (FormatInt i), x # rest)"
proof -
  obtain c cs where f: "FormatInt i = c # cs"
    using FormatInt_first [of i] by (cases "FormatInt i") auto
  have c: "c = CHR ''-'' \<or> isDigit c"
    using FormatInt_first [of i] f by simp
  then have "\<not> isSpace c" "c \<noteq> CHR ''{''" "c \<noteq> CHR ''[''" "c \<noteq> CHR 0x22"
    by (auto simp add: isSpace_def isDigit_def)
  moreover have "scanNumber (c # cs @ x # rest) = Some (c # cs, x # rest)"
    using scanNumber_FormatInt [OF assms, of i rest] f by simp
  ultimately show ?thesis
    using c by (simp add: parseValue.simps(2) f skipSpace_Cons)
qed

lemma parseMembers_more:
  assumes "ValidString k"
    and "parseValue n d (text @ CHR '','' # tail) = Some (v, CHR '','' # tail)"
    and "parseMembers n d tail = Some (ms, rest)"
  shows "parseMembers (Suc n) d (appendString k @ CHR '':'' # text @ CHR '','' # tail) =
    Some ((k, v) # ms, rest)"
  using assms
  by (simp add: parseMembers.simps(2) appendString_Cons skipSpace_Cons not_space
      parseString_appendStringLoop)

lemma parseMembers_last:
  assumes "ValidString k"
    and "parseValue n d (text @ CHR ''}'' # rest) = Some (v, CHR ''}'' # rest)"
  shows "parseMembers (Suc n) d (appendString k @ CHR '':'' # text @ CHR ''}'' # rest) =
    Some ([(k, v)], rest)"
  using assms
  by (simp add: parseMembers.simps(2) appendString_Cons skipSpace_Cons not_space
      parseString_appendStringLoop)

lemma parseValue_object:
  assumes "d < maxNestingDepth"
    and "parseMembers n (Suc d) (appendString k @ tail) = Some (ms, rest)"
  shows "parseValue (Suc n) d (CHR ''{'' # appendString k @ tail) = Some (JObject ms, rest)"
  using assms
  by (simp add: parseValue.simps(2) appendString_Cons skipSpace_Cons not_space)

lemma parseElements_more:
  assumes "parseValue n d (text @ CHR '','' # tail) = Some (v, CHR '','' # tail)"
    and "parseElements n d tail = Some (vs, rest)"
  shows "parseElements (Suc n) d (text @ CHR '','' # tail) = Some (v # vs, rest)"
  using assms by (simp add: parseElements.simps(2) skipSpace_Cons not_space)

lemma parseElements_last:
  assumes "parseValue n d (text @ CHR '']'' # rest) = Some (v, CHR '']'' # rest)"
  shows "parseElements (Suc n) d (text @ CHR '']'' # rest) = Some ([v], rest)"
  using assms by (simp add: parseElements.simps(2) skipSpace_Cons not_space)

lemma appendString_length: "2 \<le> length (appendString s)"
  by (simp add: appendString_def)

lemma FormatInt_length: "1 \<le> length (FormatInt i)"
  using FormatInt_first [of i] by (cases "FormatInt i") simp_all

lemma parseValue_string_text:
  assumes "ValidString s" "length (appendString s) \<le> m"
  shows "parseValue m d (appendString s @ rest) = Some (JString s, rest)"
proof -
  obtain n where "m = Suc n"
    using assms(2) appendString_length [of s] by (cases m) simp_all
  then show ?thesis
    using parseValue_string [OF assms(1)] by simp
qed

lemma parseValue_int_text:
  assumes "\<not> isDigit x" "x \<noteq> CHR ''.''" "x \<noteq> CHR ''e''" "x \<noteq> CHR ''E''"
    and "length (FormatInt i) \<le> m"
  shows "parseValue m d (FormatInt i @ x # rest) = Some (JNumber (FormatInt i), x # rest)"
proof -
  obtain n where "m = Suc n"
    using assms(5) FormatInt_length [of i] by (cases m) simp_all
  then show ?thesis
    using parseValue_int [OF assms(1-4)] by simp
qed

lemma parseMembers_more_text:
  assumes "ValidString k"
    and "\<And>n rest. length body \<le> n \<Longrightarrow> parseValue n d (body @ rest) = Some (v, rest)"
    and "\<And>n. length tail + 1 \<le> n \<Longrightarrow> parseMembers n d (tail @ CHR ''}'' # rest) = Some (ms, rest)"
    and "length (appendString k @ CHR '':'' # body @ CHR '','' # tail) + 1 \<le> m"
  shows "parseMembers m d ((appendString k @ CHR '':'' # body @ CHR '','' # tail) @ CHR ''}'' # rest) =
    Some ((k, v) # ms, rest)"
proof -
  obtain n where m: "m = Suc n"
    using assms(4) by (cases m) simp_all
  have "parseValue n d (body @ CHR '','' # tail @ CHR ''}'' # rest) =
      Some (v, CHR '','' # tail @ CHR ''}'' # rest)"
    using assms(4) m by (intro assms(2)) simp
  moreover have "parseMembers n d (tail @ CHR ''}'' # rest) = Some (ms, rest)"
    using assms(4) m by (intro assms(3)) simp
  ultimately show ?thesis
    using parseMembers_more [OF assms(1), of n d body "tail @ CHR ''}'' # rest" v ms rest] m
    by simp
qed

lemma parseMembers_last_text:
  assumes "ValidString k"
    and "\<And>n rest. length body \<le> n \<Longrightarrow> parseValue n d (body @ rest) = Some (v, rest)"
    and "length (appendString k @ CHR '':'' # body) + 1 \<le> m"
  shows "parseMembers m d ((appendString k @ CHR '':'' # body) @ CHR ''}'' # rest) =
    Some ([(k, v)], rest)"
proof -
  obtain n where m: "m = Suc n"
    using assms(3) by (cases m) simp_all
  have "parseValue n d (body @ CHR ''}'' # rest) = Some (v, CHR ''}'' # rest)"
    using assms(3) m by (intro assms(2)) simp
  then show ?thesis
    using parseMembers_last [OF assms(1), of n d body rest v] m by simp
qed

lemma parseValue_object_text:
  assumes "d < maxNestingDepth"
    and "\<And>n. length (appendString k @ tail) + 1 \<le> n \<Longrightarrow>
      parseMembers n (Suc d) ((appendString k @ tail) @ CHR ''}'' # rest) = Some (ms, rest)"
    and "length (CHR ''{'' # (appendString k @ tail) @ ''}'') \<le> m"
  shows "parseValue m d ((CHR ''{'' # (appendString k @ tail) @ ''}'') @ rest) =
    Some (JObject ms, rest)"
proof -
  obtain n where m: "m = Suc n"
    using assms(3) by (cases m) simp_all
  have "parseMembers n (Suc d) ((appendString k @ tail) @ CHR ''}'' # rest) = Some (ms, rest)"
    using assms(3) m by (intro assms(2)) simp
  then show ?thesis
    using parseValue_object [OF assms(1), of n k "tail @ CHR ''}'' # rest" ms rest] m by simp
qed

lemma parseElements_commas_text:
  assumes "xs \<noteq> []"
    and "\<And>x n rest. x \<in> set xs \<Longrightarrow> length (f x) \<le> n \<Longrightarrow>
      parseValue n d (f x @ rest) = Some (g x, rest)"
    and "length (commas (map f xs)) + 1 \<le> m"
  shows "parseElements m d (commas (map f xs) @ CHR '']'' # rest) = Some (map g xs, rest)"
  using assms
proof (induction xs arbitrary: m)
  case Nil
  then show ?case by simp
next
  case (Cons x xs)
  obtain n where m: "m = Suc n"
    using Cons.prems(3) by (cases m) simp_all
  show ?case
  proof (cases "xs = []")
    case True
    have "parseValue n d (f x @ CHR '']'' # rest) = Some (g x, CHR '']'' # rest)"
      using Cons.prems(3) True m by (intro Cons.prems(2)) simp_all
    then show ?thesis
      using True parseElements_last [of n d "f x" rest "g x"] m by simp
  next
    case False
    let ?tl = "commas (map f xs) @ CHR '']'' # rest"
    have len: "length (commas (map f (x # xs))) = length (f x) + 1 + length (commas (map f xs))"
      using False by simp
    have "parseElements n d ?tl = Some (map g xs, rest)"
      using Cons.prems(2,3) m len by (intro Cons.IH [OF False]) simp_all
    moreover have "parseValue n d (f x @ CHR '','' # ?tl) = Some (g x, CHR '','' # ?tl)"
      using Cons.prems(3) m len by (intro Cons.prems(2)) simp_all
    ultimately show ?thesis
      using False parseElements_more [of n d "f x" ?tl "g x" "map g xs" rest] m
      by simp
  qed
qed

lemma parseValue_slice_text:
  assumes "d < maxNestingDepth"
    and "\<And>x n rest. x \<in> set (elems s) \<Longrightarrow> length (f x) \<le> n \<Longrightarrow>
      parseValue n (Suc d) (f x @ rest) = Some (g x, rest)"
    and "\<And>x. x \<in> set (elems s) \<Longrightarrow> \<exists>t. f x = CHR ''{'' # t"
    and "length (json_slice f s) \<le> m"
  shows "parseValue m d (json_slice f s @ rest) = Some (tree_slice g s, rest)"
proof -
  obtain n where m: "m = Suc n"
    using assms(4) by (cases m; cases s) (simp_all add: json_slice_def)
  show ?thesis
  proof (cases s)
    case nil
    then show ?thesis
      by (simp add: json_slice_def m parseValue.simps(2) skipSpace_Cons not_space isDigit_def)
  next
    case (Slice xs)
    show ?thesis
    proof (cases "xs = []")
      case True
      then show ?thesis
        using assms(1) Slice
        by (simp add: json_slice_def m parseValue.simps(2) skipSpace_Cons not_space)
    next
      case False
      then obtain x xs' where xs: "xs = x # xs'"
        by (cases xs) auto
      obtain t where t: "f x = CHR ''{'' # t"
        using assms(3) [of x] Slice xs by auto
      obtain t' where first: "commas (map f xs) = CHR ''{'' # t'"
        using t xs by (cases "xs' = []") auto
      have "parseElements n (Suc d) (commas (map f xs) @ CHR '']'' # rest) = Some (map g xs, rest)"
        using assms(2,4) Slice m False
        by (intro parseElements_commas_text) (simp_all add: json_slice_def)
      then show ?thesis
        using assms(1) Slice first
        by (simp add: json_slice_def m parseValue.simps(2) skipSpace_Cons not_space)
    qed
  qed
qed

lemma ValidString_names:
  "ValidString ''type''" "ValidString ''text''" "ValidString ''role''" "ValidString ''content''"
  "ValidString ''anthropic_version''" "ValidString ''max_tokens''" "ValidString ''system''"
  "ValidString ''messages''"
  by (simp_all add: ValidString_ascii)

lemma parseValue_ClaudeTextContent:
  assumes "valid_ClaudeTextContent c" "d < maxNestingDepth"
    and "length (json_ClaudeTextContent c) \<le> m"
  shows "parseValue m d (json_ClaudeTextContent c @ rest) = Some (tree_ClaudeTextContent c, rest)"
proof -
  let ?T = "appendString (ClaudeTextContent.Type c)"
  let ?X = "appendString (Text c)"
  let ?last = "appendString ''text'' @ CHR '':'' # ?X"
  let ?tail = "CHR '':'' # ?T @ CHR '','' # ?last"
  have shape: "json_ClaudeTextContent c = CHR ''{'' # (appendString ''type'' @ ?tail) @ ''}''"
    by (simp add: json_ClaudeTextContent_def)
  have valid: "ValidString (ClaudeTextContent.Type c)" "ValidString (Text c)"
    using assms(1) by (simp_all add: valid_ClaudeTextContent_def)
  have members: "parseMembers n (Suc d) ((appendString ''type'' @ ?tail) @ CHR ''}'' # rest) =
      Some ([(''type'', JString (ClaudeTextContent.Type c)), (''text'', JString (Text c))], rest)"
    if "length (appendString ''type'' @ ?tail) + 1 \<le> n" for n rest
  proof -
    have "parseMembers k (Suc d) (?last @ CHR ''}'' # rest) =
        Some ([(''text'', JString (Text c))], rest)"
      if "length ?last + 1 \<le> k" for k
      using parseMembers_last_text [OF ValidString_names(2), of ?X "Suc d" "JString (Text c)" k rest]
        parseValue_string_text [OF valid(2)] that
      by simp
    then show ?thesis
      using parseMembers_more_text [OF ValidString_names(1), of ?T "Suc d"
          "JString (ClaudeTextContent.Type c)" ?last rest "[(''text'', JString (Text c))]" n]
        parseValue_string_text [OF valid(1)] that
      by simp
  qed
  show ?thesis
    unfolding shape tree_ClaudeTextContent_def
    using assms(3) members
    by (intro parseValue_object_text [OF assms(2)]) (simp_all add: shape)
qed

lemma json_ClaudeTextContent_first: "\<exists>t. json_ClaudeTextContent c = CHR ''{'' # t"
  by (simp add: json_ClaudeTextContent_def)

lemma json_ClaudeRequestMessage_first: "\<exists>t. json_ClaudeRequestMessage m = CHR ''{'' # t"
  by (simp add: json_ClaudeRequestMessage_def)

lemma parseValue_ClaudeRequestMessage:
  assumes "valid_ClaudeRequestMessage c" "Suc (Suc d) < maxNestingDepth"
    and "length (json_ClaudeRequestMessage c) \<le> m"
  shows "parseValue m d (json_ClaudeRequestMessage c @ rest) =
    Some (tree_ClaudeRequestMessage c, rest)"
proof -
  let ?R = "appendString (ClaudeRequestMessage.Role c)"
  let ?C = "json_slice json_ClaudeTextContent (ClaudeRequestMessage.Content c)"
  let ?last = "appendString ''content'' @ CHR '':'' # ?C"
  let ?tail = "CHR '':'' # ?R @ CHR '','' # ?last"
  let ?content = "tree_slice tree_ClaudeTextContent (ClaudeRequestMessage.Content c)"
  have shape: "json_ClaudeRequestMessage c = CHR ''{'' # (appendString ''role'' @ ?tail) @ ''}''"
    by (simp add: json_ClaudeRequestMessage_def)
  have valid: "ValidString (ClaudeRequestMessage.Role c)"
    "\<And>x. x \<in> set (elems (ClaudeRequestMessage.Content c)) \<Longrightarrow> valid_ClaudeTextContent x"
    using assms(1) by (simp_all add: valid_ClaudeRequestMessage_def list_all_iff)
  have content: "parseValue n (Suc d) (?C @ rest) = Some (?content, rest)"
    if "length ?C \<le> n" for n rest
    using assms(2) valid(2) that json_ClaudeTextContent_first
    by (intro parseValue_slice_text parseValue_ClaudeTextContent) simp_all
  have members: "parseMembers n (Suc d) ((appendString ''role'' @ ?tail) @ CHR ''}'' # rest) =
      Some ([(''role'', JString (ClaudeRequestMessage.Role c)), (''content'', ?content)], rest)"
    if "length (appendString ''role'' @ ?tail) + 1 \<le> n" for n rest
  proof -
    have "parseMembers k (Suc d) (?last @ CHR ''}'' # rest) = Some ([(''content'', ?content)], rest)"
      if "length ?last + 1 \<le> k" for k
      using parseMembers_last_text [OF ValidString_names(4), of ?C "Suc d" ?content k rest]
        content that
      by simp
    then show ?thesis
      using parseMembers_more_text [OF ValidString_names(3), of ?R "Suc d"
          "JString (ClaudeRequestMessage.Role c)" ?last rest "[(''content'', ?content)]" n]
        parseValue_string_text [OF valid(1)] that
      by simp
  qed
  have depth: "d < maxNestingDepth"
    using assms(2) by simp
  show ?thesis
    unfolding shape tree_ClaudeRequestMessage_def
    using assms(3) members
    by (intro parseValue_object_text [OF depth]) (simp_all add: shape)
qed

lemma comma_literal:
  "\<not> isDigit CHR '',''" "CHR '','' \<noteq> CHR ''.''" "CHR '','' \<noteq> CHR ''e''" "CHR '','' \<noteq> CHR ''E''"
  by (simp_all add: isDigit_def)

lemma parseValue_ClaudeRequest:
  assumes "valid_ClaudeRequest r" "length (json_ClaudeRequest r) \<le> m"
  shows "parseValue m 0 (json_ClaudeRequest r @ rest) = Some (tree_ClaudeRequest r, rest)"
proof -
  let ?A = "appendString (AnthropicVersion r)"
  let ?N = "FormatInt (MaxTokens r)"
  let ?S = "appendString (System r)"
  let ?M = "json_slice json_ClaudeRequestMessage (Messages r)"
  let ?m4 = "appendString ''messages'' @ CHR '':'' # ?M"
  let ?m3 = "appendString ''system'' @ CHR '':'' # ?S @ CHR '','' # ?m4"
  let ?m2 = "appendString ''max_tokens'' @ CHR '':'' # ?N @ CHR '','' # ?m3"
  let ?tail = "CHR '':'' # ?A @ CHR '','' # ?m2"
  let ?messages = "tree_slice tree_ClaudeRequestMessage (Messages r)"
  let ?t4 = "[(''messages'', ?messages)]"
  let ?t3 = "(''system'', JString (System r)) # ?t4"
  let ?t2 = "(''max_tokens'', JNumber ?N) # ?t3"
  have shape: "json_ClaudeRequest r =
      CHR ''{'' # (appendString ''anthropic_version'' @ ?tail) @ ''}''"
    by (simp add: json_ClaudeRequest_def)
  have valid: "ValidString (AnthropicVersion r)" "ValidString (System r)"
    "\<And>x. x \<in> set (elems (Messages r)) \<Longrightarrow> valid_ClaudeRequestMessage x"
    using assms(1) by (simp_all add: valid_ClaudeRequest_def list_all_iff)
  have messages: "parseValue n 1 (?M @ rest) = Some (?messages, rest)"
    if "length ?M \<le> n" for n rest
    unfolding One_nat_def
    using valid(3) that json_ClaudeRequestMessage_first
    by (intro parseValue_slice_text parseValue_ClaudeRequestMessage)
      (simp_all add: maxNestingDepth_def)
  have number: "parseValue n 1 (?N @ CHR '','' # rest) = Some (JNumber ?N, CHR '','' # rest)"
    if "length ?N \<le> n" for n rest
    using that by (intro parseValue_int_text comma_literal)
  have members: "parseMembers n 1 ((appendString ''anthropic_version'' @ ?tail) @ CHR ''}'' # rest) =
      Some ((''anthropic_version'', JString (AnthropicVersion r)) # ?t2, rest)"
    if "length (appendString ''anthropic_version'' @ ?tail) + 1 \<le> n" for n rest
  proof -
    have m4: "parseMembers k 1 (?m4 @ CHR ''}'' # rest) = Some (?t4, rest)"
      if "length ?m4 + 1 \<le> k" for k
      using parseMembers_last_text [OF ValidString_names(8), of ?M 1 ?messages k rest]
        messages that
      by simp
    have m3: "parseMembers k 1 (?m3 @ CHR ''}'' # rest) = Some (?t3, rest)"
      if "length ?m3 + 1 \<le> k" for k
      using parseMembers_more_text [OF ValidString_names(7), of ?S 1
          "JString (System r)" ?m4 rest ?t4 k]
        parseValue_string_text [OF valid(2)] m4 that
      by simp
    have m2: "parseMembers k 1 (?m2 @ CHR ''}'' # rest) = Some (?t2, rest)"
      if len: "length ?m2 + 1 \<le> k" for k
    proof -
      obtain j where k: "k = Suc j"
        using len by (cases k) simp_all
      have "parseValue j 1 (?N @ CHR '','' # ?m3 @ CHR ''}'' # rest) =
          Some (JNumber ?N, CHR '','' # ?m3 @ CHR ''}'' # rest)"
        using len k by (intro number) simp
      moreover have "parseMembers j 1 (?m3 @ CHR ''}'' # rest) = Some (?t3, rest)"
        using len k by (intro m3) simp
      ultimately show ?thesis
        using parseMembers_more [OF ValidString_names(6), of j 1 ?N "?m3 @ CHR ''}'' # rest"
            "JNumber ?N" ?t3 rest] k
        by simp
    qed
    show ?thesis
      using parseMembers_more_text [OF ValidString_names(5), of ?A 1
          "JString (AnthropicVersion r)" ?m2 rest ?t2 n]
        parseValue_string_text [OF valid(1)] m2 that
      by simp
  qed
  have depth: "0 < maxNestingDepth"
    by (simp add: maxNestingDepth_def)
  show ?thesis
    unfolding shape tree_ClaudeRequest_def
    using assms(2) members
    by (intro parseValue_object_text [OF depth]) (simp_all add: shape)
qed

lemma parse_ClaudeRequest:
  assumes "valid_ClaudeRequest r"
  shows "parse (json_ClaudeRequest r) = Some (tree_ClaudeRequest r)"
  using parseValue_ClaudeRequest [OF assms, of "Suc (length (json_ClaudeRequest r))" "[]"]
  by (simp add: parse_def skipSpace_def)

section \<open>Storing the parsed request\<close>

text \<open>Storing the JSON value of a request into a zero request gives the request.\<close>

lemma storeElements_map:
  assumes "\<And>x. x \<in> set xs \<Longrightarrow> elem (g x) zero = Inr x"
  shows "storeElements elem zero (map g xs) = Inr xs"
  using assms by (induction xs) simp_all

lemma storeSlice_tree:
  assumes "\<And>x. x \<in> set (elems s) \<Longrightarrow> elem (g x) zero = Inr x"
  shows "storeSlice elem zero (tree_slice g s) nil = Inr s"
  using assms by (cases s) (simp_all add: storeElements_map)

lemma storeStruct_ClaudeTextContent:
  "storeStruct fields_ClaudeTextContent (tree_ClaudeTextContent c) zero_ClaudeTextContent = Inr c"
  by (simp add: tree_ClaudeTextContent_def fields_ClaudeTextContent_def findField_def
      zero_ClaudeTextContent_def)

lemma storeStruct_ClaudeRequestMessage:
  "storeStruct fields_ClaudeRequestMessage (tree_ClaudeRequestMessage m) zero_ClaudeRequestMessage =
    Inr m"
  by (simp add: tree_ClaudeRequestMessage_def fields_ClaudeRequestMessage_def findField_def
      zero_ClaudeRequestMessage_def storeSlice_tree storeStruct_ClaudeTextContent)

lemma storeStruct_ClaudeRequest:
  "storeStruct fields_ClaudeRequest (tree_ClaudeRequest r) zero_ClaudeRequest = Inr r"
  by (simp add: tree_ClaudeRequest_def fields_ClaudeRequest_def findField_def
      zero_ClaudeRequest_def storeSlice_tree storeStruct_ClaudeRequestMessage ParseInt_FormatInt)

lemma Unmarshal_json_ClaudeRequest:
  assumes "valid_ClaudeRequest r"
  shows "Unmarshal_ClaudeRequest (json_ClaudeRequest r) = Inr r"
  by (simp add: Unmarshal_ClaudeRequest_def parse_ClaudeRequest [OF assms]
      storeStruct_ClaudeRequest)

section \<open>The round trip of a request\<close>

text \<open>
  Claim C5, as amended. For every request whose strings are all valid UTF-8,
  \<^verbatim>\<open>json.Marshal\<close> succeeds and \<^verbatim>\<open>json.Unmarshal\<close> of the bytes it produced into a zero
  request succeeds and gives back the request itself: the same version string, the same
  token limit, the same system prompt and the same messages, a \<^verbatim>\<open>nil\<close> slice staying \<^verbatim>\<open>nil\<close>
  and an empty one staying empty.
\<close>

theorem request_round_trip:
  assumes "valid_ClaudeRequest r"
  shows "Marshal (ValueOf_ClaudeRequest r) = Inr (json_ClaudeRequest r) \<and>
    Unmarshal_ClaudeRequest (json_ClaudeRequest r) = Inr r"
  using assms by (simp add: Marshal_ClaudeRequest Unmarshal_json_ClaudeRequest)

text \<open>
  The claim as it was stated, for every request, fails for a request that holds a string
  which is not valid UTF-8: the encoder writes U+FFFD in place of each invalid byte, so
  the decoded system prompt is the three bytes of U+FFFD and not the byte that was
  encoded.
\<close>

theorem invalid_utf8_is_not_restored:
  "Marshal (ValueOf_ClaudeRequest invalid_request) = Inr (json_ClaudeRequest invalid_request) \<and>
   Unmarshal_ClaudeRequest (json_ClaudeRequest invalid_request) =
     Inr (invalid_request\<lparr>System := [CHR 0xEF, CHR 0xBF, CHR 0xBD]\<rparr>) \<and>
   System invalid_request = [CHR 0xFF]"
  by code_simp

text \<open>The request that the program sends is valid, and it survives the round trip.\<close>

theorem request_round_trip_witness:
  "valid_ClaudeRequest request \<and>
   Marshal (ValueOf_ClaudeRequest request) = Inr (json_ClaudeRequest request) \<and>
   Unmarshal_ClaudeRequest (json_ClaudeRequest request) = Inr request"
proof -
  have valid: "valid_ClaudeRequest request"
    by code_simp
  show ?thesis
    using request_round_trip [of request] valid by simp
qed

end
